(* ===== verification/H2000_Prelude.thy ===== *)
theory H2000_Prelude
  imports Main "HOL-Library.Word" "HOL-Library.Monad_Syntax"
begin

text \<open>
  Shared vocabulary of the development: the C integer types of the 32-bit big-endian PowerPC
  target, the kernel's error numbers, the ioctl number encoding, byte-wise access to buffers of
  a fixed size, the bounded polling loop that most of the drivers use, and the notion of a
  reachable state with its invariant rule.
\<close>

unbundle bit_operations_syntax

section \<open>C types and error numbers\<close>

type_synonym byte = "8 word"
type_synonym u16 = "16 word"
type_synonym u32 = "32 word"

abbreviation ENXIO :: int where "ENXIO \<equiv> 6"
abbreviation EAGAIN :: int where "EAGAIN \<equiv> 11"
abbreviation ENOMEM :: int where "ENOMEM \<equiv> 12"
abbreviation EFAULT :: int where "EFAULT \<equiv> 14"
abbreviation EBUSY :: int where "EBUSY \<equiv> 16"
abbreviation EEXIST :: int where "EEXIST \<equiv> 17"
abbreviation ENODEV :: int where "ENODEV \<equiv> 19"
abbreviation EINVAL :: int where "EINVAL \<equiv> 22"
abbreviation ENOTTY :: int where "ENOTTY \<equiv> 25"
abbreviation ESPIPE :: int where "ESPIPE \<equiv> 29"
abbreviation EIO :: int where "EIO \<equiv> 5"
abbreviation EMSGSIZE :: int where "EMSGSIZE \<equiv> 90"
abbreviation ESHUTDOWN :: int where "ESHUTDOWN \<equiv> 108"
abbreviation ENOIOCTLCMD :: int where "ENOIOCTLCMD \<equiv> 515"

named_theorems register_consts \<open>addresses, fields and codes of the hardware\<close>

section \<open>ioctl command numbers\<close>

text \<open>
  The PowerPC layout: 8 bits of number, 8 bits of type, 13 bits of size and 3 bits of direction.
\<close>

definition IOC :: "u32 \<Rightarrow> u32 \<Rightarrow> u32 \<Rightarrow> u32 \<Rightarrow> u32" where
  "IOC dir ty nr sz =
     push_bit 29 dir OR push_bit 8 ty OR push_bit 0 nr OR push_bit 16 sz"

definition IOC_DIR :: "u32 \<Rightarrow> u32" where
  "IOC_DIR cmd = drop_bit 29 cmd AND 7"

definition IOC_TYPE :: "u32 \<Rightarrow> u32" where
  "IOC_TYPE cmd = drop_bit 8 cmd AND 255"

definition IOC_NR :: "u32 \<Rightarrow> u32" where
  "IOC_NR cmd = drop_bit 0 cmd AND 255"

definition IOC_SIZE :: "u32 \<Rightarrow> u32" where
  "IOC_SIZE cmd = drop_bit 16 cmd AND 8191"

definition IO_nr :: "u32 \<Rightarrow> u32 \<Rightarrow> u32" where
  "IO_nr ty nr = IOC 1 ty nr 0"

definition IOR_nr :: "u32 \<Rightarrow> u32 \<Rightarrow> u32 \<Rightarrow> u32" where
  "IOR_nr ty nr sz = IOC 2 ty nr sz"

definition IOW_nr :: "u32 \<Rightarrow> u32 \<Rightarrow> u32 \<Rightarrow> u32" where
  "IOW_nr ty nr sz = IOC 4 ty nr sz"

lemmas ioc_defs = IOC_def IOC_DIR_def IOC_TYPE_def IOC_NR_def IOC_SIZE_def
  IO_nr_def IOR_nr_def IOW_nr_def

section \<open>Big-endian byte access\<close>

definition be32 :: "u32 \<Rightarrow> byte list" where
  "be32 w = [ucast (drop_bit 24 w), ucast (drop_bit 16 w), ucast (drop_bit 8 w), ucast w]"

definition of_be32 :: "byte \<Rightarrow> byte \<Rightarrow> byte \<Rightarrow> byte \<Rightarrow> u32" where
  "of_be32 a b c d =
     push_bit 24 (ucast a) OR push_bit 16 (ucast b) OR push_bit 8 (ucast c) OR ucast d"

definition of_be16 :: "byte \<Rightarrow> byte \<Rightarrow> u16" where
  "of_be16 a b = push_bit 8 (ucast a) OR ucast b"

definition be32_at :: "byte list \<Rightarrow> nat \<Rightarrow> u32" where
  "be32_at bs i = of_be32 (bs ! i) (bs ! (i + 1)) (bs ! (i + 2)) (bs ! (i + 3))"

definition hi8 :: "u16 \<Rightarrow> byte" where
  "hi8 w = ucast (drop_bit 8 w AND 0xff)"

definition lo8 :: "u16 \<Rightarrow> byte" where
  "lo8 w = ucast (w AND 0xff)"

lemma length_be32 [simp]: "length (be32 w) = 4"
  by (simp add: be32_def)

lemma and_0xff [simp]: "w AND 0xff = take_bit 8 (w :: 'a :: len word)"
  by (simp add: take_bit_eq_mask mask_numeral)

lemma and_bit_eq_0: "w AND push_bit k 1 = 0 \<longleftrightarrow> \<not> bit w k" for w :: "'a :: len word"
proof -
  have "bit (w AND push_bit k 1) n \<longleftrightarrow> n = k \<and> bit w k" for n
    by (auto simp: bit_simps dest: bit_imp_le_length)
  then show ?thesis by (metis bit_0_eq bit_word_eqI bot_apply bot_bool_def)
qed

lemma small_bit:
  fixes w :: "'a :: len word"
  assumes "unat w < 2 ^ k" "bit w n"
  shows "n < k"
proof -
  have "take_bit k w = w" using assms(1)
    by (metis take_bit_nat_eq_self unsigned_take_bit_eq unsigned_word_eqI)
  then show ?thesis using assms(2) by (metis bit_take_bit_iff)
qed

lemma of_be32_be32:
  "of_be32 (ucast (drop_bit 24 w)) (ucast (drop_bit 16 w)) (ucast (drop_bit 8 w)) (ucast w) = w"
proof (rule bit_word_eqI)
  fix n :: nat
  assume "n < LENGTH(32)"
  then have "n < 8 \<or> 8 \<le> n \<and> n < 16 \<or> 16 \<le> n \<and> n < 24 \<or> 24 \<le> n \<and> n < 32"
    by auto
  then show "bit (of_be32 (ucast (drop_bit 24 w)) (ucast (drop_bit 16 w))
      (ucast (drop_bit 8 w)) (ucast w)) n = bit w n"
    by (elim disjE conjE) (simp_all add: of_be32_def bit_simps, auto)
qed

lemma be32_of_be32: "be32 (of_be32 a b c d) = [a, b, c, d]"
proof -
  have "ucast (drop_bit 24 (of_be32 a b c d)) = a"
    by (rule bit_word_eqI) (auto simp: of_be32_def bit_simps dest: bit_imp_le_length)
  moreover have "ucast (drop_bit 16 (of_be32 a b c d)) = b"
    by (rule bit_word_eqI) (auto simp: of_be32_def bit_simps dest: bit_imp_le_length)
  moreover have "ucast (drop_bit 8 (of_be32 a b c d)) = c"
    by (rule bit_word_eqI) (auto simp: of_be32_def bit_simps dest: bit_imp_le_length)
  moreover have "ucast (of_be32 a b c d) = d"
    by (rule bit_word_eqI) (auto simp: of_be32_def bit_simps dest: bit_imp_le_length)
  ultimately show ?thesis
    by (simp add: be32_def)
qed

lemma ucast_of_nat_byte [simp]: "(ucast (of_nat n :: u32) :: byte) = of_nat n"
  by (rule bit_word_eqI) (simp add: bit_simps)

lemma be32_at_be32 [simp]: "be32_at (be32 w @ bs) 0 = w"
  by (simp add: be32_at_def be32_def of_be32_be32)

lemma be32_at_skip: "be32_at (be32 w @ bs) (4 + i) = be32_at bs i"
  by (simp add: be32_at_def be32_def ac_simps)

lemma of_be16_hi8_lo8 [simp]: "of_be16 (hi8 w) (lo8 w) = w"
  by (rule bit_word_eqI) (auto simp: of_be16_def hi8_def lo8_def bit_simps)

section \<open>Buffers of a fixed size\<close>

text \<open>
  An array of the C code is a list of its elements. Copying past its end is undefined behaviour
  in C, so it is the value \<^term>\<open>None\<close> here.
\<close>

definition memcpy_at :: "'a list \<Rightarrow> nat \<Rightarrow> 'a list \<Rightarrow> 'a list option" where
  "memcpy_at buf off src =
     (if off + length src \<le> length buf
      then Some (take off buf @ src @ drop (off + length src) buf)
      else None)"

definition memread_at :: "'a list \<Rightarrow> nat \<Rightarrow> nat \<Rightarrow> 'a list option" where
  "memread_at buf off n =
     (if off + n \<le> length buf then Some (take n (drop off buf)) else None)"

lemma memcpy_at_eq_Some:
  "memcpy_at buf off src = Some b \<longleftrightarrow>
     off + length src \<le> length buf \<and> b = take off buf @ src @ drop (off + length src) buf"
  by (auto simp: memcpy_at_def)

lemma memcpy_at_eq_None:
  "memcpy_at buf off src = None \<longleftrightarrow> length buf < off + length src"
  by (auto simp: memcpy_at_def)

lemma memread_at_eq_None: "memread_at buf off n = None \<longleftrightarrow> length buf < off + n"
  by (auto simp: memread_at_def)

lemma length_memcpy_at: "memcpy_at buf off src = Some b \<Longrightarrow> length b = length buf"
  by (auto simp: memcpy_at_eq_Some)

lemma memread_memcpy_at:
  "memcpy_at buf off src = Some b \<Longrightarrow> memread_at b off (length src) = Some src"
  by (auto simp: memcpy_at_eq_Some memread_at_def)

text \<open>
  The outcome of a kernel call that may wait: it returns, it waits for something that does not
  happen, or it leaves its buffers or follows a null pointer.
\<close>

datatype 'a kres = Done 'a | Blocked | Fault

fun of_opt :: "'a option \<Rightarrow> 'a kres" where
  "of_opt None = Fault"
| "of_opt (Some x) = Done x"

fun kbind :: "'a kres \<Rightarrow> ('a \<Rightarrow> 'b kres) \<Rightarrow> 'b kres" where
  "kbind (Done x) f = f x"
| "kbind Blocked f = Blocked"
| "kbind Fault f = Fault"

lemma kbind_eq_Done: "kbind m f = Done y \<longleftrightarrow> (\<exists>x. m = Done x \<and> f x = Done y)"
  by (cases m) auto

section \<open>User memory\<close>

text \<open>
  The address space of the calling process: the bytes the kernel can read and the addresses it
  can write. \<open>copy_from_user\<close> of \<open>n\<close> bytes succeeds iff all of them are readable;
  \<open>copy_to_user\<close> writes up to the first address it cannot write and says whether it wrote all.
\<close>

record user_mem =
  um_byte :: "u32 \<Rightarrow> byte option"
  um_writable :: "u32 \<Rightarrow> bool"

fun copy_from_user :: "user_mem \<Rightarrow> u32 \<Rightarrow> nat \<Rightarrow> byte list option" where
  "copy_from_user um a 0 = Some []"
| "copy_from_user um a (Suc n) =
     (case um_byte um a of
        None \<Rightarrow> None
      | Some b \<Rightarrow> map_option (Cons b) (copy_from_user um (a + 1) n))"

fun copy_to_user :: "user_mem \<Rightarrow> u32 \<Rightarrow> byte list \<Rightarrow> bool \<times> user_mem" where
  "copy_to_user um a [] = (True, um)"
| "copy_to_user um a (b # bs) =
     (if um_writable um a
      then copy_to_user (um\<lparr>um_byte := (um_byte um)(a \<mapsto> b)\<rparr>) (a + 1) bs
      else (False, um))"

definition put_user :: "user_mem \<Rightarrow> u32 \<Rightarrow> u32 \<Rightarrow> int \<times> user_mem" where
  "put_user um a v =
     (case copy_to_user um a (be32 v) of (True, um') \<Rightarrow> (0, um') | (False, _) \<Rightarrow> (- EFAULT, um))"

lemma length_copy_from_user: "copy_from_user um a n = Some bs \<Longrightarrow> length bs = n"
  by (induction um a n arbitrary: bs rule: copy_from_user.induct) (auto split: option.splits)

lemma copy_from_user_numeral:
  "copy_from_user um a (numeral k) =
     (case um_byte um a of
        None \<Rightarrow> None
      | Some b \<Rightarrow> map_option (Cons b) (copy_from_user um (a + 1) (pred_numeral k)))"
  by (simp add: numeral_eq_Suc)

lemma copy_to_user_writable: "um_writable (snd (copy_to_user um a bs)) = um_writable um"
  by (induction um a bs rule: copy_to_user.induct) auto

section \<open>Bounded polling\<close>

text \<open>
  The loop \<open>do { read; if (ok || count < 1) break; } while (count--);\<close>. With a counter of
  \<open>n\<close> it reads at most \<open>n + 1\<close> times and returns the last value read.
\<close>

fun poll :: "nat \<Rightarrow> ('h \<Rightarrow> 'a \<times> 'h) \<Rightarrow> ('a \<Rightarrow> bool) \<Rightarrow> 'h \<Rightarrow> 'a \<times> 'h" where
  "poll 0 rd ok h = rd h"
| "poll (Suc n) rd ok h =
     (let (a, h') = rd h in if ok a then (a, h') else poll n rd ok h')"

text \<open>The states the loop leaves behind: the state after \<open>k\<close> reads.\<close>

fun after_reads :: "('h \<Rightarrow> 'a \<times> 'h) \<Rightarrow> nat \<Rightarrow> 'h \<Rightarrow> 'h" where
  "after_reads rd 0 h = h"
| "after_reads rd (Suc k) h = after_reads rd k (snd (rd h))"

lemma poll_first_ok: "ok (fst (rd h)) \<Longrightarrow> poll n rd ok h = rd h"
  by (cases n) (auto split: prod.splits)

lemma poll_steps:
  "\<exists>k. k \<le> n \<and> poll n rd ok h = rd (after_reads rd k h) \<and>
       (\<forall>j < k. \<not> ok (fst (rd (after_reads rd j h)))) \<and>
       (ok (fst (poll n rd ok h)) \<or> k = n)"
proof (induction n arbitrary: h)
  case 0
  show ?case by (rule exI [of _ 0]) auto
next
  case (Suc n)
  show ?case
  proof (cases "ok (fst (rd h))")
    case True
    then show ?thesis
      by (intro exI [of _ 0]) (auto split: prod.splits)
  next
    case False
    from Suc.IH [of "snd (rd h)"] obtain k where k: "k \<le> n"
      "poll n rd ok (snd (rd h)) = rd (after_reads rd k (snd (rd h)))"
      "\<forall>j < k. \<not> ok (fst (rd (after_reads rd j (snd (rd h)))))"
      "ok (fst (poll n rd ok (snd (rd h)))) \<or> k = n"
      by blast
    have e: "poll (Suc n) rd ok h = poll n rd ok (snd (rd h))"
      using False by (cases "rd h") simp
    have "\<forall>j < Suc k. \<not> ok (fst (rd (after_reads rd j h)))"
    proof (intro allI impI)
      fix j assume "j < Suc k"
      then show "\<not> ok (fst (rd (after_reads rd j h)))"
        using False k(3) by (cases j) auto
    qed
    then show ?thesis
      using k e by (intro exI [of _ "Suc k"]) auto
  qed
qed

section \<open>Reachable states and invariants\<close>

definition reachable :: "('s \<Rightarrow> bool) \<Rightarrow> ('s \<Rightarrow> 's \<Rightarrow> bool) \<Rightarrow> 's \<Rightarrow> bool" where
  "reachable init step s \<longleftrightarrow> (\<exists>s0. init s0 \<and> step\<^sup>*\<^sup>* s0 s)"

lemma reachable_init: "init s \<Longrightarrow> reachable init step s"
  by (auto simp: reachable_def)

lemma reachable_step: "reachable init step s \<Longrightarrow> step s t \<Longrightarrow> reachable init step t"
  by (auto simp: reachable_def intro: rtranclp.rtrancl_into_rtrancl)

text \<open>
  What a component promises of its state machine: an invariant that holds initially and that
  every step keeps.
\<close>

locale invariant_system =
  fixes init :: "'s \<Rightarrow> bool" and step :: "'s \<Rightarrow> 's \<Rightarrow> bool" and inv :: "'s \<Rightarrow> bool"
  assumes inv_init: "init s \<Longrightarrow> inv s"
    and inv_step: "inv s \<Longrightarrow> step s t \<Longrightarrow> inv t"
begin

lemma inv_steps: "step\<^sup>*\<^sup>* s t \<Longrightarrow> inv s \<Longrightarrow> inv t"
  by (induction rule: rtranclp_induct) (auto intro: inv_step)

lemma inv_reachable: "reachable init step s \<Longrightarrow> inv s"
  by (auto simp: reachable_def intro: inv_steps inv_init)

end

section \<open>Operations with a return code and their refinement\<close>

text \<open>Running a sequence of operations, each of which returns a code and a new state.\<close>

fun run_list :: "('op \<Rightarrow> 's \<Rightarrow> 'r \<times> 's) \<Rightarrow> 'op list \<Rightarrow> 's \<Rightarrow> 'r list \<times> 's" where
  "run_list f [] s = ([], s)"
| "run_list f (x # xs) s =
     (let (r, s') = f x s; (rs, s'') = run_list f xs s' in (r # rs, s''))"

lemma run_list_append:
  "run_list f (xs @ ys) s =
     (let (rs, s') = run_list f xs s; (rs', s'') = run_list f ys s' in (rs @ rs', s''))"
  by (induction xs arbitrary: s) (auto split: prod.splits)

lemma length_run_list: "length (fst (run_list f xs s)) = length xs"
  by (induction xs arbitrary: s) (simp_all add: split_beta Let_def)

lemma length_concat_be32 [simp]: "length (concat (map be32 ws)) = 4 * length ws"
  by (induction ws) simp_all

text \<open>
  An implementation of a set of operations: its state is abstracted by \<open>abs\<close> under the invariant
  \<open>inv\<close>, and every well-formed operation returns the code, and has the effect, that the abstract
  operation has.
\<close>

locale refines_ops =
  fixes abs :: "'s \<Rightarrow> 'a" and inv :: "'s \<Rightarrow> bool" and wf :: "'op \<Rightarrow> bool"
    and cop :: "'op \<Rightarrow> 's \<Rightarrow> 'r \<times> 's" and aop :: "'op \<Rightarrow> 'a \<Rightarrow> 'r \<times> 'a"
  assumes cop_inv: "inv s \<Longrightarrow> wf x \<Longrightarrow> inv (snd (cop x s))"
    and cop_ret: "inv s \<Longrightarrow> wf x \<Longrightarrow> fst (cop x s) = fst (aop x (abs s))"
    and cop_abs: "inv s \<Longrightarrow> wf x \<Longrightarrow> abs (snd (cop x s)) = snd (aop x (abs s))"
begin

lemma run_refines:
  "inv s \<Longrightarrow> list_all wf xs \<Longrightarrow>
     inv (snd (run_list cop xs s)) \<and>
     fst (run_list cop xs s) = fst (run_list aop xs (abs s)) \<and>
     abs (snd (run_list cop xs s)) = snd (run_list aop xs (abs s))"
proof (induction xs arbitrary: s)
  case (Cons x xs)
  obtain r s' where c: "cop x s = (r, s')" by fastforce
  obtain r2 m' where a: "aop x (abs s) = (r2, m')" by fastforce
  have "r = r2" "abs s' = m'" "inv s'"
    using cop_ret [of s x] cop_abs [of s x] cop_inv [of s x] Cons.prems c a by auto
  with Cons.IH [of s'] Cons.prems c a show ?case
    by (auto split: prod.splits)
qed simp

end

end
