(* ===== verification/Wdt_Hardware.thy ===== *)
theory Wdt_Hardware
  imports H2000_Prelude
begin

text \<open>
  The external watchdog chip behind the GPIO block (\<open>drivers/wdt/src/WDT_hardware.c\<close> and
  \<open>include/WDT_hardware.h\<close>). The registers are the C structure \<open>ccsr_gpio\<close>; what a read of the
  data register returns is decided by the pins and is the argument \<open>rdat\<close> of every operation.
  The field \<open>gplog\<close> records the values driven onto the data register, oldest first, so that
  pulses can be stated.
\<close>

record ccsr_gpio =
  gpdir :: u32
  gpodr :: u32
  gpdat :: u32
  gpier :: u32
  gpimr :: u32
  gpicr :: u32
  gplog :: "u32 list"

abbreviation WDT_LONG_PIN :: u32 where "WDT_LONG_PIN \<equiv> 0x10000000"
abbreviation WDT_PIN :: u32 where "WDT_PIN \<equiv> 0x40000000"

type_synonym gpio_rd = "ccsr_gpio \<Rightarrow> u32"

definition out_gpdat :: "u32 \<Rightarrow> ccsr_gpio \<Rightarrow> ccsr_gpio" where
  "out_gpdat v g = g\<lparr>gpdat := v, gplog := gplog g @ [v]\<rparr>"

definition clrbits_gpdat :: "gpio_rd \<Rightarrow> u32 \<Rightarrow> ccsr_gpio \<Rightarrow> ccsr_gpio" where
  "clrbits_gpdat rdat m g = out_gpdat (rdat g AND NOT m) g"

definition setbits_gpdat :: "gpio_rd \<Rightarrow> u32 \<Rightarrow> ccsr_gpio \<Rightarrow> ccsr_gpio" where
  "setbits_gpdat rdat m g = out_gpdat (rdat g OR m) g"

definition setbits_gpdir :: "u32 \<Rightarrow> ccsr_gpio \<Rightarrow> ccsr_gpio" where
  "setbits_gpdir m g = g\<lparr>gpdir := gpdir g OR m\<rparr>"

definition WDT_LONG_BIT :: "gpio_rd \<Rightarrow> bool \<Rightarrow> ccsr_gpio \<Rightarrow> ccsr_gpio" where
  "WDT_LONG_BIT rdat b g =
     (if b then setbits_gpdat rdat WDT_LONG_PIN g else clrbits_gpdat rdat WDT_LONG_PIN g)"

definition serve_watchdog_hw :: "gpio_rd \<Rightarrow> ccsr_gpio \<Rightarrow> ccsr_gpio" where
  "serve_watchdog_hw rdat g = setbits_gpdat rdat WDT_PIN (clrbits_gpdat rdat WDT_PIN g)"

definition slow_down_watchdog_hw :: "gpio_rd \<Rightarrow> ccsr_gpio \<Rightarrow> ccsr_gpio" where
  "slow_down_watchdog_hw rdat g = serve_watchdog_hw rdat (WDT_LONG_BIT rdat True g)"

definition hardware_init :: "gpio_rd \<Rightarrow> ccsr_gpio \<Rightarrow> ccsr_gpio" where
  "hardware_init rdat g =
     (let g = setbits_gpdir 0x40000000 g;
          g = setbits_gpdir 0x10000000 g;
          g = clrbits_gpdat rdat 0x10000000 g;
          g = setbits_gpdat rdat 0x40000000 g;
          g = clrbits_gpdat rdat 0x40000000 g;
          g = serve_watchdog_hw rdat g
      in serve_watchdog_hw rdat g)"

definition hardware_clean :: "ccsr_gpio \<Rightarrow> ccsr_gpio" where
  "hardware_clean g = g"

lemmas gpio_defs = out_gpdat_def clrbits_gpdat_def setbits_gpdat_def setbits_gpdir_def
  WDT_LONG_BIT_def

section \<open>Pulses\<close>

text \<open>The watchdog chip is served by a low-to-high edge on its pin.\<close>

fun rising_edges :: "nat \<Rightarrow> u32 list \<Rightarrow> nat" where
  "rising_edges n [] = 0"
| "rising_edges n [v] = 0"
| "rising_edges n (v # w # vs) =
     (if \<not> bit v n \<and> bit w n then 1 else 0) + rising_edges n (w # vs)"

lemma gplog_serve_watchdog_hw:
  "\<exists>v w. gplog (serve_watchdog_hw rdat g) = gplog g @ [v, w] \<and> \<not> bit v 30 \<and> bit w 30"
  by (auto simp: serve_watchdog_hw_def gpio_defs bit_simps)

lemma gpdir_serve_watchdog_hw [simp]: "gpdir (serve_watchdog_hw rdat g) = gpdir g"
  by (simp add: serve_watchdog_hw_def gpio_defs)

lemma rising_edges_append:
  "xs \<noteq> [] \<Longrightarrow> \<not> bit v n \<Longrightarrow> bit w n \<Longrightarrow>
     rising_edges n (xs @ [v, w]) = Suc (rising_edges n xs)"
proof (induction n xs rule: rising_edges.induct)
  case (3 n a b vs)
  then show ?case by (cases vs) auto
qed auto

end
