(* ===== verification/Wdt_Tasks.thy ===== *)
theory Wdt_Tasks
  imports H2000_Prelude
begin

text \<open>
  The list of supervised tasks of the watchdog driver (\<open>drivers/wdt/src/watchdog.c\<close>, the
  functions from \<open>wdt_register_task\<close> to \<open>wdt_cleanup_tasklist\<close>). The kernel's doubly linked
  list is the list of its entries from the head's \<open>next\<close> on, so \<open>list_add\<close> puts an entry in
  front. A reading of \<open>jiffies\<close> is the argument \<open>now\<close>; one call reads one value.
\<close>

section \<open>The entries and the operations on the list\<close>

definition MAX_LEN :: nat where "MAX_LEN = 64"

record wdt_task =
  pid :: int
  call_period :: u32
  expires :: u32
  last_jiffies :: u32
  command :: "byte list"

fun wdt_task_already_registered :: "int \<Rightarrow> wdt_task list \<Rightarrow> int" where
  "wdt_task_already_registered taskpid [] = 0"
| "wdt_task_already_registered taskpid (t # ts) =
     (if pid t = taskpid then - EEXIST else wdt_task_already_registered taskpid ts)"

definition wdt_register_task ::
  "bool \<Rightarrow> u32 \<Rightarrow> wdt_task \<Rightarrow> wdt_task list \<Rightarrow> int \<times> wdt_task list" where
  "wdt_register_task alloc_ok now task ts =
     (if wdt_task_already_registered (pid task) ts \<noteq> 0 then (- EEXIST, ts)
      else if \<not> alloc_ok then (- ENOMEM, ts)
      else (0, \<lparr>pid = pid task,
               call_period = call_period task,
               expires = call_period task + now,
               last_jiffies = now,
               command = take MAX_LEN (command task)\<rparr> # ts))"

fun wdt_unregister_loop :: "int \<Rightarrow> wdt_task list \<Rightarrow> bool \<times> wdt_task list" where
  "wdt_unregister_loop taskpid [] = (False, [])"
| "wdt_unregister_loop taskpid (t # ts) =
     (if pid t = taskpid then (True, ts)
      else (let (found, ts') = wdt_unregister_loop taskpid ts in (found, t # ts')))"

definition wdt_unregister_task :: "int \<Rightarrow> wdt_task list \<Rightarrow> int \<times> wdt_task list" where
  "wdt_unregister_task taskpid ts =
     (let (found, ts') = wdt_unregister_loop taskpid ts
      in if \<not> found then (- ENXIO, ts') else (0, ts'))"

definition serve_entry :: "u32 \<Rightarrow> wdt_task \<Rightarrow> wdt_task" where
  "serve_entry now t = t\<lparr>expires := call_period t + now, last_jiffies := now\<rparr>"

fun wdt_serve_loop :: "int \<Rightarrow> u32 \<Rightarrow> wdt_task list \<Rightarrow> bool \<times> wdt_task list" where
  "wdt_serve_loop taskpid now [] = (False, [])"
| "wdt_serve_loop taskpid now (t # ts) =
     (let (found, ts') = wdt_serve_loop taskpid now ts
      in if pid t = taskpid then (True, serve_entry now t # ts') else (found, t # ts'))"

definition wdt_serve_task :: "int \<Rightarrow> u32 \<Rightarrow> wdt_task list \<Rightarrow> int \<times> wdt_task list" where
  "wdt_serve_task taskpid now ts =
     (let (found, ts') = wdt_serve_loop taskpid now ts
      in if \<not> found then (- ENXIO, ts') else (0, ts'))"

definition serve_all_tasks :: "u32 \<Rightarrow> wdt_task list \<Rightarrow> int \<times> wdt_task list" where
  "serve_all_tasks now ts = (0, map (serve_entry now) ts)"

fun check_loop :: "u32 \<Rightarrow> wdt_task list \<Rightarrow> wdt_task list \<Rightarrow> int \<times> wdt_task list" where
  "check_loop now all [] = (0, all)"
| "check_loop now all (t # ts) =
     (if expires t \<le> now
      then (if now \<le> last_jiffies t then (0, snd (serve_all_tasks now all)) else (- EFAULT, all))
      else check_loop now all ts)"

definition check_registered_tasks :: "u32 \<Rightarrow> wdt_task list \<Rightarrow> int \<times> wdt_task list" where
  "check_registered_tasks now ts = check_loop now ts ts"

fun wdt_cleanup_tasklist :: "wdt_task list \<Rightarrow> int \<times> wdt_task list" where
  "wdt_cleanup_tasklist [] = (0, [])"
| "wdt_cleanup_tasklist (t # ts) = wdt_cleanup_tasklist ts"

section \<open>The invariant of the list\<close>

definition task_ok :: "wdt_task \<Rightarrow> bool" where
  "task_ok t \<longleftrightarrow> expires t = call_period t + last_jiffies t \<and> length (command t) = MAX_LEN"

definition tasks_inv :: "wdt_task list \<Rightarrow> bool" where
  "tasks_inv ts \<longleftrightarrow> distinct (map pid ts) \<and> (\<forall>t \<in> set ts. task_ok t)"

lemma pid_serve_entry [simp]: "pid (serve_entry now t) = pid t"
  by (simp add: serve_entry_def)

lemma task_ok_serve_entry [simp]: "task_ok t \<Longrightarrow> task_ok (serve_entry now t)"
  by (simp add: serve_entry_def task_ok_def)

lemma already_registered_iff:
  "wdt_task_already_registered p ts \<noteq> 0 \<longleftrightarrow> p \<in> pid ` set ts"
  by (induction ts) auto

lemma serve_loop_eq:
  "wdt_serve_loop p now ts =
     (p \<in> pid ` set ts, map (\<lambda>t. if pid t = p then serve_entry now t else t) ts)"
  by (induction ts) auto

lemma unregister_loop_fst: "fst (wdt_unregister_loop p ts) \<longleftrightarrow> p \<in> pid ` set ts"
  by (induction ts) (auto split: prod.splits)

lemma unregister_loop_eq:
  "distinct (map pid ts) \<Longrightarrow>
     wdt_unregister_loop p ts = (p \<in> pid ` set ts, filter (\<lambda>t. pid t \<noteq> p) ts)"
proof (induction ts)
  case (Cons t ts)
  have "pid t = p \<Longrightarrow> filter (\<lambda>t. pid t \<noteq> p) ts = ts"
    using Cons.prems by (simp add: filter_id_conv) (metis image_eqI)
  then show ?case using Cons by auto
qed simp

lemma unregister_loop_set:
  "set (snd (wdt_unregister_loop p ts)) \<subseteq> set ts"
  by (induction ts) (auto split: prod.splits)

lemma cleanup_eq [simp]: "wdt_cleanup_tasklist ts = (0, [])"
  by (induction ts) auto

lemma check_loop_cases:
  "check_loop now all ts = (0, all) \<and> (\<forall>t \<in> set ts. now < expires t) \<or>
   check_loop now all ts = (0, map (serve_entry now) all) \<and>
     (\<exists>t \<in> set ts. expires t \<le> now \<and> now \<le> last_jiffies t) \<or>
   check_loop now all ts = (- EFAULT, all) \<and>
     (\<exists>t \<in> set ts. expires t \<le> now \<and> last_jiffies t < now)"
  by (induction ts) (auto simp: serve_all_tasks_def)

section \<open>The abstract table and the refinement\<close>

text \<open>
  Seen from outside, the list is a finite map from process numbers to the call period and the
  time of the last sign of life.
\<close>

type_synonym task_map = "int \<rightharpoonup> u32 \<times> u32"

definition abs_tasks :: "wdt_task list \<Rightarrow> task_map" where
  "abs_tasks ts = map_of (map (\<lambda>t. (pid t, (call_period t, last_jiffies t))) ts)"

datatype task_op =
    Register bool u32 wdt_task
  | Unregister int
  | Serve int u32
  | Serve_All u32

fun spec_op :: "task_op \<Rightarrow> task_map \<Rightarrow> int \<times> task_map" where
  "spec_op (Register alloc_ok now t) m =
     (if pid t \<in> dom m then (- EEXIST, m)
      else if \<not> alloc_ok then (- ENOMEM, m)
      else (0, m(pid t \<mapsto> (call_period t, now))))"
| "spec_op (Unregister p) m =
     (if p \<in> dom m then (0, m(p := None)) else (- ENXIO, m))"
| "spec_op (Serve p now) m =
     (case m p of None \<Rightarrow> (- ENXIO, m) | Some (c, l) \<Rightarrow> (0, m(p \<mapsto> (c, now))))"
| "spec_op (Serve_All now) m = (0, \<lambda>p. map_option (\<lambda>(c, l). (c, now)) (m p))"

fun run_op :: "task_op \<Rightarrow> wdt_task list \<Rightarrow> int \<times> wdt_task list" where
  "run_op (Register alloc_ok now t) ts = wdt_register_task alloc_ok now t ts"
| "run_op (Unregister p) ts = wdt_unregister_task p ts"
| "run_op (Serve p now) ts = wdt_serve_task p now ts"
| "run_op (Serve_All now) ts = serve_all_tasks now ts"

fun op_wf :: "task_op \<Rightarrow> bool" where
  "op_wf (Register alloc_ok now t) \<longleftrightarrow> length (command t) = MAX_LEN"
| "op_wf _ \<longleftrightarrow> True"

lemma dom_abs_tasks [simp]: "dom (abs_tasks ts) = pid ` set ts"
  by (force simp: abs_tasks_def dom_map_of_conv_image_fst)

lemma abs_tasks_Nil [simp]: "abs_tasks [] = Map.empty"
  by (simp add: abs_tasks_def)

lemma abs_tasks_Cons [simp]:
  "abs_tasks (t # ts) = (abs_tasks ts)(pid t \<mapsto> (call_period t, last_jiffies t))"
  by (simp add: abs_tasks_def)

lemma abs_tasks_filter: "abs_tasks (filter (\<lambda>t. pid t \<noteq> p) ts) = (abs_tasks ts)(p := None)"
  by (induction ts) auto

lemma abs_tasks_serve:
  "abs_tasks (map (\<lambda>t. if pid t = p then serve_entry now t else t) ts) =
     (case abs_tasks ts p of None \<Rightarrow> abs_tasks ts
      | Some (c, l) \<Rightarrow> (abs_tasks ts)(p \<mapsto> (c, now)))"
  by (induction ts) (auto simp: serve_entry_def split: option.splits)

lemma abs_tasks_serve_all:
  "abs_tasks (map (serve_entry now) ts) = (\<lambda>p. map_option (\<lambda>(c, l). (c, now)) (abs_tasks ts p))"
  by (induction ts) (auto simp: serve_entry_def)

lemma tasks_inv_run_op: "tasks_inv ts \<Longrightarrow> op_wf x \<Longrightarrow> tasks_inv (snd (run_op x ts))"
proof (cases x)
  case (Register a now t)
  assume "tasks_inv ts" "op_wf x"
  then show ?thesis using Register already_registered_iff [of "pid t" ts]
    by (auto simp: wdt_register_task_def tasks_inv_def task_ok_def)
qed (auto simp: wdt_unregister_task_def wdt_serve_task_def serve_all_tasks_def serve_loop_eq
       unregister_loop_eq tasks_inv_def distinct_map_filter comp_def if_distrib cong: if_cong)

lemma fst_run_op: "tasks_inv ts \<Longrightarrow> fst (run_op x ts) = fst (spec_op x (abs_tasks ts))"
proof (cases x)
  case (Register a now t)
  then show ?thesis using already_registered_iff [of "pid t" ts]
    by (auto simp: wdt_register_task_def)
next
  case (Serve p now)
  have "abs_tasks ts p = None \<longleftrightarrow> p \<notin> pid ` set ts"
    by (metis dom_abs_tasks domIff)
  then show ?thesis using Serve
    by (auto simp: wdt_serve_task_def serve_loop_eq split: option.splits)
qed (auto simp: wdt_unregister_task_def serve_all_tasks_def unregister_loop_eq tasks_inv_def)

lemma abs_run_op:
  "tasks_inv ts \<Longrightarrow> abs_tasks (snd (run_op x ts)) = snd (spec_op x (abs_tasks ts))"
proof (cases x)
  case (Register a now t)
  then show ?thesis using already_registered_iff [of "pid t" ts]
    by (auto simp: wdt_register_task_def)
next
  case (Unregister p)
  assume "tasks_inv ts"
  then show ?thesis using Unregister
    by (auto simp: wdt_unregister_task_def unregister_loop_eq tasks_inv_def abs_tasks_filter
        simp flip: dom_abs_tasks)
next
  case (Serve p now)
  then show ?thesis
    by (auto simp: wdt_serve_task_def serve_loop_eq abs_tasks_serve split: option.splits)
next
  case (Serve_All now)
  then show ?thesis by (simp add: serve_all_tasks_def abs_tasks_serve_all)
qed

interpretation wdt_tasks: refines_ops abs_tasks tasks_inv op_wf run_op spec_op
  by unfold_locales (auto simp: tasks_inv_run_op fst_run_op abs_run_op)

text \<open>
  C12. The list of tasks implements a table keyed by process number: for every sequence of
  registrations, removals and signs of life, each call returns the code, and the list holds the
  entries, that the abstract table gives, and the list stays well formed.
\<close>

theorem task_list_refines_table:
  assumes "tasks_inv ts" "list_all op_wf ops"
  shows "tasks_inv (snd (run_list run_op ops ts)) \<and>
    fst (run_list run_op ops ts) = fst (run_list spec_op ops (abs_tasks ts)) \<and>
    abs_tasks (snd (run_list run_op ops ts)) = snd (run_list spec_op ops (abs_tasks ts))"
  using assms by (rule wdt_tasks.run_refines)

theorem task_list_refines_table_witness:
  "let t = \<lparr>pid = 7, call_period = 10, expires = 0, last_jiffies = 0, command = replicate 64 0\<rparr>;
       ops = [Register True 5 t, Register True 6 t, Serve 7 9, Serve 8 9, Unregister 7, Unregister 7]
   in fst (run_list run_op ops []) = [0, - EEXIST, 0, - ENXIO, 0, - ENXIO]"
  using task_list_refines_table [of "[]"
      "[Register True 5 \<lparr>pid = 7, call_period = 10, expires = 0, last_jiffies = 0,
          command = replicate 64 0\<rparr>,
        Register True 6 \<lparr>pid = 7, call_period = 10, expires = 0, last_jiffies = 0,
          command = replicate 64 0\<rparr>,
        Serve 7 9, Serve 8 9, Unregister 7, Unregister 7]"]
  by (simp add: tasks_inv_def MAX_LEN_def Let_def)

end
