(* ===== verification/Watchdog.thy ===== *)
theory Watchdog
  imports Wdt_Hardware Wdt_Tasks
begin

text \<open>
  The software watchdog driver (\<open>drivers/wdt/src/watchdog.c\<close>): its global variables are the
  record \<open>wdt_state\<close>, its file operations, timer routine and module entry points are one
  definition each. Configuration as in \<open>configs.h\<close> and the kernel's \<open>.config\<close>: 250 ticks per
  second, 20 seconds timeout, a check every quarter of a second, the timer never stopped by a
  close, debug output off. The kernel's \<open>printk\<close> output is left out; \<open>kernel_restart\<close> is counted.
\<close>

section \<open>Configuration and state\<close>

definition HZ :: u32 where "HZ = 250"
definition TIMEOUT_VALUE :: u32 where "TIMEOUT_VALUE = 20"
definition TRIGGER_PERIOD :: u32 where "TRIGGER_PERIOD = HZ div 4"

lemma HZ_num [simp]: "HZ = 250" by (simp add: HZ_def)
lemma TIMEOUT_num [simp]: "TIMEOUT_VALUE = 20" by (simp add: TIMEOUT_VALUE_def)
lemma TRIGGER_num [simp]: "TRIGGER_PERIOD = 62" by (simp add: TRIGGER_PERIOD_def)

record wdt_state =
  timer_count :: u32
  timer_period :: u32
  do_hard_reset :: u32
  enabled :: int
  device_open :: int
  device_exclusiv_open_only :: int
  timeout_open_only :: int
  soft_margin :: int
  registered_tasks_list :: "wdt_task list"
  watchdog_ticktock :: "u32 option"
  ccsr :: ccsr_gpio
  restarts :: nat
  notifier_registered :: bool
  misc_registered :: bool

definition wdt_boot :: "ccsr_gpio \<Rightarrow> wdt_state" where
  "wdt_boot g =
     \<lparr>timer_count = TIMEOUT_VALUE * HZ,
      timer_period = TRIGGER_PERIOD,
      do_hard_reset = 0,
      enabled = 1,
      device_open = 0,
      device_exclusiv_open_only = 0,
      timeout_open_only = 0,
      soft_margin = uint TIMEOUT_VALUE,
      registered_tasks_list = [],
      watchdog_ticktock = None,
      ccsr = g,
      restarts = 0,
      notifier_registered = False,
      misc_registered = False\<rparr>"

section \<open>ioctl codes\<close>

definition WDT_IOC_MAGIC :: u32 where "WDT_IOC_MAGIC = 0x77"
definition WDT_GET_STATUS :: u32 where "WDT_GET_STATUS = IOR_nr WDT_IOC_MAGIC 1 4"
definition WDT_OPEN_ONLY :: u32 where "WDT_OPEN_ONLY = IO_nr WDT_IOC_MAGIC 2"
definition WDT_ALWAYS_TIME_OUT :: u32 where "WDT_ALWAYS_TIME_OUT = IO_nr WDT_IOC_MAGIC 3"
definition WDT_ENABLE :: u32 where "WDT_ENABLE = IO_nr WDT_IOC_MAGIC 4"
definition WDT_DISABLE :: u32 where "WDT_DISABLE = IO_nr WDT_IOC_MAGIC 5"
definition WDT_REGISTER_ME :: u32 where "WDT_REGISTER_ME = IOW_nr WDT_IOC_MAGIC 6 4"
definition WDT_REMOVE_ME :: u32 where "WDT_REMOVE_ME = IOW_nr WDT_IOC_MAGIC 7 4"
definition WDT_SERVE_ME :: u32 where "WDT_SERVE_ME = IOW_nr WDT_IOC_MAGIC 8 4"
definition WDT_EXCLUSIV_OPEN_ONLY :: u32 where "WDT_EXCLUSIV_OPEN_ONLY = IO_nr WDT_IOC_MAGIC 9"
definition WDT_ALWAYS_OPEN :: u32 where "WDT_ALWAYS_OPEN = IO_nr WDT_IOC_MAGIC 10"
definition WDT_GETSUPPORT :: u32 where "WDT_GETSUPPORT = IOR_nr WDT_IOC_MAGIC 11 4"
definition IOCTL_HARDRESET :: u32 where "IOCTL_HARDRESET = IO_nr WDT_IOC_MAGIC 12"
definition WDT_IOCTL_MAXNR :: u32 where "WDT_IOCTL_MAXNR = 12"

lemmas wdt_code_defs = WDT_IOC_MAGIC_def WDT_GET_STATUS_def WDT_OPEN_ONLY_def
  WDT_ALWAYS_TIME_OUT_def WDT_ENABLE_def WDT_DISABLE_def WDT_REGISTER_ME_def WDT_REMOVE_ME_def
  WDT_SERVE_ME_def WDT_EXCLUSIV_OPEN_ONLY_def WDT_ALWAYS_OPEN_def WDT_GETSUPPORT_def
  IOCTL_HARDRESET_def WDT_IOCTL_MAXNR_def

lemma wdt_codes [simp]:
  "WDT_GET_STATUS = 0x40047701" "WDT_OPEN_ONLY = 0x20007702" "WDT_ALWAYS_TIME_OUT = 0x20007703"
  "WDT_ENABLE = 0x20007704" "WDT_DISABLE = 0x20007705" "WDT_REGISTER_ME = 0x80047706"
  "WDT_REMOVE_ME = 0x80047707" "WDT_SERVE_ME = 0x80047708" "WDT_EXCLUSIV_OPEN_ONLY = 0x20007709"
  "WDT_ALWAYS_OPEN = 0x2000770a" "WDT_GETSUPPORT = 0x4004770b" "IOCTL_HARDRESET = 0x2000770c"
  "WDT_IOC_MAGIC = 0x77" "WDT_IOCTL_MAXNR = 12"
  by (simp_all add: wdt_code_defs ioc_defs)

section \<open>File operations\<close>

definition softdog_open :: "wdt_state \<Rightarrow> int \<times> wdt_state" where
  "softdog_open s =
     (if device_open s \<noteq> 0 \<and> device_exclusiv_open_only s \<noteq> 0 then (- EBUSY, s)
      else (0, s\<lparr>device_open := device_open s + 1\<rparr>))"

definition softdog_release :: "wdt_state \<Rightarrow> int \<times> wdt_state" where
  "softdog_release s = (0, s\<lparr>device_open := device_open s - 1\<rparr>)"

definition softdog_read ::
  "user_mem \<Rightarrow> u32 \<Rightarrow> u32 \<Rightarrow> wdt_state \<Rightarrow> int \<times> wdt_state \<times> user_mem" where
  "softdog_read um data len s =
     (let rest_count = timer_count s div HZ
      in if len < 4 then (- EINVAL, s, um)
         else (4, s, snd (put_user um data rest_count)))"

definition softdog_write ::
  "bool \<Rightarrow> user_mem \<Rightarrow> u32 \<Rightarrow> u32 \<Rightarrow> wdt_state \<Rightarrow> int \<times> wdt_state" where
  "softdog_write ppos_ok um data len s =
     (if \<not> ppos_ok then (- ESPIPE, s)
      else if len \<noteq> 4 then (- EINVAL, s)
      else case copy_from_user um data 4 of
          None \<Rightarrow> (- EFAULT, s)
        | Some bs \<Rightarrow> (4, s\<lparr>timer_count := be32_at bs 0\<rparr>))"

text \<open>
  The layout of the structure a task registers with: the list links in bytes 0 to 7, then four
  words and the comment field.
\<close>

definition sizeof_task :: nat where "sizeof_task = 88"

definition task_of_bytes :: "byte list \<Rightarrow> wdt_task" where
  "task_of_bytes bs =
     \<lparr>pid = sint (be32_at bs 8),
      call_period = be32_at bs 12,
      expires = be32_at bs 16,
      last_jiffies = be32_at bs 20,
      command = take MAX_LEN (drop 24 bs)\<rparr>"

definition ioctl_serve :: "u32 \<Rightarrow> user_mem \<Rightarrow> u32 \<Rightarrow> wdt_state \<Rightarrow> int \<times> wdt_state" where
  "ioctl_serve now um arg s =
     (if arg \<noteq> 0 then
        case copy_from_user um arg 4 of
          None \<Rightarrow> (- EFAULT, s)
        | Some bs \<Rightarrow>
            (let (r, ts) = wdt_serve_task (sint (be32_at bs 0)) now (registered_tasks_list s);
                 s' = s\<lparr>registered_tasks_list := ts\<rparr>
             in if r \<noteq> 0 then (- EAGAIN, s') else (0, s'))
      else (- EINVAL, s))"

definition ioctl_register ::
  "bool \<Rightarrow> u32 \<Rightarrow> user_mem \<Rightarrow> u32 \<Rightarrow> wdt_state \<Rightarrow> int \<times> wdt_state" where
  "ioctl_register alloc_ok now um arg s =
     (if arg \<noteq> 0 then
        case copy_from_user um arg sizeof_task of
          None \<Rightarrow> (- EFAULT, s)
        | Some bs \<Rightarrow>
            (let (r, ts) = wdt_register_task alloc_ok now (task_of_bytes bs)
                             (registered_tasks_list s);
                 s' = s\<lparr>registered_tasks_list := ts\<rparr>
             in if r \<noteq> 0 then (- EAGAIN, s') else (0, s'))
      else (- EINVAL, s))"

definition ioctl_remove :: "user_mem \<Rightarrow> u32 \<Rightarrow> wdt_state \<Rightarrow> int \<times> wdt_state" where
  "ioctl_remove um arg s =
     (if arg \<noteq> 0 then
        case copy_from_user um arg 4 of
          None \<Rightarrow> (- EFAULT, s)
        | Some bs \<Rightarrow>
            (let (r, ts) = wdt_unregister_task (sint (be32_at bs 0)) (registered_tasks_list s);
                 s' = s\<lparr>registered_tasks_list := ts\<rparr>
             in if r \<noteq> 0 then (- ENXIO, s') else (0, s'))
      else (0, s))"

definition ioctl_enable :: "u32 \<Rightarrow> wdt_state \<Rightarrow> int \<times> wdt_state" where
  "ioctl_enable now s =
     (if enabled s \<noteq> 1 then
        (let (r, ts) = serve_all_tasks now (registered_tasks_list s);
             s' = s\<lparr>registered_tasks_list := ts\<rparr>
         in if r = 0 then (0, s'\<lparr>enabled := 1\<rparr>) else (- EFAULT, s'\<lparr>enabled := 0\<rparr>))
      else (0, s))"

text \<open>\<open>struct watchdog_info\<close>: two words and 32 characters, "Software Watchdog".\<close>

definition ident :: "byte list" where
  "ident = replicate 8 0 @
     [83, 111, 102, 116, 119, 97, 114, 101, 32, 87, 97, 116, 99, 104, 100, 111, 103] @
     replicate 15 0"

definition softdog_ioctl ::
  "bool \<Rightarrow> u32 \<Rightarrow> user_mem \<Rightarrow> u32 \<Rightarrow> u32 \<Rightarrow> wdt_state \<Rightarrow> (int \<times> wdt_state) \<times> user_mem" where
  "softdog_ioctl alloc_ok now um cmd arg s =
     (if IOC_TYPE cmd \<noteq> WDT_IOC_MAGIC then ((- ENOTTY, s), um)
      else if WDT_IOCTL_MAXNR < IOC_NR cmd then ((- ENOTTY, s), um)
      else if cmd = WDT_SERVE_ME then (ioctl_serve now um arg s, um)
      else if cmd = WDT_REGISTER_ME then (ioctl_register alloc_ok now um arg s, um)
      else if cmd = WDT_REMOVE_ME then (ioctl_remove um arg s, um)
      else if cmd = WDT_OPEN_ONLY then ((0, s\<lparr>timeout_open_only := 1\<rparr>), um)
      else if cmd = WDT_ALWAYS_TIME_OUT then ((0, s\<lparr>timeout_open_only := 0\<rparr>), um)
      else if cmd = WDT_EXCLUSIV_OPEN_ONLY then ((0, s\<lparr>device_exclusiv_open_only := 1\<rparr>), um)
      else if cmd = WDT_ALWAYS_OPEN then ((0, s\<lparr>device_exclusiv_open_only := 0\<rparr>), um)
      else if cmd = WDT_ENABLE then (ioctl_enable now s, um)
      else if cmd = WDT_DISABLE then ((0, s\<lparr>enabled := 0\<rparr>), um)
      else if cmd = WDT_GETSUPPORT then
        (let (done, um') = copy_to_user um arg ident
         in ((if done then 0 else - EFAULT, s), um'))
      else if cmd = WDT_GET_STATUS then
        (let (r, um') = put_user um arg 0 in ((r, s), um'))
      else if cmd = IOCTL_HARDRESET then ((0, s\<lparr>do_hard_reset := 1\<rparr>), um)
      else ((- ENOIOCTLCMD, s), um))"

section \<open>The timer routine\<close>

definition watchdog_fire :: "gpio_rd \<Rightarrow> u32 \<Rightarrow> wdt_state \<Rightarrow> wdt_state" where
  "watchdog_fire rdat now s =
     (let s = (if timer_count s = 0 \<and> enabled s \<noteq> 0
               then s\<lparr>restarts := restarts s + 1\<rparr> else s)
      in if 0 < timer_count s \<or> enabled s = 0 then
           (let s = (if do_hard_reset s = 0 then s\<lparr>ccsr := serve_watchdog_hw rdat (ccsr s)\<rparr>
                     else s);
                s = s\<lparr>watchdog_ticktock := Some (now + timer_period s)\<rparr>
            in if enabled s = 0 then s
               else if timeout_open_only s \<noteq> 0 \<and> device_open s = 0 then s
               else
                 (let (r, ts) = check_registered_tasks now (registered_tasks_list s);
                      s = s\<lparr>registered_tasks_list := ts\<rparr>
                  in if r = 0 then s\<lparr>timer_count := TIMEOUT_VALUE * HZ\<rparr>
                     else if timer_period s < timer_count s
                     then s\<lparr>timer_count := timer_count s - timer_period s\<rparr>
                     else s\<lparr>timer_count := 0\<rparr>))
         else s)"

section \<open>Module entry points\<close>

definition WDT_OK :: int where "WDT_OK = 0"

definition wdt_proc_init :: "wdt_state \<Rightarrow> int \<times> wdt_state" where
  "wdt_proc_init s = (WDT_OK, s)"

definition wdt_proc_cleanup :: "wdt_state \<Rightarrow> wdt_state" where
  "wdt_proc_cleanup s = s"

text \<open>The results of the two registrations with the kernel are the arguments \<open>rn\<close> and \<open>rm\<close>.\<close>

definition watchdog_init ::
  "gpio_rd \<Rightarrow> int \<Rightarrow> int \<Rightarrow> u32 \<Rightarrow> wdt_state \<Rightarrow> int \<times> wdt_state" where
  "watchdog_init rdat rn rm now s =
     (if rn \<noteq> 0 then (rn, s)
      else
        (let s = s\<lparr>notifier_registered := True\<rparr>
         in if rm \<noteq> 0 then (rm, s\<lparr>notifier_registered := False\<rparr>)
            else
              (let s = s\<lparr>misc_registered := True\<rparr>;
                   (rp, s) = wdt_proc_init s
               in if rp \<noteq> 0 then (rp, s)
                  else
                    (let s = s\<lparr>ccsr := hardware_init rdat (ccsr s)\<rparr>;
                         s = s\<lparr>watchdog_ticktock := None\<rparr>
                     in (0, s\<lparr>watchdog_ticktock := Some (now + TRIGGER_PERIOD)\<rparr>)))))"

definition watchdog_cleanup :: "gpio_rd \<Rightarrow> wdt_state \<Rightarrow> wdt_state" where
  "watchdog_cleanup rdat s =
     (let (n, ts) = wdt_cleanup_tasklist (registered_tasks_list s);
          s = s\<lparr>registered_tasks_list := ts\<rparr>;
          s = s\<lparr>watchdog_ticktock := None\<rparr>;
          s = s\<lparr>misc_registered := False\<rparr>;
          s = s\<lparr>notifier_registered := False\<rparr>;
          s = wdt_proc_cleanup s;
          s = s\<lparr>ccsr := slow_down_watchdog_hw rdat (ccsr s)\<rparr>
      in s\<lparr>ccsr := hardware_clean (ccsr s)\<rparr>)"

section \<open>The driver as a state machine\<close>

datatype wdt_event =
    Ev_Open
  | Ev_Release
  | Ev_Read user_mem u32 u32
  | Ev_Write bool user_mem u32 u32
  | Ev_Ioctl bool u32 user_mem u32 u32
  | Ev_Fire u32

fun wdt_handle :: "gpio_rd \<Rightarrow> wdt_event \<Rightarrow> wdt_state \<Rightarrow> int \<times> wdt_state" where
  "wdt_handle rdat Ev_Open s = softdog_open s"
| "wdt_handle rdat Ev_Release s = softdog_release s"
| "wdt_handle rdat (Ev_Read um data len) s = (let (r, s', um') = softdog_read um data len s in (r, s'))"
| "wdt_handle rdat (Ev_Write p um data len) s = softdog_write p um data len s"
| "wdt_handle rdat (Ev_Ioctl a now um cmd arg) s = fst (softdog_ioctl a now um cmd arg s)"
| "wdt_handle rdat (Ev_Fire now) s =
     (0, watchdog_fire rdat now (s\<lparr>watchdog_ticktock := None\<rparr>))"

text \<open>
  The kernel releases only what was opened, and the timer routine runs only when the timer is
  pending and its time has come.
\<close>

fun wdt_can :: "wdt_event \<Rightarrow> wdt_state \<Rightarrow> bool" where
  "wdt_can Ev_Release s \<longleftrightarrow> 0 < device_open s"
| "wdt_can (Ev_Fire now) s \<longleftrightarrow>
     (case watchdog_ticktock s of None \<Rightarrow> False | Some e \<Rightarrow> 0 \<le> sint (now - e))"
| "wdt_can _ s \<longleftrightarrow> True"

inductive wdt_step :: "gpio_rd \<Rightarrow> wdt_state \<Rightarrow> wdt_state \<Rightarrow> bool" for rdat where
  step: "wdt_can ev s \<Longrightarrow> t = snd (wdt_handle rdat ev s) \<Longrightarrow> wdt_step rdat s t"

inductive_cases wdt_stepE: "wdt_step rdat s t"

inductive wdt_start :: "gpio_rd \<Rightarrow> wdt_state \<Rightarrow> bool" for rdat where
  start: "s = snd (watchdog_init rdat 0 0 now (wdt_boot g)) \<Longrightarrow> wdt_start rdat s"

inductive_cases wdt_startE: "wdt_start rdat s"

end
