(* ===== verification/Watchdog_Proofs.thy ===== *)
theory Watchdog_Proofs
  imports Watchdog
begin

text \<open>
  What the watchdog driver guarantees: the invariant of its reachable states, when the timer
  routine reboots the system and when it does not, what a hung task leads to, what the hard-reset
  request does to the external chip, and where the comparison of times goes wrong when the tick
  counter wraps.
\<close>

section \<open>The invariant\<close>

definition wdt_inv :: "wdt_state \<Rightarrow> bool" where
  "wdt_inv s \<longleftrightarrow>
     tasks_inv (registered_tasks_list s) \<and> 0 \<le> device_open s \<and>
     timer_period s = TRIGGER_PERIOD \<and>
     (watchdog_ticktock s = None \<longrightarrow> 0 < restarts s)"

lemma length_command_task_of_bytes:
  "length bs = sizeof_task \<Longrightarrow> length (command (task_of_bytes bs)) = MAX_LEN"
  by (simp add: task_of_bytes_def sizeof_task_def MAX_LEN_def)

lemma tasks_inv_register:
  "tasks_inv ts \<Longrightarrow> length (command t) = MAX_LEN \<Longrightarrow>
     tasks_inv (snd (wdt_register_task a now t ts))"
  using tasks_inv_run_op [of ts "Register a now t"] by simp

lemma tasks_inv_unregister: "tasks_inv ts \<Longrightarrow> tasks_inv (snd (wdt_unregister_task p ts))"
  using tasks_inv_run_op [of ts "Unregister p"] by simp

lemma tasks_inv_serve: "tasks_inv ts \<Longrightarrow> tasks_inv (snd (wdt_serve_task p now ts))"
  using tasks_inv_run_op [of ts "Serve p now"] by simp

lemma tasks_inv_serve_all: "tasks_inv ts \<Longrightarrow> tasks_inv (map (serve_entry now) ts)"
  using tasks_inv_run_op [of ts "Serve_All now"] by (simp add: serve_all_tasks_def)

lemma tasks_inv_check: "tasks_inv ts \<Longrightarrow> tasks_inv (snd (check_registered_tasks now ts))"
  using check_loop_cases [of now ts ts] tasks_inv_serve_all [of ts now]
  by (auto simp: check_registered_tasks_def)

lemmas wdt_tasks_inv = tasks_inv_register tasks_inv_unregister tasks_inv_serve
  tasks_inv_serve_all tasks_inv_check

text \<open>The parts of the state an ioctl leaves alone.\<close>

definition same_timer :: "wdt_state \<Rightarrow> wdt_state \<Rightarrow> bool" where
  "same_timer s t \<longleftrightarrow>
     timer_count t = timer_count s \<and> timer_period t = timer_period s \<and>
     watchdog_ticktock t = watchdog_ticktock s \<and> restarts t = restarts s \<and>
     ccsr t = ccsr s \<and> device_open t = device_open s"

lemma same_timer_refl [simp]: "same_timer s s"
  by (simp add: same_timer_def)

text \<open>The three table operations change the list of tasks only.\<close>

lemma ioctl_serve_shape:
  "\<exists>r ts. ioctl_serve now um arg s = (r, s\<lparr>registered_tasks_list := ts\<rparr>) \<and>
     (tasks_inv (registered_tasks_list s) \<longrightarrow> tasks_inv ts)"
proof (cases "arg = 0 \<or> copy_from_user um arg 4 = None")
  case True
  then have "ioctl_serve now um arg s =
      (if arg = 0 then - EINVAL else - EFAULT,
       s\<lparr>registered_tasks_list := registered_tasks_list s\<rparr>)"
    by (auto simp: ioctl_serve_def)
  then show ?thesis by blast
next
  case False
  then obtain bs where bs: "arg \<noteq> 0" "copy_from_user um arg 4 = Some bs" by auto
  obtain r ts where e: "wdt_serve_task (sint (be32_at bs 0)) now (registered_tasks_list s) = (r, ts)"
    by fastforce
  show ?thesis
    using bs e tasks_inv_serve [of "registered_tasks_list s" "sint (be32_at bs 0)" now]
    by (intro exI [of _ "if r \<noteq> 0 then - EAGAIN else 0"] exI [of _ ts])
       (simp add: ioctl_serve_def Let_def)
qed

lemma ioctl_register_shape:
  "\<exists>r ts. ioctl_register a now um arg s = (r, s\<lparr>registered_tasks_list := ts\<rparr>) \<and>
     (tasks_inv (registered_tasks_list s) \<longrightarrow> tasks_inv ts)"
proof (cases "arg = 0 \<or> copy_from_user um arg sizeof_task = None")
  case True
  then have "ioctl_register a now um arg s =
      (if arg = 0 then - EINVAL else - EFAULT,
       s\<lparr>registered_tasks_list := registered_tasks_list s\<rparr>)"
    by (auto simp: ioctl_register_def)
  then show ?thesis by blast
next
  case False
  then obtain bs where bs: "arg \<noteq> 0" "copy_from_user um arg sizeof_task = Some bs" by auto
  obtain r ts where e: "wdt_register_task a now (task_of_bytes bs) (registered_tasks_list s) = (r, ts)"
    by fastforce
  have "length (command (task_of_bytes bs)) = MAX_LEN"
    using bs length_copy_from_user length_command_task_of_bytes by blast
  then show ?thesis
    using bs e tasks_inv_register [of "registered_tasks_list s" "task_of_bytes bs" a now]
    by (intro exI [of _ "if r \<noteq> 0 then - EAGAIN else 0"] exI [of _ ts])
       (simp add: ioctl_register_def Let_def)
qed

lemma ioctl_remove_shape:
  "\<exists>r ts. ioctl_remove um arg s = (r, s\<lparr>registered_tasks_list := ts\<rparr>) \<and>
     (tasks_inv (registered_tasks_list s) \<longrightarrow> tasks_inv ts)"
proof (cases "arg = 0 \<or> copy_from_user um arg 4 = None")
  case True
  then have "ioctl_remove um arg s =
      (if arg = 0 then 0 else - EFAULT,
       s\<lparr>registered_tasks_list := registered_tasks_list s\<rparr>)"
    by (auto simp: ioctl_remove_def)
  then show ?thesis by blast
next
  case False
  then obtain bs where bs: "arg \<noteq> 0" "copy_from_user um arg 4 = Some bs" by auto
  obtain r ts where e: "wdt_unregister_task (sint (be32_at bs 0)) (registered_tasks_list s) = (r, ts)"
    by fastforce
  show ?thesis
    using bs e tasks_inv_unregister [of "registered_tasks_list s" "sint (be32_at bs 0)"]
    by (intro exI [of _ "if r \<noteq> 0 then - ENXIO else 0"] exI [of _ ts])
       (simp add: ioctl_remove_def Let_def)
qed

lemma same_timer_ioctl_parts:
  "same_timer s (snd (ioctl_serve now um arg s))"
  "same_timer s (snd (ioctl_register a now um arg s))"
  "same_timer s (snd (ioctl_remove um arg s))"
  "same_timer s (snd (ioctl_enable now s))"
  using ioctl_serve_shape [of now um arg s] ioctl_register_shape [of a now um arg s]
    ioctl_remove_shape [of um arg s]
  by (auto simp: same_timer_def ioctl_enable_def serve_all_tasks_def)

lemma hard_reset_ioctl_parts:
  "do_hard_reset (snd (ioctl_serve now um arg s)) = do_hard_reset s"
  "do_hard_reset (snd (ioctl_register a now um arg s)) = do_hard_reset s"
  "do_hard_reset (snd (ioctl_remove um arg s)) = do_hard_reset s"
  "do_hard_reset (snd (ioctl_enable now s)) = do_hard_reset s"
  using ioctl_serve_shape [of now um arg s] ioctl_register_shape [of a now um arg s]
    ioctl_remove_shape [of um arg s]
  by (auto simp: ioctl_enable_def serve_all_tasks_def)

lemma tasks_inv_ioctl_parts:
  assumes "tasks_inv (registered_tasks_list s)"
  shows "tasks_inv (registered_tasks_list (snd (ioctl_serve now um arg s)))"
    and "tasks_inv (registered_tasks_list (snd (ioctl_register a now um arg s)))"
    and "tasks_inv (registered_tasks_list (snd (ioctl_remove um arg s)))"
    and "tasks_inv (registered_tasks_list (snd (ioctl_enable now s)))"
  using ioctl_serve_shape [of now um arg s] ioctl_register_shape [of a now um arg s]
    ioctl_remove_shape [of um arg s] tasks_inv_serve_all [OF assms, of now] assms
  by (auto simp: ioctl_enable_def serve_all_tasks_def)

text \<open>Every ioctl has one of nine effects.\<close>

lemma softdog_ioctl_effect:
  assumes "\<And>r. P (r, s)"
    and "P (ioctl_serve now um arg s)"
    and "P (ioctl_register a now um arg s)"
    and "P (ioctl_remove um arg s)"
    and "P (ioctl_enable now s)"
    and "\<And>v. P (0, s\<lparr>timeout_open_only := v\<rparr>)"
    and "\<And>v. P (0, s\<lparr>device_exclusiv_open_only := v\<rparr>)"
    and "P (0, s\<lparr>enabled := 0\<rparr>)"
    and "P (0, s\<lparr>do_hard_reset := 1\<rparr>)"
  shows "P (fst (softdog_ioctl a now um cmd arg s))"
  unfolding softdog_ioctl_def Let_def split_beta by (simp add: assms)

lemma same_timer_ioctl: "same_timer s (snd (fst (softdog_ioctl a now um cmd arg s)))"
  by (rule softdog_ioctl_effect [where P = "\<lambda>x. same_timer s (snd x)"])
     (simp_all only: same_timer_ioctl_parts, simp_all add: same_timer_def)

lemma tasks_inv_ioctl:
  "tasks_inv (registered_tasks_list s) \<Longrightarrow>
     tasks_inv (registered_tasks_list (snd (fst (softdog_ioctl a now um cmd arg s))))"
  by (rule softdog_ioctl_effect [where P = "\<lambda>x. tasks_inv (registered_tasks_list (snd x))"])
     (simp_all add: tasks_inv_ioctl_parts)

lemma hard_reset_ioctl:
  "do_hard_reset s \<noteq> 0 \<Longrightarrow> do_hard_reset (snd (fst (softdog_ioctl a now um cmd arg s))) \<noteq> 0"
  by (rule softdog_ioctl_effect [where P = "\<lambda>x. do_hard_reset (snd x) \<noteq> 0"])
     (simp_all add: hard_reset_ioctl_parts)

section \<open>The timer routine, case by case\<close>

lemma fire_expired:
  "timer_count s = 0 \<Longrightarrow> enabled s \<noteq> 0 \<Longrightarrow>
     watchdog_fire rdat now s = s\<lparr>restarts := restarts s + 1\<rparr>"
  by (simp add: watchdog_fire_def)

text \<open>What the routine does first whenever it does not reboot: kick the chip, restart the timer.\<close>

definition rearmed :: "gpio_rd \<Rightarrow> u32 \<Rightarrow> wdt_state \<Rightarrow> wdt_state" where
  "rearmed rdat now s =
     s\<lparr>ccsr := (if do_hard_reset s = 0 then serve_watchdog_hw rdat (ccsr s) else ccsr s),
       watchdog_ticktock := Some (now + timer_period s)\<rparr>"

definition supervising :: "wdt_state \<Rightarrow> bool" where
  "supervising s \<longleftrightarrow> enabled s \<noteq> 0 \<and> (timeout_open_only s = 0 \<or> device_open s \<noteq> 0)"

lemma fire_idle:
  assumes "\<not> supervising s" "0 < timer_count s \<or> enabled s = 0"
  shows "watchdog_fire rdat now s = rearmed rdat now s"
proof (cases "enabled s = 0")
  case True
  then show ?thesis
    by (cases "do_hard_reset s = 0") (simp_all add: watchdog_fire_def rearmed_def Let_def)
next
  case False
  then have "timer_count s \<noteq> 0" "timeout_open_only s \<noteq> 0" "device_open s = 0"
    using assms by (auto simp: supervising_def)
  with False show ?thesis
    by (cases "do_hard_reset s = 0")
       (simp_all add: watchdog_fire_def rearmed_def Let_def word_gt_0)
qed

lemma fire_checked:
  assumes "supervising s" "0 < timer_count s"
  shows "watchdog_fire rdat now s =
       (rearmed rdat now s)
         \<lparr>registered_tasks_list := snd (check_registered_tasks now (registered_tasks_list s)),
          timer_count :=
            if fst (check_registered_tasks now (registered_tasks_list s)) = 0 then 5000
            else if timer_period s < timer_count s then timer_count s - timer_period s
            else 0\<rparr>"
proof -
  obtain r ts where c: "check_registered_tasks now (registered_tasks_list s) = (r, ts)"
    by fastforce
  have e: "enabled s \<noteq> 0" "timer_count s \<noteq> 0"
    and o: "(timeout_open_only s \<noteq> 0 \<and> device_open s = 0) = False"
    using assms by (auto simp: supervising_def)
  show ?thesis
    using e
    by (cases "do_hard_reset s = 0"; cases "r = 0"; cases "timer_period s < timer_count s")
       (simp_all add: watchdog_fire_def rearmed_def c o Let_def word_gt_0 del: de_Morgan_conj)
qed

lemma fire_cases:
  obtains (reboot) "timer_count s = 0" "enabled s \<noteq> 0"
  | (idle) "\<not> supervising s" "0 < timer_count s \<or> enabled s = 0"
  | (checked) "supervising s" "0 < timer_count s"
  by (auto simp: supervising_def word_gt_0)

lemmas fire_simps = fire_expired fire_idle fire_checked

lemma fire_restarts:
  "restarts (watchdog_fire rdat now s) =
     restarts s + (if timer_count s = 0 \<and> enabled s \<noteq> 0 then 1 else 0)"
  by (rule fire_cases [of s]) (auto simp: fire_simps rearmed_def supervising_def)

lemma fire_keeps:
  "enabled (watchdog_fire rdat now s) = enabled s"
  "device_open (watchdog_fire rdat now s) = device_open s"
  "timeout_open_only (watchdog_fire rdat now s) = timeout_open_only s"
  "timer_period (watchdog_fire rdat now s) = timer_period s"
  "do_hard_reset (watchdog_fire rdat now s) = do_hard_reset s"
  by (rule fire_cases [of s]; simp add: fire_simps rearmed_def)+

lemma fire_ticktock:
  "timer_count s \<noteq> 0 \<or> enabled s = 0 \<Longrightarrow>
     watchdog_ticktock (watchdog_fire rdat now s) = Some (now + timer_period s)"
  by (rule fire_cases [of s]) (auto simp: fire_simps rearmed_def)

lemma fire_tasks_inv:
  "tasks_inv (registered_tasks_list s) \<Longrightarrow>
     tasks_inv (registered_tasks_list (watchdog_fire rdat now s))"
  by (rule fire_cases [of s]) (auto simp: fire_simps rearmed_def tasks_inv_check)

lemma wdt_inv_fire:
  "wdt_inv s \<Longrightarrow> wdt_inv (watchdog_fire rdat now (s\<lparr>watchdog_ticktock := None\<rparr>))"
proof -
  assume i: "wdt_inv s"
  let ?t = "watchdog_fire rdat now (s\<lparr>watchdog_ticktock := None\<rparr>)"
  have "watchdog_ticktock ?t = None \<Longrightarrow> 0 < restarts ?t"
    using fire_ticktock [of "s\<lparr>watchdog_ticktock := None\<rparr>" rdat now]
    by (auto simp: fire_restarts)
  then show ?thesis
    using i by (simp add: wdt_inv_def fire_keeps fire_tasks_inv)
qed

lemma wdt_inv_handle:
  assumes i: "wdt_inv s" and c: "wdt_can ev s"
  shows "wdt_inv (snd (wdt_handle rdat ev s))"
proof (cases ev)
  case (Ev_Ioctl a now um cmd arg)
  then show ?thesis
    using i same_timer_ioctl [of s a now um cmd arg] tasks_inv_ioctl [of s a now um cmd arg]
    by (simp add: wdt_inv_def same_timer_def)
next
  case (Ev_Fire now)
  then show ?thesis using wdt_inv_fire [OF i] by simp
qed (use i c in \<open>auto simp: wdt_inv_def softdog_open_def softdog_release_def softdog_read_def
       softdog_write_def Let_def split: option.splits\<close>)

lemma wdt_inv_start: "wdt_start rdat s \<Longrightarrow> wdt_inv s"
  by (auto elim!: wdt_startE
      simp: watchdog_init_def wdt_boot_def wdt_proc_init_def WDT_OK_def wdt_inv_def tasks_inv_def)

interpretation wdt: invariant_system "wdt_start rdat" "wdt_step rdat" wdt_inv for rdat
  by unfold_locales (auto elim!: wdt_stepE intro: wdt_inv_start wdt_inv_handle)



section \<open>Reboots\<close>

text \<open>
  C2. The timer routine requests a restart exactly when the count has reached zero and supervision
  is enabled; in every other case it restarts its own timer one period ahead and, unless a hard
  reset was requested, drives exactly one low-to-high pulse on the pin of the external watchdog.
\<close>

theorem fire_restart_or_kick:
  "if timer_count s = 0 \<and> enabled s \<noteq> 0
   then watchdog_fire rdat now s = s\<lparr>restarts := restarts s + 1\<rparr>
   else restarts (watchdog_fire rdat now s) = restarts s \<and>
     watchdog_ticktock (watchdog_fire rdat now s) = Some (now + timer_period s) \<and>
     (if do_hard_reset s = 0
      then \<exists>v w. gplog (ccsr (watchdog_fire rdat now s)) = gplog (ccsr s) @ [v, w] \<and>
             \<not> bit v 30 \<and> bit w 30
      else ccsr (watchdog_fire rdat now s) = ccsr s)"
proof (cases "timer_count s = 0 \<and> enabled s \<noteq> 0")
  case True
  then show ?thesis by (simp add: fire_expired)
next
  case False
  have "ccsr (watchdog_fire rdat now s) =
      (if do_hard_reset s = 0 then serve_watchdog_hw rdat (ccsr s) else ccsr s)"
  proof (cases s rule: fire_cases)
    case reboot
    with False show ?thesis by simp
  qed (simp_all add: fire_idle fire_checked rearmed_def)
  moreover have "watchdog_ticktock (watchdog_fire rdat now s) = Some (now + timer_period s)"
    using False by (intro fire_ticktock) simp
  ultimately show ?thesis
    using gplog_serve_watchdog_hw [of rdat "ccsr s"] False by (simp add: fire_restarts) blast
qed

text \<open>The time comparison, in terms of unbounded arithmetic.\<close>

definition alive :: "u32 \<Rightarrow> wdt_task \<Rightarrow> bool" where
  "alive now t \<longleftrightarrow>
     unat (last_jiffies t) \<le> unat now \<and>
     unat now < unat (last_jiffies t) + unat (call_period t) \<and>
     unat (last_jiffies t) + unat (call_period t) < 2 ^ 32"

definition overdue :: "u32 \<Rightarrow> wdt_task \<Rightarrow> bool" where
  "overdue now t \<longleftrightarrow> unat (last_jiffies t) + unat (call_period t) \<le> unat now"

definition expiry_wrapped :: "wdt_task \<Rightarrow> bool" where
  "expiry_wrapped t \<longleftrightarrow> 2 ^ 32 \<le> unat (last_jiffies t) + unat (call_period t)"

lemma unat_expires:
  "task_ok t \<Longrightarrow>
     unat (expires t) =
       (if expiry_wrapped t then unat (last_jiffies t) + unat (call_period t) - 2 ^ 32
        else unat (last_jiffies t) + unat (call_period t))"
  by (auto simp: task_ok_def expiry_wrapped_def unat_plus_if')

lemma alive_expires: "task_ok t \<Longrightarrow> alive now t \<Longrightarrow> now < expires t"
  by (simp add: word_less_nat_alt unat_expires alive_def expiry_wrapped_def)

lemma overdue_expires: "task_ok t \<Longrightarrow> overdue now t \<Longrightarrow> expires t \<le> now"
  using unsigned_less [of now, where ?'a = nat]
  by (auto simp: word_le_nat_alt unat_expires overdue_def expiry_wrapped_def)

lemma wrapped_expires:
  "task_ok t \<Longrightarrow> expiry_wrapped t \<Longrightarrow> last_jiffies t < now \<Longrightarrow> expires t \<le> now"
  using unsigned_less [of "call_period t", where ?'a = nat]
  by (simp add: word_le_nat_alt word_less_nat_alt unat_expires)

lemma check_all_alive:
  "\<forall>t \<in> set ts. now < expires t \<Longrightarrow> check_registered_tasks now ts = (0, ts)"
  using check_loop_cases [of now ts ts] by (auto simp: check_registered_tasks_def)

lemma check_alarm:
  "\<forall>t \<in> set ts. last_jiffies t < now \<Longrightarrow> \<exists>t \<in> set ts. expires t \<le> now \<Longrightarrow>
     check_registered_tasks now ts = (- EFAULT, ts)"
  using check_loop_cases [of now ts ts] by (auto simp: check_registered_tasks_def)

text \<open>
  C17. As long as the tick counter does not wrap between a sign of life and the expiry it sets, the
  check finds every task in time exactly when each has given a sign of life less than its call
  period ago; otherwise it reports a bad address, and it leaves the list as it is in both cases.
\<close>

theorem check_registered_tasks_correct:
  assumes "tasks_inv ts"
    and "\<forall>t \<in> set ts. last_jiffies t \<le> now \<and> 0 < call_period t \<and> \<not> expiry_wrapped t"
  shows "check_registered_tasks now ts =
    (if \<forall>t \<in> set ts. unat now - unat (last_jiffies t) < unat (call_period t)
     then (0, ts) else (- EFAULT, ts))"
proof (cases "\<forall>t \<in> set ts. unat now - unat (last_jiffies t) < unat (call_period t)")
  case True
  then have "\<forall>t \<in> set ts. now < expires t"
    using assms by (auto simp: word_less_nat_alt unat_expires tasks_inv_def word_le_nat_alt)
  then show ?thesis using True by (simp add: check_all_alive)
next
  case False
  then obtain t where t: "t \<in> set ts" "unat (call_period t) \<le> unat now - unat (last_jiffies t)"
    by (auto simp: not_less)
  have "expires t \<le> now"
    using t assms by (auto simp: word_le_nat_alt unat_expires tasks_inv_def)
  moreover have "\<not> (expires u \<le> now \<and> now \<le> last_jiffies u)" if "u \<in> set ts" for u
    using that assms by (auto simp: word_le_nat_alt word_less_nat_alt unat_expires tasks_inv_def)
  ultimately show ?thesis
    using check_loop_cases [of now ts ts] t(1) False
    by (auto simp: check_registered_tasks_def)
qed

definition demo_task :: "int \<Rightarrow> u32 \<Rightarrow> u32 \<Rightarrow> wdt_task" where
  "demo_task p c l =
     \<lparr>pid = p, call_period = c, expires = c + l, last_jiffies = l, command = replicate 64 0\<rparr>"

lemma task_ok_demo [simp]: "task_ok (demo_task p c l)"
  by (simp add: task_ok_def demo_task_def MAX_LEN_def)

lemma demo_task_sel [simp]:
  "pid (demo_task p c l) = p" "call_period (demo_task p c l) = c"
  "last_jiffies (demo_task p c l) = l"
  by (simp_all add: demo_task_def)

theorem check_registered_tasks_correct_witness:
  "check_registered_tasks 900 [demo_task 7 1000 100, demo_task 8 500 100] =
     (- EFAULT, [demo_task 7 1000 100, demo_task 8 500 100])"
  using check_registered_tasks_correct [of "[demo_task 7 1000 100, demo_task 8 500 100]" 900]
  by (simp add: tasks_inv_def expiry_wrapped_def)

section \<open>Runs of the driver\<close>

fun fires :: "wdt_event list \<Rightarrow> nat" where
  "fires [] = 0"
| "fires (Ev_Fire now # evs) = Suc (fires evs)"
| "fires (_ # evs) = fires evs"

text \<open>
  A run in which tasks come, go and give signs of life while the timer fires, and in which \<open>P\<close>
  holds of the time and the task list at every firing.
\<close>

fun task_run :: "(u32 \<Rightarrow> wdt_task list \<Rightarrow> bool) \<Rightarrow> gpio_rd \<Rightarrow> wdt_event list \<Rightarrow> wdt_state \<Rightarrow> bool"
where
  "task_run P rdat [] s \<longleftrightarrow> True"
| "task_run P rdat (ev # evs) s \<longleftrightarrow>
     (case ev of
        Ev_Fire now \<Rightarrow> P now (registered_tasks_list s)
      | Ev_Ioctl a now um cmd arg \<Rightarrow> cmd \<in> {WDT_SERVE_ME, WDT_REGISTER_ME, WDT_REMOVE_ME}
      | _ \<Rightarrow> False) \<and>
     task_run P rdat evs (snd (wdt_handle rdat ev s))"

definition wdt_run :: "gpio_rd \<Rightarrow> wdt_event list \<Rightarrow> wdt_state \<Rightarrow> wdt_state" where
  "wdt_run rdat evs s = snd (run_list (wdt_handle rdat) evs s)"

lemma wdt_run_simps [simp]:
  "wdt_run rdat [] s = s"
  "wdt_run rdat (ev # evs) s = wdt_run rdat evs (snd (wdt_handle rdat ev s))"
  by (simp_all add: wdt_run_def split: prod.splits)

lemma tasks_inv_handle:
  "tasks_inv (registered_tasks_list s) \<Longrightarrow>
     tasks_inv (registered_tasks_list (snd (wdt_handle rdat ev s)))"
  by (cases ev)
     (auto simp: tasks_inv_ioctl fire_tasks_inv softdog_open_def softdog_release_def
       softdog_read_def softdog_write_def Let_def split: option.splits)

lemma task_run_mono:
  assumes "task_run P rdat evs s" "tasks_inv (registered_tasks_list s)"
    and "\<And>now ts. tasks_inv ts \<Longrightarrow> P now ts \<Longrightarrow> Q now ts"
  shows "task_run Q rdat evs s"
  using assms(1,2)
proof (induction evs arbitrary: s)
  case (Cons ev evs)
  have "task_run Q rdat evs (snd (wdt_handle rdat ev s))"
    using Cons.IH [OF _ tasks_inv_handle] Cons.prems by simp
  then show ?case
    using Cons.prems assms(3) [of "registered_tasks_list s"] by (simp split: wdt_event.splits)
qed simp

text \<open>A table ioctl keeps everything but the list.\<close>

lemma softdog_ioctl_tasks:
  "softdog_ioctl a now um WDT_SERVE_ME arg s = (ioctl_serve now um arg s, um)"
  "softdog_ioctl a now um WDT_REGISTER_ME arg s = (ioctl_register a now um arg s, um)"
  "softdog_ioctl a now um WDT_REMOVE_ME arg s = (ioctl_remove um arg s, um)"
  by (simp_all add: softdog_ioctl_def IOC_TYPE_def IOC_NR_def)

lemma task_ioctl_shape:
  assumes "cmd \<in> {WDT_SERVE_ME, WDT_REGISTER_ME, WDT_REMOVE_ME}"
  shows "\<exists>ts. snd (fst (softdog_ioctl a now um cmd arg s)) = s\<lparr>registered_tasks_list := ts\<rparr>"
proof -
  consider "cmd = WDT_SERVE_ME" | "cmd = WDT_REGISTER_ME" | "cmd = WDT_REMOVE_ME"
    using assms by blast
  then show ?thesis
  proof cases
    case 1
    then show ?thesis
      unfolding 1 softdog_ioctl_tasks using ioctl_serve_shape [of now um arg s] by fastforce
  next
    case 2
    then show ?thesis
      unfolding 2 softdog_ioctl_tasks using ioctl_register_shape [of a now um arg s] by fastforce
  next
    case 3
    then show ?thesis
      unfolding 3 softdog_ioctl_tasks using ioctl_remove_shape [of um arg s] by fastforce
  qed
qed

definition alarming :: "u32 \<Rightarrow> wdt_task list \<Rightarrow> bool" where
  "alarming now ts \<longleftrightarrow> fst (check_registered_tasks now ts) \<noteq> 0"

definition fires_to_zero :: "wdt_state \<Rightarrow> nat" where
  "fires_to_zero s =
     (unat (timer_count s) + unat (timer_period s) - 1) div unat (timer_period s)"

lemma div_up_Suc:
  fixes c p :: nat
  assumes "0 < c" "0 < p"
  shows "(c + p - 1) div p = Suc ((c - p + p - 1) div p)"
proof (cases "c \<le> p")
  case True
  then have "(c + p - 1) div p = 1"
    using assms by (intro div_nat_eqI) auto
  then show ?thesis using True assms by simp
next
  case False
  have "c + p - 1 = c - 1 + p" "c - p + p - 1 = c - 1"
    using assms False by simp_all
  then show ?thesis using assms by (simp only: div_add_self2)
qed

lemma alarm_fire:
  fixes rdat :: gpio_rd
  assumes "supervising s" "alarming now (registered_tasks_list s)" "0 < timer_period s"
  defines "t \<equiv> watchdog_fire rdat now (s\<lparr>watchdog_ticktock := None\<rparr>)"
  shows "supervising t" "timer_period t = timer_period s"
    and "unat (timer_count t) = unat (timer_count s) - unat (timer_period s)"
    and "restarts t = restarts s + (if timer_count s = 0 then 1 else 0)"
    and "fires_to_zero s = (if timer_count s = 0 then 0 else Suc (fires_to_zero t))"
proof -
  let ?s = "s\<lparr>watchdog_ticktock := None\<rparr>"
  show "supervising t" and p: "timer_period t = timer_period s"
    using assms(1) by (simp_all add: t_def supervising_def fire_keeps)
  have sv: "supervising ?s" and en: "enabled s \<noteq> 0"
    using assms(1) by (simp_all add: supervising_def)
  have c: "unat (timer_count t) = unat (timer_count s) - unat (timer_period s)"
  proof (cases "timer_count s = 0")
    case True
    then show ?thesis using en by (simp add: t_def fire_expired)
  next
    case False
    then have "timer_count t =
        (if timer_period s < timer_count s then timer_count s - timer_period s else 0)"
      using fire_checked [OF sv, of rdat now] assms(2)
      by (simp add: t_def alarming_def rearmed_def word_gt_0)
    then show ?thesis
      by (auto simp: word_less_nat_alt unat_sub word_le_nat_alt)
  qed
  then show "unat (timer_count t) = unat (timer_count s) - unat (timer_period s)" .
  show "restarts t = restarts s + (if timer_count s = 0 then 1 else 0)"
    using en by (simp add: t_def fire_restarts)
  have "0 < unat (timer_period s)" using assms(3) by (simp add: word_less_nat_alt)
  then show "fires_to_zero s = (if timer_count s = 0 then 0 else Suc (fires_to_zero t))"
    using div_up_Suc [of "unat (timer_count s)" "unat (timer_period s)"]
    by (auto simp: fires_to_zero_def c p unat_gt_0)
qed

lemma alarm_run_restarts:
  assumes "task_run alarming rdat evs s" "supervising s" "0 < timer_period s"
  shows "restarts (wdt_run rdat evs s) = restarts s + (fires evs - fires_to_zero s)"
  using assms
proof (induction evs arbitrary: s)
  case (Cons ev evs)
  show ?case
  proof (cases ev)
    case (Ev_Ioctl a now um cmd arg)
    with Cons.prems obtain ts where
      "snd (fst (softdog_ioctl a now um cmd arg s)) = s\<lparr>registered_tasks_list := ts\<rparr>"
      using task_ioctl_shape [of cmd a now um arg s] by auto
    with Cons.IH [of "s\<lparr>registered_tasks_list := ts\<rparr>"] Cons.prems Ev_Ioctl show ?thesis
      by (simp add: supervising_def fires_to_zero_def)
  next
    case (Ev_Fire now)
    with Cons.prems have a: "alarming now (registered_tasks_list s)" by simp
    note f = alarm_fire [OF Cons.prems(2) a Cons.prems(3), of rdat]
    have "restarts (wdt_run rdat evs (watchdog_fire rdat now (s\<lparr>watchdog_ticktock := None\<rparr>))) =
        restarts (watchdog_fire rdat now (s\<lparr>watchdog_ticktock := None\<rparr>)) +
        (fires evs - fires_to_zero (watchdog_fire rdat now (s\<lparr>watchdog_ticktock := None\<rparr>)))"
      using Cons.IH Cons.prems f(1,2) Ev_Fire by simp
    then show ?thesis
      using f Ev_Fire by (auto simp: fires_to_zero_def)
  qed (use Cons.prems in auto)
qed (simp add: fires_to_zero_def)

section \<open>Hung tasks, live tasks\<close>

definition some_overdue :: "u32 \<Rightarrow> wdt_task list \<Rightarrow> bool" where
  "some_overdue now ts \<longleftrightarrow>
     (\<exists>t \<in> set ts. overdue now t) \<and> (\<forall>t \<in> set ts. last_jiffies t < now)"

definition some_wrapped :: "u32 \<Rightarrow> wdt_task list \<Rightarrow> bool" where
  "some_wrapped now ts \<longleftrightarrow>
     (\<exists>t \<in> set ts. expiry_wrapped t) \<and> (\<forall>t \<in> set ts. last_jiffies t < now)"

lemma check_some_overdue:
  "tasks_inv ts \<Longrightarrow> some_overdue now ts \<Longrightarrow> check_registered_tasks now ts = (- EFAULT, ts)"
  by (rule check_alarm) (auto simp: some_overdue_def tasks_inv_def dest: overdue_expires)

lemma check_some_wrapped:
  "tasks_inv ts \<Longrightarrow> some_wrapped now ts \<Longrightarrow> check_registered_tasks now ts = (- EFAULT, ts)"
  by (rule check_alarm) (auto simp: some_wrapped_def tasks_inv_def dest: wrapped_expires)

lemma some_alarming:
  "tasks_inv ts \<Longrightarrow> some_overdue now ts \<Longrightarrow> alarming now ts"
  "tasks_inv ts \<Longrightarrow> some_wrapped now ts \<Longrightarrow> alarming now ts"
  by (simp_all add: alarming_def check_some_overdue check_some_wrapped)

text \<open>
  C3. A hung task reboots the system, and not before its time. Let the timer fire while tasks
  register, leave and give signs of life, but at every firing some task is overdue: the restart
  requests are exactly the firings beyond the first \<open>c / p\<close> (rounded up), where \<open>c\<close> is the count
  and \<open>p\<close> the check period, so from the full count of 5000 ticks the 82nd firing requests it.
\<close>

theorem hung_task_reboots:
  assumes "tasks_inv (registered_tasks_list s)" "supervising s" "timer_period s = TRIGGER_PERIOD"
    and "task_run some_overdue rdat evs s"
  shows "restarts (wdt_run rdat evs s) =
    restarts s + (fires evs - (unat (timer_count s) + 61) div 62)"
  using alarm_run_restarts [OF task_run_mono [OF assms(4,1) some_alarming(1)] assms(2)]
    assms(3) by (simp add: fires_to_zero_def)

definition demo_state :: "u32 \<Rightarrow> wdt_task list \<Rightarrow> wdt_state" where
  "demo_state c ts =
     (wdt_boot \<lparr>gpdir = 0, gpodr = 0, gpdat = 0, gpier = 0, gpimr = 0, gpicr = 0, gplog = []\<rparr>)
       \<lparr>timer_count := c, registered_tasks_list := ts\<rparr>"

lemma demo_state_sel [simp]:
  "timer_count (demo_state c ts) = c" "registered_tasks_list (demo_state c ts) = ts"
  "timer_period (demo_state c ts) = 62" "restarts (demo_state c ts) = 0"
  "supervising (demo_state c ts)" "do_hard_reset (demo_state c ts) = 0"
  by (simp_all add: demo_state_def wdt_boot_def supervising_def)

theorem hung_task_reboots_witness:
  "restarts (wdt_run gpdat [Ev_Fire 1162, Ev_Fire 1224, Ev_Fire 1286]
     (demo_state 100 [demo_task 7 1000 100])) = 1"
proof -
  let ?ts = "[demo_task 7 1000 100]"
  have i: "tasks_inv ?ts" by (simp add: tasks_inv_def)
  have o: "some_overdue 1162 ?ts" "some_overdue 1224 ?ts" "some_overdue 1286 ?ts"
    by (simp_all add: some_overdue_def overdue_def)
  have k: "registered_tasks_list (watchdog_fire gpdat now s) = ?ts"
    if "registered_tasks_list s = ?ts" "some_overdue now ?ts" for now s
    using that check_some_overdue [OF i, of now]
    by (cases s rule: fire_cases) (simp_all add: fire_simps rearmed_def)
  show ?thesis
    using hung_task_reboots [of "demo_state 100 ?ts" gpdat "[Ev_Fire 1162, Ev_Fire 1224, Ev_Fire 1286]"]
      i o k by simp
qed

definition all_alive :: "u32 \<Rightarrow> wdt_task list \<Rightarrow> bool" where
  "all_alive now ts \<longleftrightarrow> (\<forall>t \<in> set ts. alive now t)"

lemma alive_fire_count:
  assumes "tasks_inv (registered_tasks_list s)" "all_alive now (registered_tasks_list s)"
    and "timer_count s \<noteq> 0"
  shows "timer_count (watchdog_fire rdat now s) \<noteq> 0"
    and "restarts (watchdog_fire rdat now s) = restarts s"
proof -
  have "check_registered_tasks now (registered_tasks_list s) = (0, registered_tasks_list s)"
    using assms(1,2) alive_expires
    by (intro check_all_alive) (auto simp: all_alive_def tasks_inv_def)
  with assms(3) show "timer_count (watchdog_fire rdat now s) \<noteq> 0"
    by (cases s rule: fire_cases) (simp_all add: fire_simps rearmed_def)
  show "restarts (watchdog_fire rdat now s) = restarts s"
    using assms(3) by (simp add: fire_restarts)
qed

lemma alive_run:
  assumes "task_run all_alive rdat evs s" "tasks_inv (registered_tasks_list s)"
    and "timer_count s \<noteq> 0"
  shows "timer_count (wdt_run rdat evs s) \<noteq> 0 \<and> restarts (wdt_run rdat evs s) = restarts s"
  using assms
proof (induction evs arbitrary: s)
  case (Cons ev evs)
  let ?t = "snd (wdt_handle rdat ev s)"
  have "timer_count ?t \<noteq> 0 \<and> restarts ?t = restarts s"
  proof (cases ev)
    case (Ev_Ioctl a now um cmd arg)
    then show ?thesis
      using same_timer_ioctl [of s a now um cmd arg] Cons.prems(3) by (simp add: same_timer_def)
  next
    case (Ev_Fire now)
    then show ?thesis
      using alive_fire_count [of "s\<lparr>watchdog_ticktock := None\<rparr>" now rdat] Cons.prems by simp
  qed (use Cons.prems in auto)
  then show ?case
    using Cons.IH [of ?t] Cons.prems tasks_inv_handle [of s rdat ev] by simp
qed simp


definition demo_mem :: "int \<Rightarrow> user_mem" where
  "demo_mem p =
     \<lparr>um_byte = [0x1000 \<mapsto> 0, 0x1001 \<mapsto> 0, 0x1002 \<mapsto> 0, 0x1003 \<mapsto> word_of_int p],
      um_writable = (\<lambda>a. False)\<rparr>"

lemma demo_serve:
  "copy_from_user (demo_mem 7) 0x1000 4 = Some [0, 0, 0, 7]"
  "sint (be32_at [0, 0, 0, 7] 0) = 7"
  by (simp_all add: demo_mem_def be32_at_def of_be32_def copy_from_user_numeral)

lemma demo_serve_run:
  "snd (fst (softdog_ioctl True now (demo_mem 7) WDT_SERVE_ME 0x1000 s)) =
     s\<lparr>registered_tasks_list := snd (wdt_serve_task 7 now (registered_tasks_list s))\<rparr>"
  unfolding softdog_ioctl_tasks
  by (simp add: ioctl_serve_def demo_serve Let_def split: prod.splits)

lemma demo_wdt_serve_task: "wdt_serve_task 7 now [demo_task 7 c l] = (0, [demo_task 7 c now])"
  by (simp add: wdt_serve_task_def serve_entry_def demo_task_def)


section \<open>The wrap of the tick counter\<close>

text \<open>
  The overflow test misses the time before the wrap. Once the expiry of a task lies beyond the
  wrap of the 32-bit tick counter, the check reports the task as hung from the next tick on,
  although every task has given its last sign of life less than its call period ago.
\<close>

theorem check_false_alarm_before_wrap:
  assumes "tasks_inv ts" "t \<in> set ts" "expiry_wrapped t"
    and "\<forall>u \<in> set ts. last_jiffies u < now \<and>
      unat now - unat (last_jiffies u) < unat (call_period u)"
  shows "check_registered_tasks now ts = (- EFAULT, ts)"
  using assms by (intro check_some_wrapped) (auto simp: some_wrapped_def)

theorem check_false_alarm_before_wrap_witness:
  "check_registered_tasks 0xFFFFFF01 [demo_task 7 10000 0xFFFFFF00] =
     (- EFAULT, [demo_task 7 10000 0xFFFFFF00])"
  using check_false_alarm_before_wrap
    [of "[demo_task 7 10000 0xFFFFFF00]" "demo_task 7 10000 0xFFFFFF00" "0xFFFFFF01"]
  by (simp add: tasks_inv_def expiry_wrapped_def)

text \<open>
  C38. The false alarm reboots a healthy system, signs of life or not: in any run in which, at
  every firing, the expiry of some task lies beyond the wrap and all signs of life are earlier
  than the firing, restarts are requested as if a task were hung.
\<close>

theorem wrap_reboots_live_system:
  assumes "tasks_inv (registered_tasks_list s)" "supervising s" "timer_period s = TRIGGER_PERIOD"
    and "task_run some_wrapped rdat evs s"
  shows "restarts (wdt_run rdat evs s) =
    restarts s + (fires evs - (unat (timer_count s) + 61) div 62)"
  using alarm_run_restarts [OF task_run_mono [OF assms(4,1) some_alarming(2)] assms(2)]
    assms(3) by (simp add: fires_to_zero_def)

theorem wrap_reboots_live_system_witness:
  "restarts (wdt_run gpdat
      [Ev_Fire 0xFFFFF010, Ev_Ioctl True 0xFFFFF020 (demo_mem 7) WDT_SERVE_ME 0x1000,
       Ev_Fire 0xFFFFF04E]
      (demo_state 62 [demo_task 7 10000 0xFFFFF000])) = 1"
proof -
  let ?evs = "[Ev_Fire 0xFFFFF010, Ev_Ioctl True 0xFFFFF020 (demo_mem 7) WDT_SERVE_ME 0x1000,
       Ev_Fire 0xFFFFF04E]"
  let ?ts = "[demo_task 7 10000 0xFFFFF000]"
  have i: "tasks_inv ?ts" by (simp add: tasks_inv_def)
  have w: "some_wrapped 0xFFFFF010 ?ts"
    by (simp add: some_wrapped_def expiry_wrapped_def)
  have "registered_tasks_list (watchdog_fire gpdat 0xFFFFF010 s) = ?ts"
    if "registered_tasks_list s = ?ts" for s
    using that check_some_wrapped [OF i w]
    by (cases s rule: fire_cases) (simp_all add: fire_simps rearmed_def)
  then have "task_run some_wrapped gpdat ?evs (demo_state 62 ?ts)"
    using demo_serve_run w
    by (simp add: demo_wdt_serve_task some_wrapped_def expiry_wrapped_def)
  then show ?thesis
    using wrap_reboots_live_system [of "demo_state 62 ?ts" gpdat ?evs] i by simp
qed

section \<open>Hard reset\<close>

lemma hard_reset_handle:
  assumes "do_hard_reset s \<noteq> 0"
  shows "do_hard_reset (snd (wdt_handle rdat ev s)) \<noteq> 0 \<and>
    ccsr (snd (wdt_handle rdat ev s)) = ccsr s"
proof (cases ev)
  case (Ev_Ioctl a now um cmd arg)
  then show ?thesis
    using hard_reset_ioctl [OF assms] same_timer_ioctl [of s a now um cmd arg]
    by (simp add: same_timer_def)
next
  case (Ev_Fire now)
  have "ccsr (watchdog_fire rdat now (s\<lparr>watchdog_ticktock := None\<rparr>)) = ccsr s"
    using assms
    by (cases "s\<lparr>watchdog_ticktock := None\<rparr>" rule: fire_cases)
       (simp_all add: fire_simps rearmed_def)
  then show ?thesis
    using Ev_Fire assms by (simp add: fire_keeps)
qed (use assms in \<open>auto simp: softdog_open_def softdog_release_def softdog_read_def
       softdog_write_def Let_def split: option.splits\<close>)

text \<open>
  A hard reset request is final: after the ioctl no sequence of file operations and firings of
  the timer ever touches the pins of the external watchdog again, so the chip is no longer served
  and resets the board by itself.
\<close>

theorem hard_reset_stops_service:
  "ccsr (wdt_run rdat evs
     (snd (wdt_handle rdat (Ev_Ioctl a now um IOCTL_HARDRESET arg) s))) = ccsr s"
proof -
  have "snd (wdt_handle rdat (Ev_Ioctl a now um IOCTL_HARDRESET arg) s) = s\<lparr>do_hard_reset := 1\<rparr>"
    by (simp add: softdog_ioctl_def IOC_TYPE_def IOC_NR_def)
  moreover have "do_hard_reset t \<noteq> 0 \<Longrightarrow> ccsr (wdt_run rdat evs t) = ccsr t" for t
    by (induction evs arbitrary: t) (auto simp: hard_reset_handle)
  ultimately show ?thesis by simp
qed

section \<open>Round trips through the file operations\<close>

lemma unregister_head: "wdt_unregister_task (pid t) (t # ts) = (0, ts)"
  by (simp add: wdt_unregister_task_def)

lemma register_new:
  "pid t \<notin> pid ` set ts \<Longrightarrow>
     wdt_register_task True now t ts =
       (0, \<lparr>pid = pid t, call_period = call_period t, expires = call_period t + now,
            last_jiffies = now, command = take MAX_LEN (command t)\<rparr> # ts)"
  using already_registered_iff [of "pid t" ts] by (simp add: wdt_register_task_def)

lemma register_again:
  "pid t \<in> pid ` set ts \<Longrightarrow> wdt_register_task a now t ts = (- EEXIST, ts)"
  using already_registered_iff [of "pid t" ts] by (simp add: wdt_register_task_def)

text \<open>
  Registering through the device: a task whose process number is not in the list and whose
  structure can be read is put in front of the list with the call period it asked for, counted
  from now, and the call returns 0; asking again returns "try again" and changes nothing; removing
  the process number restores the state as it was before.
\<close>

theorem register_remove_roundtrip:
  assumes "arg \<noteq> 0" "copy_from_user um arg sizeof_task = Some bs"
    and "arg' \<noteq> 0" "copy_from_user um' arg' 4 = Some bs'"
    and "be32_at bs' 0 = be32_at bs 8"
    and "sint (be32_at bs 8) \<notin> pid ` set (registered_tasks_list s)"
    and "softdog_ioctl True now um WDT_REGISTER_ME arg s = ((r, s1), um1)"
  shows "r = 0 \<and>
    map (\<lambda>t. (pid t, call_period t, expires t)) (registered_tasks_list s1) =
      (sint (be32_at bs 8), be32_at bs 12, be32_at bs 12 + now) #
      map (\<lambda>t. (pid t, call_period t, expires t)) (registered_tasks_list s) \<and>
    softdog_ioctl a now' um WDT_REGISTER_ME arg s1 = ((- EAGAIN, s1), um) \<and>
    softdog_ioctl a' now'' um' WDT_REMOVE_ME arg' s1 = ((0, s), um')"
proof -
  let ?t = "task_of_bytes bs"
  have p: "pid ?t = sint (be32_at bs 8)" by (simp add: task_of_bytes_def)
  obtain u where u: "wdt_register_task True now ?t (registered_tasks_list s) =
      (0, u # registered_tasks_list s)" "pid u = pid ?t" "call_period u = be32_at bs 12"
      "expires u = be32_at bs 12 + now"
    using register_new [of ?t "registered_tasks_list s" now] assms(6) p
    by (simp add: task_of_bytes_def)
  have s1: "s1 = s\<lparr>registered_tasks_list := u # registered_tasks_list s\<rparr>" and r: "r = 0"
    using assms(7) assms(1,2) u(1) unfolding softdog_ioctl_tasks
    by (simp_all add: ioctl_register_def)
  have "softdog_ioctl a now' um WDT_REGISTER_ME arg s1 = ((- EAGAIN, s1), um)"
    unfolding softdog_ioctl_tasks
    using assms(1,2) u(2) register_again [of ?t "u # registered_tasks_list s"]
    by (simp add: ioctl_register_def s1)
  moreover have "softdog_ioctl a' now'' um' WDT_REMOVE_ME arg' s1 = ((0, s), um')"
    unfolding softdog_ioctl_tasks using assms(3,4,5) u(2) p unregister_head [of u]
    by (simp add: ioctl_remove_def s1)
  ultimately show ?thesis
    using u p r by (simp add: s1)
qed

definition ones_mem :: user_mem where
  "ones_mem = \<lparr>um_byte = (\<lambda>a. Some 1), um_writable = (\<lambda>a. True)\<rparr>"

lemma copy_ones: "copy_from_user ones_mem a n = Some (replicate n 1)"
  by (induction n arbitrary: a) (simp_all add: ones_mem_def)

theorem register_remove_roundtrip_witness:
  "\<exists>s1. softdog_ioctl True 100 ones_mem WDT_REGISTER_ME 0x1000 (demo_state 5000 []) =
       ((0, s1), ones_mem) \<and>
     softdog_ioctl True 300 ones_mem WDT_REMOVE_ME 0x1000 s1 = ((0, demo_state 5000 []), ones_mem)"
proof -
  obtain r s1 um1 where e: "softdog_ioctl True 100 ones_mem WDT_REGISTER_ME 0x1000
      (demo_state 5000 []) = ((r, s1), um1)"
    by (metis surj_pair)
  moreover have "um1 = ones_mem"
    using e unfolding softdog_ioctl_tasks by simp
  ultimately show ?thesis
    using register_remove_roundtrip [OF _ copy_ones _ copy_ones _ _ e, of "0x1000" True 0 True 300]
    by (simp add: be32_at_def sizeof_task_def)
qed

text \<open>
  Writing the device sets the remaining time in ticks, reading it returns the remaining time
  in whole seconds: after a successful write of \<open>v\<close> a read stores \<open>v div 250\<close>. A write that fails
  changes nothing.
\<close>

theorem softdog_write_read:
  assumes "softdog_write ppos_ok um data len s = (r, s')"
  shows "if r < 0 then s' = s
    else \<exists>bs. copy_from_user um data 4 = Some bs \<and>
      softdog_read um' data' 4 s' =
        (4, s', snd (put_user um' data' (of_nat (unat (be32_at bs 0) div 250))))"
  using assms
  by (auto simp: softdog_write_def softdog_read_def word_arith_nat_div split: if_splits option.splits)

theorem softdog_write_read_witness:
  "\<exists>s'. softdog_write True ones_mem 0x1000 4 (demo_state 10 []) = (4, s') \<and>
     (\<exists>um'. softdog_read ones_mem 0x2000 4 s' = (4, s', um'))"
proof -
  have "softdog_write True ones_mem 0x1000 4 (demo_state 10 []) =
      (4, (demo_state 10 [])\<lparr>timer_count := 0x1010101\<rparr>)"
    by (simp add: softdog_write_def copy_ones be32_at_def of_be32_def)
  from softdog_write_read [OF this, of ones_mem "0x2000"] this show ?thesis by auto
qed

text \<open>
  Loading and unloading: the driver comes up with the timer pending and all registrations
  made, or it returns the error of the registration that failed with none left behind; unloading
  empties the task list, stops the timer, gives both registrations back, sets the chip's long
  period pin and serves the chip once more.
\<close>

theorem watchdog_init_cleanup:
  "(case watchdog_init rdat rn rm now (wdt_boot g) of (r, s) \<Rightarrow>
      r = (if rn \<noteq> 0 then rn else rm) \<and>
      (if r = 0
       then notifier_registered s \<and> misc_registered s \<and>
            watchdog_ticktock s = Some (now + 62) \<and> gpdir (ccsr s) = gpdir g OR 0x50000000
       else s = wdt_boot g)) \<and>
   (let t = watchdog_cleanup rdat s'
    in registered_tasks_list t = [] \<and> watchdog_ticktock t = None \<and>
       \<not> notifier_registered t \<and> \<not> misc_registered t \<and>
       (\<exists>u v w. gplog (ccsr t) = gplog (ccsr s') @ [u, v, w] \<and>
          bit u 28 \<and> \<not> bit v 30 \<and> bit w 30))"
proof -
  have b: "(wdt_boot g)\<lparr>notifier_registered := False\<rparr> = wdt_boot g"
    by (simp add: wdt_boot_def)
  have "(gpdir g OR 0x40000000) OR 0x10000000 = gpdir g OR 0x50000000"
    by (simp add: or.assoc)
  then have g: "gpdir (hardware_init rdat g) = gpdir g OR 0x50000000"
    by (simp add: hardware_init_def Let_def serve_watchdog_hw_def gpio_defs)
  have "\<exists>u v w. gplog (slow_down_watchdog_hw rdat h) = gplog h @ [u, v, w] \<and>
      bit u 28 \<and> \<not> bit v 30 \<and> bit w 30" for h
    by (simp add: slow_down_watchdog_hw_def serve_watchdog_hw_def gpio_defs bit_simps)
  then have "let t = watchdog_cleanup rdat s'
    in registered_tasks_list t = [] \<and> watchdog_ticktock t = None \<and>
       \<not> notifier_registered t \<and> \<not> misc_registered t \<and>
       (\<exists>u v w. gplog (ccsr t) = gplog (ccsr s') @ [u, v, w] \<and>
          bit u 28 \<and> \<not> bit v 30 \<and> bit w 30)"
    by (simp add: watchdog_cleanup_def hardware_clean_def wdt_proc_cleanup_def)
  moreover have "case watchdog_init rdat rn rm now (wdt_boot g) of (r, s) \<Rightarrow>
      r = (if rn \<noteq> 0 then rn else rm) \<and>
      (if r = 0
       then notifier_registered s \<and> misc_registered s \<and>
            watchdog_ticktock s = Some (now + 62) \<and> gpdir (ccsr s) = gpdir g OR 0x50000000
       else s = wdt_boot g)"
    using b g by (simp add: watchdog_init_def wdt_proc_init_def WDT_OK_def Let_def)
      (simp add: wdt_boot_def)
  ultimately show ?thesis by blast
qed

end
