(* ===== verification/Espi.thy ===== *)
theory Espi
  imports H2000_Prelude
begin

text \<open>
  The user-space driver of the eSPI controller (\<open>drivers/spidrv/spi.c\<close>). The controller's
  registers are reached through the two functions of \<open>spi_hw\<close>, which act on an arbitrary type of
  hardware states, since a read of the event or receive register has effects of its own. An access
  outside a buffer, and a division by zero, is the value \<^term>\<open>None\<close>.
\<close>

section \<open>Registers and constants\<close>

datatype spi_reg =
    R_mode | R_event | R_mask | R_command | R_transmit | R_receive | R_csmode nat

record 'h spi_hw =
  reg_rd :: "spi_reg \<Rightarrow> 'h \<Rightarrow> u32 \<times> 'h"
  reg_wr :: "spi_reg \<Rightarrow> u32 \<Rightarrow> 'h \<Rightarrow> 'h"

record spi_device =
  chip_select :: u32
  max_speed_hz :: u32
  spi_mode :: u32
  bits_per_word :: u32
  spi_reg_addr :: u32

definition CSMODE_CI_INACTIVEHIGH :: u32 where "CSMODE_CI_INACTIVEHIGH = push_bit 31 1"
definition CSMODE_CP_BEGIN_EDGECLK :: u32 where "CSMODE_CP_BEGIN_EDGECLK = push_bit 30 1"
definition CSMODE_REV :: u32 where "CSMODE_REV = push_bit 29 1"
definition CSMODE_DIV16 :: u32 where "CSMODE_DIV16 = push_bit 28 1"
definition CSMODE_PM :: "u32 \<Rightarrow> u32" where "CSMODE_PM x = push_bit 24 x"
definition CSMODE_POL_1 :: u32 where "CSMODE_POL_1 = push_bit 20 1"
definition CSMODE_LEN :: "u32 \<Rightarrow> u32" where "CSMODE_LEN x = push_bit 16 x"
definition SPMODE_ENABLE :: u32 where "SPMODE_ENABLE = push_bit 31 1"
definition SPIM_NE :: u32 where "SPIM_NE = 0x00000200"
definition SPI_EV_NE :: u32 where "SPI_EV_NE = drop_bit 22 0x80000000"
definition SPI_EV_NF :: u32 where "SPI_EV_NF = drop_bit 23 0x80000000"
definition SPI_TIMEOUT :: nat where "SPI_TIMEOUT = 1000"
definition CSMODE_PM_MAX :: byte where "CSMODE_PM_MAX = 0xF"
definition SPMODE_INIT_VAL :: u32 where "SPMODE_INIT_VAL = push_bit 8 4 OR push_bit 0 3"
definition CSMODE_INIT_VAL :: u32 where
  "CSMODE_INIT_VAL =
     (CSMODE_POL_1 OR push_bit 12 0 OR push_bit 8 0 OR push_bit 3 1) OR CSMODE_CI_INACTIVEHIGH"

definition SPI_CPHA :: u32 where "SPI_CPHA = 1"
definition SPI_CPOL :: u32 where "SPI_CPOL = 2"
definition SPI_MODE_3 :: u32 where "SPI_MODE_3 = SPI_CPOL OR SPI_CPHA"
definition SPI_LSB_FIRST :: u32 where "SPI_LSB_FIRST = 8"

lemmas espi_consts = CSMODE_CI_INACTIVEHIGH_def CSMODE_CP_BEGIN_EDGECLK_def CSMODE_REV_def
  CSMODE_DIV16_def CSMODE_PM_def CSMODE_POL_1_def CSMODE_LEN_def SPMODE_ENABLE_def SPIM_NE_def
  SPI_EV_NE_def SPI_EV_NF_def CSMODE_PM_MAX_def SPMODE_INIT_VAL_def CSMODE_INIT_VAL_def
  SPI_CPHA_def SPI_CPOL_def SPI_MODE_3_def SPI_LSB_FIRST_def

section \<open>Transfers\<close>

text \<open>The inner wait: at most \<open>n\<close> looks at the receive count in the event register.\<close>

fun wait_full :: "'h spi_hw \<Rightarrow> nat \<Rightarrow> 'h \<Rightarrow> 'h" where
  "wait_full hw 0 h = h"
| "wait_full hw (Suc n) h =
     (let (event, h) = reg_rd hw R_event h
      in if 4 \<le> drop_bit 24 event AND 0x3f then h else wait_full hw n h)"

text \<open>
  The outer wait: at most \<open>n\<close> looks for the receiver-not-empty event, then the received word.
  \<^term>\<open>None\<close> is the exit with the counter at its limit.
\<close>

fun wait_word :: "'h spi_hw \<Rightarrow> nat \<Rightarrow> 'h \<Rightarrow> u32 option \<times> 'h" where
  "wait_word hw 0 h = (None, h)"
| "wait_word hw (Suc n) h =
     (let (event, h) = reg_rd hw R_event h
      in if event AND SPI_EV_NE \<noteq> 0
         then (let h = wait_full hw SPI_TIMEOUT h;
                   (rxword, h) = reg_rd hw R_receive h
               in (Some rxword, h))
         else wait_word hw n h)"

definition send_word ::
  "'h spi_hw \<Rightarrow> byte list \<Rightarrow> nat \<Rightarrow> 'h \<Rightarrow> (nat \<times> 'h) option" where
  "send_word hw txbuf tp h =
     (let (event, h) = reg_rd hw R_event h
      in if event AND SPI_EV_NF \<noteq> 0
         then do {
           bs \<leftarrow> memread_at txbuf tp 4;
           Some (tp + 4, reg_wr hw R_transmit (be32_at bs 0) h)
         }
         else Some (tp, h))"

definition store_word ::
  "byte list \<Rightarrow> nat \<Rightarrow> u32 option \<Rightarrow> (byte list \<times> nat) option" where
  "store_word rxbuf rp r =
     (case r of
        None \<Rightarrow> Some (rxbuf, rp)
      | Some w \<Rightarrow> do { rxbuf \<leftarrow> memcpy_at rxbuf rp (be32 w); Some (rxbuf, rp + 4) })"

function spi_words ::
  "'h spi_hw \<Rightarrow> byte list \<Rightarrow> nat \<Rightarrow> byte list \<Rightarrow> nat \<Rightarrow> int \<Rightarrow> 'h
     \<Rightarrow> (u32 option \<times> byte list \<times> 'h) option" where
  "spi_words hw txbuf tp rxbuf rp len h =
     (case send_word hw txbuf tp h of
        None \<Rightarrow> None
      | Some (tp, h) \<Rightarrow>
          (let (r, h) = wait_word hw SPI_TIMEOUT h
           in case store_word rxbuf rp r of
                None \<Rightarrow> None
              | Some (rxbuf, rp) \<Rightarrow>
                  if 0 < len - 4 then spi_words hw txbuf tp rxbuf rp (len - 4) h
                  else Some (r, rxbuf, h)))"
  by pat_completeness auto
termination
  by (relation "measure (\<lambda>(hw, txbuf, tp, rxbuf, rp, len, h). nat len)") auto

declare spi_words.simps [simp del]

definition spi_transfer ::
  "'h spi_hw \<Rightarrow> spi_device \<Rightarrow> byte list \<Rightarrow> byte list \<Rightarrow> int \<Rightarrow> 'h
     \<Rightarrow> (int \<times> byte list \<times> 'h) option" where
  "spi_transfer hw spidev txbuf rxbuf len h =
     (let command = push_bit 30 (chip_select spidev) OR word_of_int (len - 1);
          h = reg_wr hw R_command command h;
          h = reg_wr hw R_mask SPIM_NE h
      in case spi_words hw txbuf 0 rxbuf 0 len h of
           None \<Rightarrow> None
         | Some (r, rxbuf, h) \<Rightarrow>
             if r = None then Some (- 1, rxbuf, h)
             else Some (0, rxbuf, reg_wr hw R_mask 0 h))"

section \<open>Set-up\<close>

definition spi_dev_init :: "'h spi_hw \<Rightarrow> spi_device \<Rightarrow> 'h \<Rightarrow> int \<times> 'h" where
  "spi_dev_init hw spidev h =
     (if spi_reg_addr spidev = 0 then (- 1, h)
      else
        (let h = reg_wr hw R_mode 0 h;
             h = reg_wr hw R_mask 0 h;
             h = reg_wr hw R_command 0 h;
             h = reg_wr hw R_event 0xffffffff h;
             h = reg_wr hw R_mode (SPMODE_INIT_VAL OR SPMODE_ENABLE) h
         in (0, fold (\<lambda>i. reg_wr hw (R_csmode i) CSMODE_INIT_VAL) [0..<4] h)))"

definition spibrg :: u32 where "spibrg = 198000000"

text \<open>The divider of the bit clock: the divide-by-16 flag and the modulus, an unsigned char.\<close>

definition spi_clock :: "u32 \<Rightarrow> (u32 \<times> byte) option" where
  "spi_clock hz =
     (if hz = 0 then None
      else if 32 < spibrg div hz then
        (let pm = ucast (spibrg div (hz * 32)) :: byte
         in Some (CSMODE_DIV16, if CSMODE_PM_MAX < pm then CSMODE_PM_MAX else pm))
      else if hz * 2 = 0 then None
      else Some (0, ucast (spibrg div (hz * 2))))"

definition csmode_of :: "spi_device \<Rightarrow> u32 \<Rightarrow> u32 option" where
  "csmode_of spidev hw_mode =
     (let m = hw_mode AND NOT (CSMODE_CP_BEGIN_EDGECLK OR CSMODE_CI_INACTIVEHIGH OR CSMODE_REV);
          m = (if spi_mode spidev AND SPI_CPHA \<noteq> 0 then m OR CSMODE_CP_BEGIN_EDGECLK else m);
          m = (if spi_mode spidev AND SPI_CPOL \<noteq> 0 then m OR CSMODE_CI_INACTIVEHIGH else m);
          m = (if spi_mode spidev AND SPI_LSB_FIRST = 0 then m OR CSMODE_REV else m);
          m = m AND NOT (CSMODE_LEN 0xF OR CSMODE_DIV16 OR CSMODE_PM 0xF);
          m = m OR CSMODE_LEN (bits_per_word spidev - 1)
      in do {
           (div16, pm) \<leftarrow> spi_clock (max_speed_hz spidev);
           Some ((m OR div16) OR CSMODE_PM (ucast pm))
         })"

definition spi_setup ::
  "'h spi_hw \<Rightarrow> spi_device \<Rightarrow> 'h \<Rightarrow> (int \<times> spi_device \<times> 'h) option" where
  "spi_setup hw spidev h =
     (if max_speed_hz spidev = 0 then Some (- 1, spidev, h)
      else
        (let spidev = (if bits_per_word spidev = 0 then spidev\<lparr>bits_per_word := 8\<rparr> else spidev);
             cs_sel = unat (chip_select spidev)
         in if 4 \<le> cs_sel then None
            else
              (let (hw_mode, h) = reg_rd hw (R_csmode cs_sel) h
               in case csmode_of spidev hw_mode of
                    None \<Rightarrow> None
                  | Some hw_mode \<Rightarrow>
                      (let (regval, h) = reg_rd hw R_mode h;
                           h = reg_wr hw R_mode (regval AND NOT SPMODE_ENABLE) h;
                           h = reg_wr hw (R_csmode cs_sel) hw_mode h;
                           h = reg_wr hw R_mode regval h
                       in Some (0, spidev, h)))))"

section \<open>Transfers over a working controller\<close>

text \<open>
  What the manual promises of the controller in master mode with one word in flight. \<open>dev\<close> is the
  state of the slave, \<open>fifo\<close> the word on its way with the number of event reads until it is
  there, and \<open>xchg\<close> what the slave answers to a word.
\<close>

definition espi_contract ::
  "'h spi_hw \<Rightarrow> ('h \<Rightarrow> 'd) \<Rightarrow> ('h \<Rightarrow> (u32 \<times> nat) option) \<Rightarrow> (u32 \<Rightarrow> 'd \<Rightarrow> u32 \<times> 'd) \<Rightarrow> bool" where
  "espi_contract hw dev fifo xchg \<longleftrightarrow>
     (\<forall>h ev h'. reg_rd hw R_event h = (ev, h') \<longrightarrow>
        dev h' = dev h \<and>
        (case fifo h of
           None \<Rightarrow> ev AND SPI_EV_NF \<noteq> 0 \<and> fifo h' = None
         | Some (w, k) \<Rightarrow>
             fifo h' = Some (w, k - 1) \<and> (ev AND SPI_EV_NE \<noteq> 0 \<longleftrightarrow> k = 0) \<and>
             (k = 0 \<longrightarrow> 4 \<le> drop_bit 24 ev AND 0x3f))) \<and>
     (\<forall>h w. fifo h = None \<longrightarrow>
        dev (reg_wr hw R_transmit w h) = snd (xchg w (dev h)) \<and>
        (\<exists>k < 1000. fifo (reg_wr hw R_transmit w h) = Some (fst (xchg w (dev h)), k))) \<and>
     (\<forall>h w. fifo h = Some (w, 0) \<longrightarrow>
        fst (reg_rd hw R_receive h) = w \<and> fifo (snd (reg_rd hw R_receive h)) = None \<and>
        dev (snd (reg_rd hw R_receive h)) = dev h) \<and>
     (\<forall>r h v. r \<notin> {R_event, R_transmit, R_receive} \<longrightarrow>
        dev (reg_wr hw r v h) = dev h \<and> fifo (reg_wr hw r v h) = fifo h \<and>
        dev (snd (reg_rd hw r h)) = dev h \<and> fifo (snd (reg_rd hw r h)) = fifo h)"

definition nwords :: "int \<Rightarrow> nat" where
  "nwords len = (if len \<le> 4 then 1 else nat ((len + 3) div 4))"

definition words_at :: "byte list \<Rightarrow> nat \<Rightarrow> nat \<Rightarrow> u32 list" where
  "words_at bs p n = map (\<lambda>i. be32_at bs (p + 4 * i)) [0..<n]"

lemma nwords_Suc: "4 < len \<Longrightarrow> nwords len = Suc (nwords (len - 4))"
  by (auto simp: nwords_def)

lemma nwords_1: "len \<le> 4 \<Longrightarrow> nwords len = 1"
  by (simp add: nwords_def)

lemma words_at_Suc: "words_at bs p (Suc n) = be32_at bs p # words_at bs (p + 4) n"
  by (simp add: words_at_def upt_conv_Cons map_Suc_upt [symmetric] comp_def algebra_simps
      del: upt_Suc)

lemma be32_at_memread: "memread_at bs p 4 = Some cs \<Longrightarrow> be32_at cs 0 = be32_at bs p"
  by (auto simp: memread_at_def be32_at_def split: if_splits)

lemma contract_event:
  assumes "espi_contract hw dev fifo xchg" "reg_rd hw R_event h = (ev, h')"
  shows "dev h' = dev h"
    and "fifo h = None \<Longrightarrow> ev AND SPI_EV_NF \<noteq> 0 \<and> fifo h' = None"
    and "fifo h = Some (w, k) \<Longrightarrow>
      fifo h' = Some (w, k - 1) \<and> (ev AND SPI_EV_NE \<noteq> 0 \<longleftrightarrow> k = 0) \<and>
      (k = 0 \<longrightarrow> 4 \<le> drop_bit 24 ev AND 0x3f)"
  using assms unfolding espi_contract_def by fastforce+

lemma contract_transmit:
  assumes "espi_contract hw dev fifo xchg" "fifo h = None"
  shows "dev (reg_wr hw R_transmit w h) = snd (xchg w (dev h))"
    and "\<exists>k < 1000. fifo (reg_wr hw R_transmit w h) = Some (fst (xchg w (dev h)), k)"
  using assms unfolding espi_contract_def by blast+

lemma contract_receive:
  assumes "espi_contract hw dev fifo xchg" "fifo h = Some (w, 0)" "reg_rd hw R_receive h = (v, h')"
  shows "v = w" "fifo h' = None" "dev h' = dev h"
  using assms unfolding espi_contract_def by fastforce+

lemma contract_control:
  assumes "espi_contract hw dev fifo xchg" "r \<in> {R_mode, R_mask, R_command, R_csmode i}"
  shows "dev (reg_wr hw r v h) = dev h" "fifo (reg_wr hw r v h) = fifo h"
    and "dev (snd (reg_rd hw r h)) = dev h" "fifo (snd (reg_rd hw r h)) = fifo h"
  using assms unfolding espi_contract_def by blast+

lemma wait_word_contract:
  assumes c: "espi_contract hw dev fifo xchg"
  shows "fifo h = Some (w, k) \<Longrightarrow> k < n \<Longrightarrow>
    \<exists>h'. wait_word hw n h = (Some w, h') \<and> fifo h' = None \<and> dev h' = dev h"
proof (induction n arbitrary: h k)
  case (Suc n)
  obtain ev h1 where e: "reg_rd hw R_event h = (ev, h1)" by fastforce
  note ce = contract_event [OF c e]
  show ?case
  proof (cases k)
    case 0
    with Suc.prems ce(3) have f1: "fifo h1 = Some (w, 0)" "ev AND SPI_EV_NE \<noteq> 0"
      by auto
    obtain ev2 h2 where e2: "reg_rd hw R_event h1 = (ev2, h2)" by fastforce
    have f2: "fifo h2 = Some (w, 0)" "dev h2 = dev h1" "4 \<le> drop_bit 24 ev2 AND 0x3f"
      using contract_event [OF c e2] f1(1) by auto
    have "wait_full hw SPI_TIMEOUT h1 = h2"
      using e2 f2(3) by (simp add: SPI_TIMEOUT_def numeral_eq_Suc)
    moreover obtain v h3 where e3: "reg_rd hw R_receive h2 = (v, h3)" by fastforce
    ultimately show ?thesis
      using contract_receive [OF c f2(1) e3] e f1 f2 ce(1) by simp
  next
    case (Suc j)
    with Suc.prems ce(3) have "fifo h1 = Some (w, j)" "ev AND SPI_EV_NE = 0"
      by auto
    with Suc.IH [of h1 j] Suc Suc.prems(2) ce(1) e show ?thesis by simp
  qed
qed simp

lemma word_contract:
  assumes c: "espi_contract hw dev fifo xchg" and i: "fifo h = None"
    and t: "tp + 4 \<le> length txbuf" and x: "xchg (be32_at txbuf tp) (dev h) = (w, d)"
  shows "\<exists>h1 h2. send_word hw txbuf tp h = Some (tp + 4, h1) \<and>
    wait_word hw SPI_TIMEOUT h1 = (Some w, h2) \<and> fifo h2 = None \<and> dev h2 = d"
proof -
  obtain ev h0 where e: "reg_rd hw R_event h = (ev, h0)" by fastforce
  note ce = contract_event [OF c e]
  obtain cs where cs: "memread_at txbuf tp 4 = Some cs"
    using t by (simp add: memread_at_def)
  let ?h1 = "reg_wr hw R_transmit (be32_at txbuf tp) h0"
  have "send_word hw txbuf tp h = Some (tp + 4, ?h1)"
    using e ce(2) i cs be32_at_memread [OF cs] by (simp add: send_word_def)
  moreover obtain k where "k < 1000" "fifo ?h1 = Some (w, k)" "dev ?h1 = d"
    using contract_transmit [OF c, of h0 "be32_at txbuf tp"] ce(1,2) i x by auto
  ultimately show ?thesis
    using wait_word_contract [OF c, of ?h1 w k SPI_TIMEOUT] by (auto simp: SPI_TIMEOUT_def)
qed

lemma send_word_short: 
  assumes "espi_contract hw dev fifo xchg" "fifo h = None" "length txbuf < tp + 4"
  shows "send_word hw txbuf tp h = None"
proof -
  obtain ev h0 where e: "reg_rd hw R_event h = (ev, h0)" by fastforce
  then show ?thesis
    using contract_event(2) [OF assms(1) e] assms(2,3)
    by (simp add: send_word_def memread_at_def)
qed

lemma spi_words_contract:
  assumes c: "espi_contract hw dev fifo xchg"
  shows "fifo h = None \<Longrightarrow> run_list xchg (words_at txbuf tp (nwords len)) (dev h) = (rs, d) \<Longrightarrow>
    tp + 4 * nwords len \<le> length txbuf \<Longrightarrow> rp + 4 * nwords len \<le> length rxbuf \<Longrightarrow>
    \<exists>w h'. spi_words hw txbuf tp rxbuf rp len h =
      Some (Some w, take rp rxbuf @ concat (map be32 rs) @ drop (rp + 4 * nwords len) rxbuf, h') \<and>
      fifo h' = None \<and> dev h' = d"
proof (induction "nwords len" arbitrary: tp rxbuf rp len h rs)
  case 0
  then show ?case by (simp add: nwords_def split: if_splits)
next
  case (Suc n)
  obtain w d1 where x: "xchg (be32_at txbuf tp) (dev h) = (w, d1)" by fastforce
  obtain h1 h2 where s: "send_word hw txbuf tp h = Some (tp + 4, h1)"
    "wait_word hw SPI_TIMEOUT h1 = (Some w, h2)" "fifo h2 = None" "dev h2 = d1"
    using word_contract [OF c Suc.prems(1) _ x] Suc.prems(3) Suc.hyps(2) by fastforce
  let ?rx = "take rp rxbuf @ be32 w @ drop (rp + 4) rxbuf"
  have st: "store_word rxbuf rp (Some w) = Some (?rx, rp + 4)"
    using Suc.prems(4) Suc.hyps(2) [symmetric] by (simp add: store_word_def memcpy_at_def)
  obtain rs' where rs: "rs = w # rs'" "run_list xchg (words_at txbuf (tp + 4) n) d1 = (rs', d)"
    using Suc.prems(2) Suc.hyps(2) [symmetric] x by (auto simp: words_at_Suc split: prod.splits)
  show ?case
  proof (cases "4 < len")
    case True
    then have n: "n = nwords (len - 4)" using Suc.hyps(2) nwords_Suc by simp
    have "\<exists>w' h'. spi_words hw txbuf (tp + 4) ?rx (rp + 4) (len - 4) h2 =
        Some (Some w', take (rp + 4) ?rx @ concat (map be32 rs') @
          drop (rp + 4 + 4 * nwords (len - 4)) ?rx, h') \<and> fifo h' = None \<and> dev h' = d"
      using Suc.hyps(1) [OF n s(3), of "tp + 4" rs' "rp + 4" ?rx] rs(2) s(4) n Suc.prems(3,4)
        Suc.hyps(2) [symmetric] by simp
    moreover have "spi_words hw txbuf tp rxbuf rp len h =
        spi_words hw txbuf (tp + 4) ?rx (rp + 4) (len - 4) h2"
      using True s(1,2) st by (simp add: spi_words.simps [of hw txbuf tp])
    ultimately show ?thesis
      using rs(1) n Suc.prems(4) Suc.hyps(2) [symmetric] by (simp add: algebra_simps)
  next
    case False
    then have "n = 0" using Suc.hyps(2) nwords_1 by simp
    then show ?thesis
      using False s st rs Suc.hyps(2) [symmetric]
      by (simp add: spi_words.simps [of hw txbuf tp] words_at_def)
  qed
qed

lemma spi_words_overrun:
  assumes c: "espi_contract hw dev fifo xchg"
  shows "fifo h = None \<Longrightarrow>
    length txbuf < tp + 4 * nwords len \<or> length rxbuf < rp + 4 * nwords len \<Longrightarrow>
    spi_words hw txbuf tp rxbuf rp len h = None"
proof (induction "nwords len" arbitrary: tp rxbuf rp len h)
  case 0
  then show ?case by (simp add: nwords_def split: if_splits)
next
  case (Suc n)
  show ?case
  proof (cases "tp + 4 \<le> length txbuf \<and> rp + 4 \<le> length rxbuf")
    case True
    obtain w d1 where x: "xchg (be32_at txbuf tp) (dev h) = (w, d1)" by fastforce
    obtain h1 h2 where s: "send_word hw txbuf tp h = Some (tp + 4, h1)"
      "wait_word hw SPI_TIMEOUT h1 = (Some w, h2)" "fifo h2 = None" "dev h2 = d1"
      using word_contract [OF c Suc.prems(1) _ x] True by fastforce
    let ?rx = "take rp rxbuf @ be32 w @ drop (rp + 4) rxbuf"
    have st: "store_word rxbuf rp (Some w) = Some (?rx, rp + 4)"
      using True by (simp add: store_word_def memcpy_at_def)
    have l: "4 < len"
      using True Suc.prems(2) Suc.hyps(2) nwords_1 [of len] by (cases "4 < len") auto
    then have n: "n = nwords (len - 4)" using Suc.hyps(2) nwords_Suc by simp
    have "spi_words hw txbuf (tp + 4) ?rx (rp + 4) (len - 4) h2 = None"
      using Suc.hyps(1) [OF n s(3)] n Suc.prems(2) Suc.hyps(2) [symmetric] True by auto
    then show ?thesis
      using l s st by (simp add: spi_words.simps [of hw txbuf tp])
  next
    case False
    obtain w d1 where x: "xchg (be32_at txbuf tp) (dev h) = (w, d1)" by fastforce
    show ?thesis
    proof (cases "tp + 4 \<le> length txbuf")
      case True
      then obtain h1 h2 where "send_word hw txbuf tp h = Some (tp + 4, h1)"
        "wait_word hw SPI_TIMEOUT h1 = (Some w, h2)"
        using word_contract [OF c Suc.prems(1) _ x] by blast
      then show ?thesis
        using False True by (simp add: spi_words.simps [of hw txbuf tp] store_word_def memcpy_at_def)
    next
      case False
      then show ?thesis
        using send_word_short [OF c Suc.prems(1), of txbuf tp]
        by (simp add: spi_words.simps [of hw txbuf tp])
    qed
  qed
qed

lemma spi_transfer_words:
  assumes "espi_contract hw dev fifo xchg" "fifo h = None"
    and "run_list xchg (words_at txbuf 0 (nwords len)) (dev h) = (rs, d)"
  shows "if 4 * nwords len \<le> length txbuf \<and> 4 * nwords len \<le> length rxbuf
    then \<exists>h'. spi_transfer hw spidev txbuf rxbuf len h =
        Some (0, concat (map be32 rs) @ drop (4 * nwords len) rxbuf, h') \<and>
      dev h' = d \<and> fifo h' = None
    else spi_transfer hw spidev txbuf rxbuf len h = None"
proof -
  let ?h = "reg_wr hw R_mask SPIM_NE
      (reg_wr hw R_command (push_bit 30 (chip_select spidev) OR word_of_int (len - 1)) h)"
  have i: "fifo ?h = None" "dev ?h = dev h"
    using assms(2) by (simp_all add: contract_control [OF assms(1)])
  show ?thesis
  proof (cases "4 * nwords len \<le> length txbuf \<and> 4 * nwords len \<le> length rxbuf")
    case True
    obtain w h' where "spi_words hw txbuf 0 rxbuf 0 len ?h =
        Some (Some w, concat (map be32 rs) @ drop (4 * nwords len) rxbuf, h')"
      "fifo h' = None" "dev h' = d"
      using spi_words_contract [OF assms(1) i(1), of txbuf 0 len rs d 0 rxbuf] assms(3) i(2) True
      by auto
    then show ?thesis
      using True by (simp add: spi_transfer_def contract_control [OF assms(1)])
  next
    case False
    then have "spi_words hw txbuf 0 rxbuf 0 len ?h = None"
      by (intro spi_words_overrun [OF assms(1) i(1)]) auto
    with False show ?thesis by (auto simp: spi_transfer_def)
  qed
qed

text \<open>
  C18. Over a working controller and any slave a transfer of \<open>len\<close> bytes succeeds when both buffers
  hold \<open>len\<close> rounded up to whole words: the slave sees the words of the transmit buffer in order,
  the receive buffer gets its answers, and nothing beyond them is touched. With a shorter buffer
  the transfer reads or writes outside it.
\<close>

theorem spi_transfer_exchange:
  assumes "espi_contract hw dev fifo xchg" "fifo h = None"
    and "run_list xchg (words_at txbuf 0 (nwords len)) (dev h) = (rs, d)"
  shows "if 4 * nwords len \<le> length txbuf \<and> 4 * nwords len \<le> length rxbuf
    then \<exists>h'. spi_transfer hw spidev txbuf rxbuf len h =
        Some (0, concat (map be32 rs) @ drop (4 * nwords len) rxbuf, h') \<and>
      dev h' = d \<and> fifo h' = None
    else spi_transfer hw spidev txbuf rxbuf len h = None"
  by (rule spi_transfer_words [OF assms])

text \<open>A controller that satisfies the contract: the word is there after two more event reads.\<close>

definition demo_espi :: "(u32 \<Rightarrow> 'd \<Rightarrow> u32 \<times> 'd) \<Rightarrow> ('d \<times> (u32 \<times> nat) option) spi_hw" where
  "demo_espi xchg =
     \<lparr>reg_rd = (\<lambda>r (d, f).
        case r of
          R_event \<Rightarrow>
            (case f of
               None \<Rightarrow> (SPI_EV_NF, (d, f))
             | Some (w, k) \<Rightarrow> (if k = 0 then 0x04000300 else 0x100, (d, Some (w, k - 1))))
        | R_receive \<Rightarrow> (case f of None \<Rightarrow> (0, (d, f)) | Some (w, k) \<Rightarrow> (w, (d, None)))
        | _ \<Rightarrow> (0, (d, f))),
      reg_wr = (\<lambda>r v (d, f).
        case r of
          R_transmit \<Rightarrow> (case xchg v d of (w, d') \<Rightarrow> (d', Some (w, 2)))
        | _ \<Rightarrow> (d, f))\<rparr>"

lemma demo_espi_contract: "espi_contract (demo_espi xchg) fst snd xchg"
  unfolding espi_contract_def demo_espi_def
  by (auto simp: SPI_EV_NF_def SPI_EV_NE_def split: option.splits prod.splits spi_reg.splits)

theorem spi_transfer_exchange_witness:
  "\<exists>h'. spi_transfer (demo_espi (\<lambda>w d. (w + 1, d + 1)))
       \<lparr>chip_select = 1, max_speed_hz = 1, spi_mode = 0, bits_per_word = 8, spi_reg_addr = 0x1000\<rparr>
       [0, 0, 0, 5, 0, 0, 0, 9] [7, 7, 7, 7, 7, 7, 7, 7, 7] 6 (0 :: nat, None) =
     Some (0, [0, 0, 0, 6, 0, 0, 0, 10, 7], h') \<and> fst h' = 2"
proof -
  have n: "nwords 6 = 2" by (simp add: nwords_def)
  have "words_at [0, 0, 0, 5, 0, 0, 0, 9] 0 2 = [5, 9]"
    by (simp add: words_at_def upt_rec be32_at_def of_be32_def)
  then show ?thesis
    using spi_transfer_exchange [OF demo_espi_contract,
        of "(0 :: nat, None)" "\<lambda>w d. (w + 1, d + 1)" "[0, 0, 0, 5, 0, 0, 0, 9]" 6 "[6, 10]" 2
           "[7, 7, 7, 7, 7, 7, 7, 7, 7]" "\<lparr>chip_select = 1, max_speed_hz = 1, spi_mode = 0,
           bits_per_word = 8, spi_reg_addr = 0x1000\<rparr>"]
    by (simp add: n be32_def)
qed

text \<open>A controller that never reports a received word.\<close>

lemma wait_word_dead:
  assumes "\<And>h. fst (reg_rd hw R_event h) AND SPI_EV_NE = 0"
  shows "fst (wait_word hw n h) = None"
proof (induction n arbitrary: h)
  case (Suc n)
  then show ?case using assms [of h] by (cases "reg_rd hw R_event h") simp
qed simp

lemma send_word_le:
  assumes "tp + 4 \<le> length txbuf"
  shows "\<exists>tp' h'. send_word hw txbuf tp h = Some (tp', h') \<and> tp' \<le> tp + 4"
  using assms by (cases "reg_rd hw R_event h") (simp add: send_word_def memread_at_def)

lemma spi_words_dead:
  assumes d: "\<And>h. fst (reg_rd hw R_event h) AND SPI_EV_NE = 0"
  shows "tp + 4 * nwords len \<le> length txbuf \<Longrightarrow>
    \<exists>h'. spi_words hw txbuf tp rxbuf rp len h = Some (None, rxbuf, h')"
proof (induction "nwords len" arbitrary: tp len h)
  case 0
  then show ?case by (simp add: nwords_def split: if_splits)
next
  case (Suc n)
  obtain tp' h1 where s: "send_word hw txbuf tp h = Some (tp', h1)" "tp' \<le> tp + 4"
    using Suc.prems Suc.hyps(2) [symmetric] send_word_le [of tp txbuf hw h] by fastforce
  obtain h2 where w: "wait_word hw SPI_TIMEOUT h1 = (None, h2)"
    using wait_word_dead [OF d, of SPI_TIMEOUT h1] by (cases "wait_word hw SPI_TIMEOUT h1") auto
  show ?case
  proof (cases "4 < len")
    case True
    then have n: "n = nwords (len - 4)" using Suc.hyps(2) nwords_Suc by simp
    have "\<exists>h'. spi_words hw txbuf tp' rxbuf rp (len - 4) h2 = Some (None, rxbuf, h')"
      using Suc.hyps(1) [OF n, of tp'] n Suc.hyps(2) [symmetric] Suc.prems s(2) by auto
    then show ?thesis
      using True s w by (simp add: spi_words.simps [of hw txbuf tp] store_word_def)
  next
    case False
    then show ?thesis
      using s w by (simp add: spi_words.simps [of hw txbuf tp] store_word_def)
  qed
qed

text \<open>
  On a controller that never reports a received word a transfer ends with -1 after a bounded
  number of reads and leaves the receive buffer as it was.
\<close>

theorem spi_transfer_dead:
  assumes "\<And>h. fst (reg_rd hw R_event h) AND SPI_EV_NE = 0"
    and "4 * nwords len \<le> length txbuf"
  shows "\<exists>h'. spi_transfer hw spidev txbuf rxbuf len h = Some (- 1, rxbuf, h')"
proof -
  let ?h = "reg_wr hw R_mask SPIM_NE
      (reg_wr hw R_command (push_bit 30 (chip_select spidev) OR word_of_int (len - 1)) h)"
  obtain h' where "spi_words hw txbuf 0 rxbuf 0 len ?h = Some (None, rxbuf, h')"
    using spi_words_dead [OF assms(1), of 0 len txbuf rxbuf 0 ?h] assms(2) by auto
  then show ?thesis by (simp add: spi_transfer_def)
qed

theorem spi_transfer_dead_witness:
  "\<exists>h'. spi_transfer \<lparr>reg_rd = (\<lambda>r h. (SPI_EV_NF, h)), reg_wr = (\<lambda>r v h. h + 1)\<rparr>
       \<lparr>chip_select = 1, max_speed_hz = 1, spi_mode = 0, bits_per_word = 8, spi_reg_addr = 0x1000\<rparr>
       [0, 0, 0, 5] [7, 7, 7, 7] 4 (0 :: nat) = Some (- 1, [7, 7, 7, 7], h')"
  by (rule spi_transfer_dead) (simp_all add: SPI_EV_NE_def SPI_EV_NF_def nwords_def)

section \<open>The bit clock\<close>

lemma unat_spibrg [simp]: "unat spibrg = 198000000"
  by (simp add: spibrg_def)

lemma spibrg_div_gt: "hz \<noteq> 0 \<Longrightarrow> 32 < spibrg div hz \<longleftrightarrow> unat hz \<le> 6000000"
proof -
  assume "hz \<noteq> 0"
  then have "0 < unat hz" by (simp add: unat_gt_0)
  then show ?thesis
    by (simp add: word_less_nat_alt unat_div) (auto simp: less_eq_div_iff_mult_less_eq Suc_le_eq [symmetric])
qed

lemma spi_clock_fast:
  assumes "6000000 < unat hz" "unat hz < 2 ^ 31"
  shows "spi_clock hz = Some (0, of_nat (198000000 div (2 * unat hz)))"
proof -
  have "hz \<noteq> 0" using assms by auto
  moreover have u: "unat (hz * 2) = 2 * unat hz"
    using assms(2) by (simp add: unat_word_ariths)
  moreover have "spibrg div (hz * 2) = of_nat (198000000 div (2 * unat hz))"
    by (simp add: word_arith_nat_div u)
  ultimately show ?thesis
    using assms spibrg_div_gt [of hz] by (auto simp: spi_clock_def)
qed

lemma spi_clock_slow:
  assumes "0 < unat hz" "unat hz \<le> 6000000"
  shows "spi_clock hz =
    (let pm = of_nat (198000000 div (32 * unat hz)) :: byte
     in Some (CSMODE_DIV16, if CSMODE_PM_MAX < pm then CSMODE_PM_MAX else pm))"
proof -
  have "hz \<noteq> 0" using assms by auto
  moreover have u: "unat (hz * 32) = 32 * unat hz"
    using assms(2) by (simp add: unat_word_ariths)
  moreover have "spibrg div (hz * 32) = of_nat (198000000 div (32 * unat hz))"
    by (simp add: word_arith_nat_div u)
  ultimately show ?thesis
    using assms spibrg_div_gt [of hz] by (simp add: spi_clock_def)
qed

lemma div_bound: "0 < m \<Longrightarrow> (b :: nat) < m * Suc (b div m)"
  by (simp add: dividend_less_times_div)

text \<open>
  C29. For every requested speed from 386719 Hz up to 2 GHz, except those above 6 MHz and up to
  6.1875 MHz, the modulus fits its four bits and the bit clock, the 198 MHz reference divided by
  twice the modulus plus one (and by 16 with the flag), is below the requested speed.
\<close>

theorem spi_clock_bounds:
  assumes "386719 \<le> unat hz" "unat hz \<le> 6000000 \<or> 6187500 < unat hz" "unat hz < 2 ^ 31"
  shows "\<exists>div16 pm. spi_clock hz = Some (div16, pm) \<and> div16 \<in> {0, CSMODE_DIV16} \<and>
    unat pm \<le> 15 \<and>
    198000000 < (if div16 = 0 then 1 else 16) * (2 * (unat pm + 1)) * unat hz"
proof (cases "unat hz \<le> 6000000")
  case True
  let ?q = "198000000 div (32 * unat hz)"
  have q: "?q \<le> 15" using assms(1) by (simp add: div_le_dividend less_Suc_eq_le [symmetric] div_less_iff_less_mult)
  then have u: "unat (of_nat ?q :: byte) = ?q" by (simp add: unat_of_nat)
  have "\<not> CSMODE_PM_MAX < of_nat ?q"
    using q u by (simp add: word_less_nat_alt CSMODE_PM_MAX_def)
  then have "spi_clock hz = Some (CSMODE_DIV16, of_nat ?q)"
    using spi_clock_slow [of hz] True assms(1) by (simp add: Let_def)
  moreover have "198000000 < 32 * unat hz * Suc ?q"
    using assms(1) by (intro div_bound) simp
  moreover have "CSMODE_DIV16 \<noteq> 0" by (simp add: CSMODE_DIV16_def)
  ultimately show ?thesis
    using q u by (simp add: algebra_simps)
next
  case False
  let ?q = "198000000 div (2 * unat hz)"
  have q: "?q \<le> 15" using assms(2) False by (simp add: less_Suc_eq_le [symmetric] div_less_iff_less_mult)
  then have u: "unat (of_nat ?q :: byte) = ?q" by (simp add: unat_of_nat)
  have "198000000 < 2 * unat hz * Suc ?q"
    using assms(1) by (intro div_bound) simp
  then show ?thesis
    using spi_clock_fast [of hz] False assms(3) q u by (simp add: algebra_simps)
qed

theorem spi_clock_bounds_witness:
  "\<exists>div16 pm. spi_clock 6500000 = Some (div16, pm) \<and> unat pm \<le> 15"
  using spi_clock_bounds [of 6500000] by auto

text \<open>
  The exceptions are real. Above 6 MHz and up to 6.1875 MHz the modulus is 16, which does not
  fit and turns into the divide-by-16 flag with modulus 0. For speeds below, the modulus is cut to
  eight bits before it is compared with its limit, so a request of 24169 Hz selects the fastest
  clock of the divide-by-16 range, and a request of 2 GHz divides by zero.
\<close>

theorem spi_clock_exceptions:
  "6000000 < unat hz \<Longrightarrow> unat hz \<le> 6187500 \<Longrightarrow>
     spi_clock hz = Some (0, 16) \<and> CSMODE_PM (ucast (16 :: byte)) = CSMODE_DIV16 \<and>
     spi_clock 24169 = Some (CSMODE_DIV16, 0) \<and> spi_clock 0x80000000 = None"
proof -
  assume a: "6000000 < unat hz" "unat hz \<le> 6187500"
  have "198000000 div (2 * unat hz) = 16"
    using a by (intro div_nat_eqI) auto
  then have "spi_clock hz = Some (0, 16)"
    using spi_clock_fast [of hz] a by simp
  moreover have "spi_clock 24169 = Some (CSMODE_DIV16, 0)" "spi_clock 0x80000000 = None"
    by (simp_all add: spi_clock_def spibrg_def CSMODE_PM_MAX_def)
  ultimately show ?thesis
    by (simp add: CSMODE_PM_def CSMODE_DIV16_def)
qed

theorem spi_clock_exceptions_witness: "spi_clock 6100000 = Some (0, 16)"
  using spi_clock_exceptions [of 6100000] by simp

section \<open>The mode register\<close>

lemma and_flags:
  "w AND SPI_CPHA = 0 \<longleftrightarrow> \<not> bit w 0" "w AND SPI_CPOL = 0 \<longleftrightarrow> \<not> bit w 1"
  "w AND SPI_LSB_FIRST = 0 \<longleftrightarrow> \<not> bit w 3"
  using and_bit_eq_0 [of w 0] and_bit_eq_0 [of w 1] and_bit_eq_0 [of w 3]
  by (simp_all add: SPI_CPHA_def SPI_CPOL_def SPI_LSB_FIRST_def)

lemma bit_single: "k < LENGTH('a) \<Longrightarrow> bit (push_bit k (1 :: 'a :: len word)) n \<longleftrightarrow> n = k"
  by (subst bit_push_bit_iff) (auto simp: bit_1_iff)

lemma bit_nibble: "bit (push_bit k (15 :: u32)) n \<longleftrightarrow> k \<le> n \<and> n < 32 \<and> n < k + 4"
proof -
  have "(15 :: u32) = mask 4" by (simp add: mask_numeral)
  then show ?thesis by (simp only: bit_push_bit_iff bit_mask_iff) auto
qed

lemma bit_if_or: "bit (if c then m OR x else m) k \<longleftrightarrow> bit m k \<or> c \<and> bit x k"
  by (simp add: bit_or_iff)

lemma csmode_bits:
  "bit CSMODE_CI_INACTIVEHIGH k \<longleftrightarrow> k = 31" "bit CSMODE_CP_BEGIN_EDGECLK k \<longleftrightarrow> k = 30"
  "bit CSMODE_REV k \<longleftrightarrow> k = 29" "bit CSMODE_DIV16 k \<longleftrightarrow> k = 28"
  "bit (CSMODE_LEN 15) k \<longleftrightarrow> 16 \<le> k \<and> k < 20" "bit (CSMODE_PM 15) k \<longleftrightarrow> 24 \<le> k \<and> k < 28"
  unfolding CSMODE_CI_INACTIVEHIGH_def CSMODE_CP_BEGIN_EDGECLK_def CSMODE_REV_def CSMODE_DIV16_def
    CSMODE_LEN_def CSMODE_PM_def bit_nibble
  by (subst bit_single; simp)+ auto

text \<open>
  The mode word the set-up writes for a chip select: polarity, phase and bit order come from
  the SPI mode, the clock fields from the divider, the length field is the word size minus one, and
  every other bit is what the register held before.
\<close>

theorem csmode_of_fields:
  assumes "spi_clock (max_speed_hz spidev) = Some (div16, pm)" "div16 \<in> {0, CSMODE_DIV16}"
    and "unat pm \<le> 15" "bits_per_word spidev \<in> {1..16}" "n < 32"
  shows "\<exists>m. csmode_of spidev hw_mode = Some m \<and>
    (bit m n \<longleftrightarrow>
       (if n = 31 then bit (spi_mode spidev) 1
        else if n = 30 then bit (spi_mode spidev) 0
        else if n = 29 then \<not> bit (spi_mode spidev) 3
        else if n = 28 then div16 \<noteq> 0
        else if 24 \<le> n then bit pm (n - 24)
        else if 16 \<le> n \<and> n < 20 then bit (bits_per_word spidev - 1) (n - 16)
        else bit hw_mode n))"
proof -
  have p: "bit (CSMODE_PM (ucast pm)) k \<longleftrightarrow> 24 \<le> k \<and> k < 28 \<and> bit pm (k - 24)" for k
    using small_bit [of pm 4 "k - 24"] assms(3) by (auto simp: CSMODE_PM_def bit_simps)
  have "unat (bits_per_word spidev - 1) < 2 ^ 4"
    using assms(4) by (simp add: unat_sub word_le_nat_alt) arith
  then have l: "bit (CSMODE_LEN (bits_per_word spidev - 1)) k \<longleftrightarrow>
      16 \<le> k \<and> k < 20 \<and> bit (bits_per_word spidev - 1) (k - 16)" for k
    using small_bit [of "bits_per_word spidev - 1" 4 "k - 16"]
    by (auto simp: CSMODE_LEN_def bit_simps)
  have d: "bit div16 k \<longleftrightarrow> k = 28 \<and> div16 \<noteq> 0" for k
    using assms(2) csmode_bits(4) [of k] csmode_bits(4) [of 28] by auto
  have m: "\<exists>m. csmode_of spidev hw_mode = Some m \<and>
      (bit m k \<longleftrightarrow>
        (bit hw_mode k \<and> k \<notin> {30, 31, 29} \<or> bit (spi_mode spidev) 0 \<and> k = 30 \<or>
           bit (spi_mode spidev) 1 \<and> k = 31 \<or> \<not> bit (spi_mode spidev) 3 \<and> k = 29) \<and>
          \<not> (16 \<le> k \<and> k < 20 \<or> k = 28 \<or> 24 \<le> k \<and> k < 28) \<or>
        16 \<le> k \<and> k < 20 \<and> bit (bits_per_word spidev - 1) (k - 16) \<or>
        k = 28 \<and> div16 \<noteq> 0 \<or> 24 \<le> k \<and> k < 28 \<and> bit pm (k - 24))" if "k < 32" for k
    using assms(1) that
    by (simp add: csmode_of_def Let_def and_flags csmode_bits p l d bit_or_iff bit_and_iff
        bit_not_iff bit_if_or split del: if_split)
  consider "n = 31" | "n = 30" | "n = 29" | "n = 28" | "24 \<le> n" "n < 28" | "20 \<le> n" "n < 24"
    | "16 \<le> n" "n < 20" | "n < 16"
    using assms(5) by linarith
  then show ?thesis
    using m [OF assms(5)] by cases simp_all
qed

theorem csmode_of_fields_witness:
  "\<exists>m. csmode_of \<lparr>chip_select = 0, max_speed_hz = 6500000, spi_mode = SPI_MODE_3,
       bits_per_word = 8, spi_reg_addr = 0x1000\<rparr> 0 = Some m \<and> bit m 31"
proof -
  have "spi_clock 6500000 = Some (0, 15)"
    by (simp add: spi_clock_def spibrg_def)
  then show ?thesis
    using csmode_of_fields [of "\<lparr>chip_select = 0, max_speed_hz = 6500000, spi_mode = SPI_MODE_3,
       bits_per_word = 8, spi_reg_addr = 0x1000\<rparr>" 0 15 31 0]
    by (simp add: SPI_MODE_3_def SPI_CPOL_def SPI_CPHA_def bit_simps)
qed

end
