(* ===== verification/Spidrv.thy ===== *)
theory Spidrv
  imports Espi
begin

text \<open>
  The user-space access library for the FPGA and the clock chip (\<open>drivers/spidrv/spidrv.c\<close>).
  Every operation runs between taking and giving back one system-wide semaphore; the definitions
  model what happens while it is held. Pointers to data are \<^typ>\<open>byte list option\<close>, the list
  being the object pointed to and \<^term>\<open>None\<close> the null pointer.
\<close>

section \<open>Frames\<close>

definition CHIPSELECT_FPGA :: u32 where "CHIPSELECT_FPGA = 0"
definition CHIPSELECT_DPLL :: u32 where "CHIPSELECT_DPLL = 1"
definition CHIPSELECT_EPCS :: u32 where "CHIPSELECT_EPCS = 2"
definition SPI_FPGA_WR_SINGLE :: byte where "SPI_FPGA_WR_SINGLE = 1"
definition SPI_FPGA_WR_BURST :: byte where "SPI_FPGA_WR_BURST = 2"
definition SPI_FPGA_RD_BURST :: byte where "SPI_FPGA_RD_BURST = 3"
definition SPI_FPGA_RD_SINGLE :: byte where "SPI_FPGA_RD_SINGLE = 5"
definition MULTI_REG_LEN_MAX :: nat where "MULTI_REG_LEN_MAX = 512"

lemmas spidrv_consts = CHIPSELECT_FPGA_def CHIPSELECT_DPLL_def CHIPSELECT_EPCS_def
  SPI_FPGA_WR_SINGLE_def SPI_FPGA_WR_BURST_def SPI_FPGA_RD_BURST_def SPI_FPGA_RD_SINGLE_def
  MULTI_REG_LEN_MAX_def

text \<open>The first two bytes of a frame to the clock chip: 14 address bits, read and burst flags.\<close>

definition dpll_address :: "u16 \<Rightarrow> u16" where
  "dpll_address addr = push_bit 1 addr AND 0x7ffe"

definition mix_spi_write ::
  "'h spi_hw \<Rightarrow> spi_device \<Rightarrow> u16 \<Rightarrow> byte list option \<Rightarrow> nat \<Rightarrow> 'h \<Rightarrow> (int \<times> 'h) option" where
  "mix_spi_write hw spi addr data count h =
     (let rxbuf = replicate (MULTI_REG_LEN_MAX + 2) 0;
          txbuf = replicate (MULTI_REG_LEN_MAX + 2) 0
      in case data of
           None \<Rightarrow> Some (- 1, h)
         | Some d \<Rightarrow>
             if MULTI_REG_LEN_MAX < count then Some (- 1, h)
             else
               (let transfer = (\<lambda>txbuf len.
                  map_option (\<lambda>(ret, rxbuf, h). (if ret < 0 then - 1 else 0, h))
                    (spi_transfer hw spi txbuf rxbuf len h))
                in if chip_select spi = CHIPSELECT_FPGA then do {
                     bs \<leftarrow> memread_at d 0 count;
                     txbuf \<leftarrow> memcpy_at (txbuf
                       [0 := if count = 1 then SPI_FPGA_WR_SINGLE else SPI_FPGA_WR_BURST,
                        1 := hi8 addr, 2 := lo8 addr]) 3 bs;
                     transfer txbuf (int count + 4)
                   }
                   else if chip_select spi = CHIPSELECT_DPLL then do {
                     bs \<leftarrow> memread_at d 0 count;
                     txbuf \<leftarrow> memcpy_at (txbuf
                       [0 := hi8 (dpll_address addr) AND NOT 0x80,
                        1 := (if 1 < count then lo8 (dpll_address addr) OR 1
                              else lo8 (dpll_address addr))]) 2 bs;
                     transfer txbuf (int count + 2)
                   }
                   else if chip_select spi = CHIPSELECT_EPCS then transfer txbuf 0
                   else Some (- 1, h)))"

definition mix_spi_read ::
  "'h spi_hw \<Rightarrow> spi_device \<Rightarrow> u16 \<Rightarrow> byte list option \<Rightarrow> nat \<Rightarrow> 'h
     \<Rightarrow> (int \<times> byte list option \<times> 'h) option" where
  "mix_spi_read hw spi addr data count h =
     (let rxbuf = replicate (MULTI_REG_LEN_MAX + 2) 0;
          txbuf = replicate (MULTI_REG_LEN_MAX + 2) 0
      in case data of
           None \<Rightarrow> Some (- 1, data, h)
         | Some d \<Rightarrow>
             if MULTI_REG_LEN_MAX < count then Some (- 1, data, h)
             else
               (let transfer = (\<lambda>txbuf len off n. do {
                  (ret, rxbuf, h) \<leftarrow> spi_transfer hw spi txbuf rxbuf len h;
                  if ret < 0 then Some (- 1, data, h)
                  else do {
                    bs \<leftarrow> memread_at rxbuf off n;
                    d \<leftarrow> memcpy_at d 0 bs;
                    Some (0, Some d, h)
                  }
                })
                in if chip_select spi = CHIPSELECT_FPGA then
                     transfer (txbuf
                       [0 := if count = 1 then SPI_FPGA_RD_SINGLE else SPI_FPGA_RD_BURST,
                        1 := hi8 addr, 2 := lo8 addr, 3 := 0]) (int count + 4) 4 count
                   else if chip_select spi = CHIPSELECT_DPLL then
                     transfer (txbuf
                       [0 := hi8 (dpll_address addr) OR 0x80,
                        1 := (if 1 < count then lo8 (dpll_address addr) OR 1
                              else lo8 (dpll_address addr))]) (int count + 2) 2 count
                   else if chip_select spi = CHIPSELECT_EPCS then transfer txbuf 0 0 0
                   else Some (- 1, data, h)))"

section \<open>The four access functions\<close>

definition select_dev :: "u32 \<Rightarrow> spi_device \<Rightarrow> spi_device" where
  "select_dev cs spidev =
     spidev\<lparr>max_speed_hz := 6500000, chip_select := cs, spi_mode := SPI_MODE_3,
            bits_per_word := 8\<rparr>"

definition fpga_spi_read ::
  "'h spi_hw \<Rightarrow> u16 \<Rightarrow> byte list option \<Rightarrow> nat \<Rightarrow> spi_device \<times> 'h
     \<Rightarrow> (int \<times> byte list option \<times> spi_device \<times> 'h) option" where
  "fpga_spi_read hw addr data count s = do {
     let (spidev, h) = s;
     (r, spidev, h) \<leftarrow> spi_setup hw (select_dev CHIPSELECT_FPGA spidev) h;
     (r, data, h) \<leftarrow> mix_spi_read hw spidev addr data count h;
     Some (0, data, spidev, h)
   }"

definition fpga_spi_write ::
  "'h spi_hw \<Rightarrow> u16 \<Rightarrow> byte list option \<Rightarrow> nat \<Rightarrow> spi_device \<times> 'h
     \<Rightarrow> (int \<times> spi_device \<times> 'h) option" where
  "fpga_spi_write hw addr data count s = do {
     let (spidev, h) = s;
     (r, spidev, h) \<leftarrow> spi_setup hw (select_dev CHIPSELECT_FPGA spidev) h;
     (r, h) \<leftarrow> mix_spi_write hw spidev addr data count h;
     Some (0, spidev, h)
   }"

text \<open>The read loop: pieces of two bytes at \<open>addr + 2 i\<close> into \<open>data + 2 i\<close>.\<close>

fun dpll_read_loop ::
  "'h spi_hw \<Rightarrow> spi_device \<Rightarrow> u16 \<Rightarrow> byte list \<Rightarrow> nat \<Rightarrow> nat \<Rightarrow> 'h \<Rightarrow> (byte list \<times> 'h) option" where
  "dpll_read_loop hw spidev addr d i 0 h = Some (d, h)"
| "dpll_read_loop hw spidev addr d i (Suc n) h = do {
     (r, p, h) \<leftarrow> mix_spi_read hw spidev (addr + of_nat (2 * i)) (Some (drop (2 * i) d)) 2 h;
     dpll_read_loop hw spidev addr (take (2 * i) d @ (case p of None \<Rightarrow> [] | Some e \<Rightarrow> e)) (i + 1) n h
   }"

definition dpll_spi_read ::
  "'h spi_hw \<Rightarrow> u16 \<Rightarrow> byte list \<Rightarrow> nat \<Rightarrow> spi_device \<times> 'h
     \<Rightarrow> (int \<times> byte list \<times> spi_device \<times> 'h) option" where
  "dpll_spi_read hw addr data count s = do {
     let (spidev, h) = s;
     (r, spidev, h) \<leftarrow> spi_setup hw (select_dev CHIPSELECT_DPLL spidev) h;
     let loop = (if count mod 2 = 0 then count div 2 else (count + 1) div 2);
     (data, h) \<leftarrow> dpll_read_loop hw spidev addr data 0 loop h;
     Some (0, data, spidev, h)
   }"

definition dpll_spi_write ::
  "'h spi_hw \<Rightarrow> u16 \<Rightarrow> byte list option \<Rightarrow> nat \<Rightarrow> spi_device \<times> 'h
     \<Rightarrow> (int \<times> spi_device \<times> 'h) option" where
  "dpll_spi_write hw addr data count s = do {
     let (spidev, h) = s;
     (r, spidev, h) \<leftarrow> spi_setup hw (select_dev CHIPSELECT_DPLL spidev) h;
     (r, h) \<leftarrow> mix_spi_write hw spidev addr data count h;
     Some (0, spidev, h)
   }"

section \<open>Initialisation\<close>

text \<open>
  The operating system's answers are arguments: whether the semaphore was new, whether opening an
  existing one worked, whether \<open>/dev/mem\<close> could be opened, and the address the mapping returned.
\<close>

record spidrv_os =
  sem_created :: bool
  sem_opened :: bool
  mem_opened :: bool
  mem_addr :: u32

record spidrv_sem =
  sem_val :: "int option"

definition spidrv_semlock_init :: "spidrv_os \<Rightarrow> spidrv_sem \<Rightarrow> int \<times> spidrv_sem" where
  "spidrv_semlock_init os s =
     (if sem_created os then (0, s\<lparr>sem_val := Some 1\<rparr>)
      else if sem_opened os then (0, s) else (- 1, s))"

definition spidrv_mmap_init :: "spidrv_os \<Rightarrow> spi_device \<Rightarrow> int \<times> spi_device" where
  "spidrv_mmap_init os d =
     (if \<not> mem_opened os then (- 1, d)
      else (let d = d\<lparr>spi_reg_addr := mem_addr os\<rparr>
            in if spi_reg_addr d = 0 then (- 1, d) else (0, d)))"

fun setup_loop :: "'h spi_hw \<Rightarrow> nat \<Rightarrow> nat \<Rightarrow> spi_device \<Rightarrow> 'h \<Rightarrow> (spi_device \<times> 'h) option" where
  "setup_loop hw i 0 d h = Some (d, h)"
| "setup_loop hw i (Suc n) d h = do {
     (r, d, h) \<leftarrow> spi_setup hw (select_dev (of_nat i) d) h;
     setup_loop hw (i + 1) n d h
   }"

definition spidrv_setup_init :: "'h spi_hw \<Rightarrow> spi_device \<Rightarrow> 'h \<Rightarrow> (int \<times> spi_device \<times> 'h) option"
where
  "spidrv_setup_init hw d h = do {
     let (r, h) = spi_dev_init hw d h;
     (d, h) \<leftarrow> setup_loop hw 0 4 d h;
     Some (0, d, h)
   }"

definition spidrv_init ::
  "'h spi_hw \<Rightarrow> spidrv_os \<Rightarrow> spidrv_sem \<Rightarrow> 'h \<Rightarrow> (int \<times> spidrv_sem \<times> spi_device \<times> 'h) option" where
  "spidrv_init hw os sem h =
     (let d = \<lparr>chip_select = 0, max_speed_hz = 0, spi_mode = 0, bits_per_word = 0,
               spi_reg_addr = 0\<rparr>;
          (r, sem) = spidrv_semlock_init os sem
      in if r \<noteq> 0 then Some (- 1, sem, d, h)
         else
           (let (r, d) = spidrv_mmap_init os d
            in if r \<noteq> 0 then Some (- 1, sem, d, h)
               else do {
                 (r, d, h) \<leftarrow> spidrv_setup_init hw d h;
                 if r \<noteq> 0 then Some (- 1, sem, d, h) else Some (0, sem, d, h)
               }))"

section \<open>Frames over a working controller\<close>

lemma replicate_3: "replicate (n + 3) x = x # x # x # replicate n x"
  by (simp add: numeral_3_eq_3)

lemma replicate_514:
  "replicate 514 x = x # x # x # replicate 511 x" "replicate 514 x = x # x # x # x # replicate 510 x"
  using replicate_3 [of 511 x] replicate_Suc [of 510 x] by simp_all

lemma nwords_plus:
  "nwords (int c + 4) = (c + 7) div 4" "nwords (int c + 2) = (if c \<le> 2 then 1 else (c + 5) div 4)"
proof -
  have "nat ((int c + 7) div 4) = (c + 7) div 4" "nat ((int c + 5) div 4) = (c + 5) div 4"
    by (simp_all add: nat_div_distrib nat_add_distrib)
  then show "nwords (int c + 4) = (c + 7) div 4"
    "nwords (int c + 2) = (if c \<le> 2 then 1 else (c + 5) div 4)"
    by (auto simp: nwords_def add.commute)
qed

lemma nwords_le:
  "4 * nwords (int c + 4) \<le> 514 \<longleftrightarrow> c \<le> 508" "4 * nwords (int c + 2) \<le> 514 \<longleftrightarrow> c \<le> 510"
  "c + 4 \<le> 4 * nwords (int c + 4)" "c + 2 \<le> 4 * nwords (int c + 2)"
  unfolding nwords_plus by presburger+

definition fpga_write_frame :: "u16 \<Rightarrow> byte list \<Rightarrow> byte list" where
  "fpga_write_frame addr bs =
     [if length bs = 1 then 1 else 2, hi8 addr, lo8 addr] @ bs @ replicate (511 - length bs) 0"

definition fpga_read_frame :: "u16 \<Rightarrow> nat \<Rightarrow> byte list" where
  "fpga_read_frame addr count =
     [if count = 1 then 5 else 3, hi8 addr, lo8 addr, 0] @ replicate 510 0"

lemma memcpy_frame:
  assumes "count \<le> 511" "count \<le> length d"
  shows "memcpy_at ((replicate 514 0)[0 := a, 1 := b, 2 := c]) 3 (take count d) =
    Some ([a, b, c] @ take count d @ replicate (511 - count) 0)"
  using assms by (simp add: replicate_514(1) memcpy_at_def numeral_3_eq_3)

text \<open>
  Writing registers of the FPGA: over a working controller a write of up to 508 bytes returns
  0 and the slave has seen the frame, the command byte (single or burst), the address with the high
  byte first, then the data. From 509 to 512 bytes, which the length check lets pass, the frame
  does not fit the buffers of 514 bytes and the call accesses memory outside them.
\<close>

theorem mix_spi_write_fpga:
  assumes "espi_contract hw dev fifo xchg" "fifo h = None"
    and "chip_select spi = CHIPSELECT_FPGA" "count \<le> length d" "count \<le> 512"
  shows "if count \<le> 508
    then \<exists>h'. mix_spi_write hw spi addr (Some d) count h = Some (0, h') \<and> fifo h' = None \<and>
      dev h' = snd (run_list xchg
        (words_at (fpga_write_frame addr (take count d)) 0 (nwords (int count + 4))) (dev h))
    else mix_spi_write hw spi addr (Some d) count h = None"
proof (cases "count = 512")
  case True
  then have "memcpy_at ((replicate 514 0)
      [0 := SPI_FPGA_WR_BURST, 1 := hi8 addr, 2 := lo8 addr]) 3 (take count d) = None"
    using assms(4) by (simp add: memcpy_at_def)
  then show ?thesis
    using True assms(3,4)
    by (simp add: mix_spi_write_def MULTI_REG_LEN_MAX_def memread_at_def)
next
  case False
  let ?f = "fpga_write_frame addr (take count d)"
  let ?n = "nwords (int count + 4)"
  have f: "memcpy_at ((replicate 514 0)
      [0 := if count = 1 then SPI_FPGA_WR_SINGLE else SPI_FPGA_WR_BURST,
       1 := hi8 addr, 2 := lo8 addr]) 3 (take count d) = Some ?f"
    using False assms(4,5)
    by (subst memcpy_frame) (auto simp: fpga_write_frame_def spidrv_consts)
  have l: "length ?f = 514"
    using False assms(4,5) by (simp add: fpga_write_frame_def)
  obtain rs e where r: "run_list xchg (words_at ?f 0 ?n) (dev h) = (rs, e)" by fastforce
  have m: "mix_spi_write hw spi addr (Some d) count h =
      map_option (\<lambda>(ret, rxbuf, h). (if ret < 0 then - 1 else 0, h))
        (spi_transfer hw spi ?f (replicate 514 0) (int count + 4) h)"
    using f assms(3,4,5)
    by (simp add: mix_spi_write_def MULTI_REG_LEN_MAX_def memread_at_def)
  show ?thesis
    using spi_transfer_exchange [OF assms(1,2) r, of "replicate 514 0" spi] l nwords_le(1) [of count] r
    by (auto simp: m split: if_splits)
qed

definition demo_spi :: spi_device where
  "demo_spi = \<lparr>chip_select = 0, max_speed_hz = 6500000, spi_mode = SPI_MODE_3,
     bits_per_word = 8, spi_reg_addr = 0x1000\<rparr>"

lemma demo_spi_sel [simp]: "chip_select demo_spi = CHIPSELECT_FPGA"
  by (simp add: demo_spi_def CHIPSELECT_FPGA_def)

theorem mix_spi_write_fpga_witness:
  "\<exists>h'. mix_spi_write (demo_espi (\<lambda>w d. (0, d @ [w]))) demo_spi 0x1040 (Some [1, 2, 3, 4]) 4
      ([], None) = Some (0, h') \<and> fst h' = [0x02104001, 0x02030400]"
proof -
  have "nwords (int 4 + 4) = 2" by (simp add: nwords_def)
  moreover have "words_at (fpga_write_frame 0x1040 [1, 2, 3, 4]) 0 2 = [0x02104001, 0x02030400]"
    by (simp add: words_at_def upt_rec be32_at_def of_be32_def fpga_write_frame_def hi8_def lo8_def)
  ultimately show ?thesis
    using mix_spi_write_fpga [OF demo_espi_contract, of "([], None)" demo_spi 4 "[1, 2, 3, 4]"
        "\<lambda>w d. (0, d @ [w])" "0x1040"]
    by auto
qed

text \<open>
  Reading registers of the FPGA: over a working controller a read of up to 508 bytes returns 0
  and puts the bytes the slave sent from the fifth on into the caller's buffer, nothing else of
  which changes; from 509 to 512 bytes the call accesses memory outside its buffers.
\<close>

theorem mix_spi_read_fpga:
  assumes "espi_contract hw dev fifo xchg" "fifo h = None"
    and "chip_select spi = CHIPSELECT_FPGA" "count \<le> length d" "count \<le> 512"
    and "run_list xchg (words_at (fpga_read_frame addr count) 0 (nwords (int count + 4))) (dev h)
      = (rs, e)"
  shows "if count \<le> 508
    then \<exists>h'. mix_spi_read hw spi addr (Some d) count h =
        Some (0, Some (take count (drop 4 (concat (map be32 rs))) @ drop count d), h') \<and>
      fifo h' = None \<and> dev h' = e
    else mix_spi_read hw spi addr (Some d) count h = None"
proof -
  let ?f = "fpga_read_frame addr count"
  let ?n = "nwords (int count + 4)"
  have "(replicate 514 0)
      [0 := if count = 1 then SPI_FPGA_RD_SINGLE else SPI_FPGA_RD_BURST,
       1 := hi8 addr, 2 := lo8 addr, 3 := 0] = ?f"
    by (simp add: replicate_514(2) fpga_read_frame_def spidrv_consts eval_nat_numeral)
  then have m: "mix_spi_read hw spi addr (Some d) count h = do {
      (ret, rxbuf, h) \<leftarrow> spi_transfer hw spi ?f (replicate 514 0) (int count + 4) h;
      if ret < 0 then Some (- 1, Some d, h)
      else do {
        bs \<leftarrow> memread_at rxbuf 4 count;
        d \<leftarrow> memcpy_at d 0 bs;
        Some (0, Some d, h)
      }
    }"
    using assms(3,5) by (simp add: mix_spi_read_def MULTI_REG_LEN_MAX_def)
  have l: "length ?f = 514" by (simp add: fpga_read_frame_def)
  have r: "length rs = ?n"
    using length_run_list [of xchg "words_at ?f 0 ?n" "dev h"] assms(6) by (simp add: words_at_def)
  show ?thesis
    using spi_transfer_exchange [OF assms(1,2,6), of "replicate 514 0" spi] l assms(4) r
      nwords_le(1,3) [of count]
    by (auto simp: m memread_at_def memcpy_at_def split: if_splits)
qed

theorem mix_spi_read_fpga_witness:
  "\<exists>h'. mix_spi_read (demo_espi (\<lambda>w d. (0x11223344, d @ [w]))) demo_spi 0x1040
      (Some [0, 0, 9]) 2 ([], None) = Some (0, Some [0x11, 0x22, 9], h')"
proof -
  have n: "nwords (int 2 + 4) = 2" by (simp add: nwords_def)
  have w: "words_at (fpga_read_frame 0x1040 2) 0 2 = [0x03104000, 0]"
    by (simp add: words_at_def upt_rec be32_at_def of_be32_def fpga_read_frame_def hi8_def lo8_def)
  have "run_list (\<lambda>w d. (0x11223344 :: u32, d @ [w])) (words_at (fpga_read_frame 0x1040 2) 0
      (nwords (int 2 + 4))) (fst ([], None :: (u32 \<times> nat) option)) =
      ([0x11223344, 0x11223344], [0x03104000, 0])"
    unfolding n w by simp
  from mix_spi_read_fpga [OF demo_espi_contract _ _ _ _ this, of demo_spi "[0, 0, 9]"] show ?thesis
    by (auto simp: be32_def)
qed

section \<open>The access functions\<close>

lemma select_dev_sel [simp]:
  "chip_select (select_dev cs d) = cs" "max_speed_hz (select_dev cs d) = 6500000"
  "bits_per_word (select_dev cs d) = 8" "spi_mode (select_dev cs d) = SPI_MODE_3"
  "spi_reg_addr (select_dev cs d) = spi_reg_addr d"
  by (simp_all add: select_dev_def)

lemma csmode_of_select: "\<exists>m. csmode_of (select_dev cs d) hw_mode = Some m"
proof -
  have "spi_clock 6500000 = Some (0, 15)"
    by (simp add: spi_clock_def spibrg_def)
  then show ?thesis by (simp add: csmode_of_def Let_def)
qed

lemma spi_setup_select:
  assumes "espi_contract hw dev fifo xchg" "unat cs < 4"
  shows "\<exists>h'. spi_setup hw (select_dev cs d) h = Some (0, select_dev cs d, h') \<and>
    fifo h' = fifo h \<and> dev h' = dev h"
proof -
  obtain v h1 where 1: "reg_rd hw (R_csmode (unat cs)) h = (v, h1)" by fastforce
  obtain m where 2: "csmode_of (select_dev cs d) v = Some m" using csmode_of_select by blast
  obtain w h2 where 3: "reg_rd hw R_mode h1 = (w, h2)" by fastforce
  have "fifo h2 = fifo h" "dev h2 = dev h"
    using contract_control(3,4) [OF assms(1), of "R_csmode (unat cs)" "unat cs" h]
      contract_control(3,4) [OF assms(1), of R_mode 0 h1] 1 3 by auto
  then show ?thesis
    using assms(2) 1 2 3 contract_control(1,2) [OF assms(1)]
    by (simp add: spi_setup_def)
qed

text \<open>
  The access functions report success whatever happened: a read from the FPGA with a null
  pointer or with more than 512 bytes returns 0 without having addressed the FPGA at all, and the
  caller's buffer is unchanged.
\<close>

theorem fpga_spi_read_hides_errors:
  assumes "espi_contract hw dev fifo xchg" "data = None \<or> 512 < count"
  shows "\<exists>h'. fpga_spi_read hw addr data count (d, h) =
    Some (0, data, select_dev CHIPSELECT_FPGA d, h') \<and> dev h' = dev h"
proof -
  obtain h1 where s: "spi_setup hw (select_dev CHIPSELECT_FPGA d) h =
      Some (0, select_dev CHIPSELECT_FPGA d, h1)" "dev h1 = dev h"
    using spi_setup_select [OF assms(1), of CHIPSELECT_FPGA d h]
    by (auto simp: CHIPSELECT_FPGA_def)
  moreover have "mix_spi_read hw (select_dev CHIPSELECT_FPGA d) addr data count h1 =
      Some (- 1, data, h1)"
    using assms(2) by (cases data) (auto simp: mix_spi_read_def MULTI_REG_LEN_MAX_def Let_def)
  ultimately show ?thesis by (simp add: fpga_spi_read_def)
qed

theorem fpga_spi_read_hides_errors_witness:
  "\<exists>h'. fpga_spi_read (demo_espi (\<lambda>w d. (0, d @ [w]))) 0x10 None 4 (demo_spi, ([], None)) =
     Some (0, None, select_dev CHIPSELECT_FPGA demo_spi, h') \<and> fst h' = []"
  using fpga_spi_read_hides_errors [OF demo_espi_contract,
      of None 4 "\<lambda>w d. (0, d @ [w])" "0x10" demo_spi "([], None)"]
  by simp

text \<open>What reading the clock chip should return: a two-byte burst per register pair.\<close>

definition dpll_word :: "u16 \<Rightarrow> u32" where
  "dpll_word addr = of_be32 (hi8 (dpll_address addr) OR 0x80) (lo8 (dpll_address addr) OR 1) 0 0"

fun dpll_read_spec ::
  "(u32 \<Rightarrow> 'd \<Rightarrow> u32 \<times> 'd) \<Rightarrow> u16 \<Rightarrow> nat \<Rightarrow> nat \<Rightarrow> 'd \<Rightarrow> byte list \<times> 'd" where
  "dpll_read_spec xchg addr i 0 e = ([], e)"
| "dpll_read_spec xchg addr i (Suc n) e =
     (let (w, e) = xchg (dpll_word (addr + of_nat (2 * i))) e;
          (bs, e) = dpll_read_spec xchg addr (i + 1) n e
      in (drop 2 (be32 w) @ bs, e))"

lemma mix_spi_read_dpll:
  assumes "espi_contract hw dev fifo xchg" "fifo h = None" "chip_select spi = CHIPSELECT_DPLL"
    and "xchg (dpll_word addr) (dev h) = (w, e)"
  shows "if 2 \<le> length d
    then \<exists>h'. mix_spi_read hw spi addr (Some d) 2 h =
        Some (0, Some (drop 2 (be32 w) @ drop 2 d), h') \<and> fifo h' = None \<and> dev h' = e
    else mix_spi_read hw spi addr (Some d) 2 h = None"
proof -
  let ?f = "(replicate 514 0)[0 := hi8 (dpll_address addr) OR 0x80, 1 := lo8 (dpll_address addr) OR 1]"
  have m: "mix_spi_read hw spi addr (Some d) 2 h = do {
      (ret, rxbuf, h) \<leftarrow> spi_transfer hw spi ?f (replicate 514 0) 4 h;
      if ret < 0 then Some (- 1, Some d, h)
      else do {
        bs \<leftarrow> memread_at rxbuf 2 2;
        d \<leftarrow> memcpy_at d 0 bs;
        Some (0, Some d, h)
      }
    }"
    using assms(3) by (simp add: mix_spi_read_def spidrv_consts)
  have n: "nwords 4 = 1" by (simp add: nwords_def)
  have "words_at ?f 0 1 = [dpll_word addr]"
    by (simp add: words_at_def replicate_514(2) be32_at_def dpll_word_def)
  then have "run_list xchg (words_at ?f 0 (nwords 4)) (dev h) = ([w], e)"
    using assms(4) n by simp
  from spi_transfer_exchange [OF assms(1,2) this, of "replicate 514 0" spi]
  obtain h' where t: "spi_transfer hw spi ?f (replicate 514 0) 4 h =
      Some (0, be32 w @ replicate 510 0, h')" "fifo h' = None" "dev h' = e"
    by (auto simp: n)
  have b: "memread_at (be32 w @ replicate 510 0) 2 2 = Some (drop 2 (be32 w))"
    by (simp add: memread_at_def be32_def)
  have c: "memcpy_at d 0 (drop 2 (be32 w)) =
      (if 2 \<le> length d then Some (drop 2 (be32 w) @ drop 2 d) else None)"
    by (simp add: memcpy_at_def numeral_2_eq_2 [symmetric] del: numeral_2_eq_2)
  show ?thesis
    using t by (simp add: m b c)
qed

lemma dpll_read_loop_spec:
  assumes c: "espi_contract hw dev fifo xchg" and cs: "chip_select spi = CHIPSELECT_DPLL"
  shows "fifo h = None \<Longrightarrow> 2 * i \<le> length d \<Longrightarrow>
    dpll_read_spec xchg addr i n (dev h) = (bs, e) \<Longrightarrow>
    (if 2 * (i + n) \<le> length d
     then \<exists>h'. dpll_read_loop hw spi addr d i n h =
         Some (take (2 * i) d @ bs @ drop (2 * (i + n)) d, h') \<and> fifo h' = None \<and> dev h' = e
     else dpll_read_loop hw spi addr d i n h = None)"
proof (induction n arbitrary: i d h bs)
  case (Suc n)
  let ?a = "addr + of_nat (2 * i)"
  obtain w e1 where x: "xchg (dpll_word ?a) (dev h) = (w, e1)" by fastforce
  obtain bs' where bs: "dpll_read_spec xchg addr (i + 1) n e1 = (bs', e)"
    "bs = drop 2 (be32 w) @ bs'"
    using Suc.prems(3) x by (auto split: prod.splits)
  note m = mix_spi_read_dpll [OF c Suc.prems(1) cs x, of "drop (2 * i) d"]
  show ?case
  proof (cases "2 * (i + 1) \<le> length d")
    case True
    then have "2 \<le> length (drop (2 * i) d)" by simp
    from m [unfolded if_P [OF this]]
    obtain h1 where h1: "mix_spi_read hw spi ?a (Some (drop (2 * i) d)) 2 h =
        Some (0, Some (drop 2 (be32 w) @ drop 2 (drop (2 * i) d)), h1)" "fifo h1 = None" "dev h1 = e1"
      by blast
    define d' where "d' = take (2 * i) d @ drop 2 (be32 w) @ drop (2 * i + 2) d"
    have l: "length d' = length d"
      and t: "take (2 * (i + 1)) d' = take (2 * i) d @ drop 2 (be32 w)"
      and r: "drop (2 * (i + 1 + n)) d' = drop (2 * (i + Suc n)) d"
      using True by (simp_all add: d'_def be32_def add.commute)
    have e: "dpll_read_loop hw spi addr d i (Suc n) h = dpll_read_loop hw spi addr d' (i + 1) n h1"
      using h1(1) by (simp add: d'_def add.commute)
    have "if 2 * (i + 1 + n) \<le> length d'
      then \<exists>h'. dpll_read_loop hw spi addr d' (i + 1) n h1 =
        Some (take (2 * (i + 1)) d' @ bs' @ drop (2 * (i + 1 + n)) d', h') \<and>
        fifo h' = None \<and> dev h' = e
      else dpll_read_loop hw spi addr d' (i + 1) n h1 = None"
      using Suc.IH [OF h1(2), of "i + 1" d' bs'] True bs(1) h1(3) l by simp
    then show ?thesis
      unfolding e bs(2) t r l by (cases "2 * (i + Suc n) \<le> length d") simp_all
  next
    case False
    then have "\<not> 2 \<le> length (drop (2 * i) d)" by simp
    from m [unfolded if_not_P [OF this]]
    have "dpll_read_loop hw spi addr d i (Suc n) h = None" by simp
    then show ?thesis using False by auto
  qed
qed auto

text \<open>
  Reading the clock chip: the caller's buffer receives, register pair by register pair, the
  answers of the chip to a two-byte burst read. The count is rounded up to an even number, so a
  read of an odd count into a buffer of just that size writes one byte past its end.
\<close>

theorem dpll_spi_read_pairs:
  assumes "espi_contract hw dev fifo xchg" "fifo h = None"
    and "dpll_read_spec xchg addr 0 ((count + 1) div 2) (dev h) = (bs, e)"
  shows "if 2 * ((count + 1) div 2) \<le> length data
    then \<exists>h'. dpll_spi_read hw addr data count (d, h) =
        Some (0, bs @ drop (2 * ((count + 1) div 2)) data, select_dev CHIPSELECT_DPLL d, h') \<and>
      dev h' = e
    else dpll_spi_read hw addr data count (d, h) = None"
proof -
  obtain h1 where s: "spi_setup hw (select_dev CHIPSELECT_DPLL d) h =
      Some (0, select_dev CHIPSELECT_DPLL d, h1)" "fifo h1 = None" "dev h1 = dev h"
    using spi_setup_select [OF assms(1), of CHIPSELECT_DPLL d h] assms(2)
    by (auto simp: CHIPSELECT_DPLL_def)
  have k: "(if count mod 2 = 0 then count div 2 else (count + 1) div 2) = (count + 1) div 2"
    by presburger
  show ?thesis
    using dpll_read_loop_spec [OF assms(1) _ s(2), of "select_dev CHIPSELECT_DPLL d" 0 data addr
        "(count + 1) div 2" bs e] s assms(3)
    by (auto simp: dpll_spi_read_def k split: if_splits)
qed

theorem dpll_spi_read_pairs_witness:
  "dpll_spi_read (demo_espi (\<lambda>w d. (w, d))) 0 [0] 1 (demo_spi, ((), None)) = None"
  using dpll_spi_read_pairs [OF demo_espi_contract, of "((), None)" "\<lambda>w d. (w, d)" 0 1
      "drop 2 (be32 (dpll_word 0))" "()" "[0]" demo_spi]
  by simp

section \<open>Initialisation\<close>

text \<open>The mode registers hold what was last written to them; \<open>get\<close> reads the register file.\<close>

definition plain_regs :: "'h spi_hw \<Rightarrow> ('h \<Rightarrow> spi_reg \<Rightarrow> u32) \<Rightarrow> bool" where
  "plain_regs hw get \<longleftrightarrow>
     (\<forall>h. reg_rd hw R_mode h = (get h R_mode, h)) \<and>
     (\<forall>h i. reg_rd hw (R_csmode i) h = (get h (R_csmode i), h)) \<and>
     (\<forall>h r v. r \<noteq> R_event \<longrightarrow> get (reg_wr hw r v h) = (get h)(r := v)) \<and>
     (\<forall>h v i. get (reg_wr hw R_event v h) R_mode = get h R_mode \<and>
        get (reg_wr hw R_event v h) (R_csmode i) = get h (R_csmode i))"

lemma csmode_of_init: "csmode_of (select_dev cs d) 0x80100008 = Some 0xEF170008"
proof -
  have "spi_clock 6500000 = Some (0, 15)"
    by (simp add: spi_clock_def spibrg_def)
  then show ?thesis
    by (simp add: csmode_of_def Let_def espi_consts)
qed

lemma spi_setup_plain:
  assumes "plain_regs hw get" "i < 4" "get h (R_csmode i) = 0x80100008"
  shows "\<exists>h'. spi_setup hw (select_dev (of_nat i) d) h = Some (0, select_dev (of_nat i) d, h') \<and>
    get h' R_mode = get h R_mode \<and>
    (\<forall>j. get h' (R_csmode j) = (if j = i then 0xEF170008 else get h (R_csmode j)))"
proof -
  have "unat (of_nat i :: u32) = i" using assms(2) by (simp add: unat_of_nat)
  then show ?thesis
    using assms csmode_of_init [of "of_nat i" d]
    by (simp add: spi_setup_def plain_regs_def)
qed

lemma setup_loop_plain:
  assumes p: "plain_regs hw get"
  shows "i + n = 4 \<Longrightarrow> (\<And>j. i \<le> j \<Longrightarrow> j < 4 \<Longrightarrow> get h (R_csmode j) = 0x80100008) \<Longrightarrow>
    (\<And>j. j < i \<Longrightarrow> get h (R_csmode j) = 0xEF170008) \<Longrightarrow>
    \<exists>d' h'. setup_loop hw i n d h = Some (d', h') \<and> get h' R_mode = get h R_mode \<and>
      (\<forall>j < 4. get h' (R_csmode j) = 0xEF170008)"
proof (induction n arbitrary: i d h)
  case (Suc n)
  then obtain h1 where h1: "spi_setup hw (select_dev (of_nat i) d) h =
      Some (0, select_dev (of_nat i) d, h1)" "get h1 R_mode = get h R_mode"
    "\<And>j. get h1 (R_csmode j) = (if j = i then 0xEF170008 else get h (R_csmode j))"
    using spi_setup_plain [OF p, of i h d] by auto
  have "get h1 (R_csmode j) = 0xEF170008" if "j < i + 1" for j
    using that Suc.prems(3) h1(3) by (cases "j = i") auto
  then show ?case
    using Suc.IH [of "i + 1" h1 "select_dev (of_nat i) d"] Suc.prems(1,2) h1 by auto
qed auto

lemma spi_dev_init_plain:
  assumes "plain_regs hw get" "spi_reg_addr d \<noteq> 0"
  shows "\<exists>h'. spi_dev_init hw d h = (0, h') \<and> get h' R_mode = 0x80000403 \<and>
    (\<forall>j < 4. get h' (R_csmode j) = 0x80100008)"
proof -
  have "SPMODE_INIT_VAL OR SPMODE_ENABLE = 0x80000403" "CSMODE_INIT_VAL = 0x80100008"
    by (simp_all add: espi_consts)
  moreover have "j < 4 \<Longrightarrow> j = 0 \<or> j = 1 \<or> j = 2 \<or> j = 3" for j :: nat by auto
  ultimately show ?thesis
    using assms by (simp add: spi_dev_init_def plain_regs_def upt_rec)
qed

text \<open>
  Initialisation over plain registers: when there is a semaphore and the mapping returns any
  address but zero (the failure value of \<open>mmap\<close> included) it returns 0, has enabled the
  controller, and has set the mode of all four chip selects to mode 3, eight bits, most significant
  bit first; a new semaphore starts at 1. Otherwise it returns -1 and no register is touched.
\<close>

theorem spidrv_init_registers:
  assumes "plain_regs hw get"
  shows "if (sem_created os \<or> sem_opened os) \<and> mem_opened os \<and> mem_addr os \<noteq> 0
    then \<exists>d h'. spidrv_init hw os sem h =
        Some (0, if sem_created os then sem\<lparr>sem_val := Some 1\<rparr> else sem, d, h') \<and>
      get h' R_mode = 0x80000403 \<and> (\<forall>i < 4. get h' (R_csmode i) = 0xEF170008)
    else \<exists>sem' d. spidrv_init hw os sem h = Some (- 1, sem', d, h)"
proof (cases "(sem_created os \<or> sem_opened os) \<and> mem_opened os \<and> mem_addr os \<noteq> 0")
  case True
  let ?d = "\<lparr>chip_select = 0, max_speed_hz = 0, spi_mode = 0, bits_per_word = 0,
      spi_reg_addr = mem_addr os\<rparr>"
  obtain h1 where h1: "spi_dev_init hw ?d h = (0, h1)" "get h1 R_mode = 0x80000403"
    "\<And>j. j < 4 \<Longrightarrow> get h1 (R_csmode j) = 0x80100008"
    using spi_dev_init_plain [OF assms, of ?d h] True by auto
  obtain d h2 where h2: "setup_loop hw 0 4 ?d h1 = Some (d, h2)" "get h2 R_mode = get h1 R_mode"
    "\<forall>j < 4. get h2 (R_csmode j) = 0xEF170008"
    using setup_loop_plain [OF assms, of 0 4 h1 ?d] h1(3) by auto
  have "spidrv_setup_init hw ?d h = Some (0, d, h2)"
    using h1 h2 by (simp add: spidrv_setup_init_def)
  then show ?thesis
    using True h1 h2
    by (auto simp: spidrv_init_def spidrv_semlock_init_def spidrv_mmap_init_def)
next
  case False
  then show ?thesis
    by (auto simp: spidrv_init_def spidrv_semlock_init_def spidrv_mmap_init_def Let_def)
qed

theorem spidrv_init_registers_witness:
  "\<exists>sem d h'. spidrv_init \<lparr>reg_rd = (\<lambda>r f. (f r, f)), reg_wr = (\<lambda>r v f. f(r := v))\<rparr>
       \<lparr>sem_created = True, sem_opened = False, mem_opened = True, mem_addr = 0x1000\<rparr>
       \<lparr>sem_val = None\<rparr> (\<lambda>r. 0) = Some (0, sem, d, h') \<and> h' (R_csmode 3) = 0xEF170008"
proof -
  have "plain_regs \<lparr>reg_rd = (\<lambda>r f. (f r, f)), reg_wr = (\<lambda>r v f. f(r := v))\<rparr> (\<lambda>f. f)"
    by (simp add: plain_regs_def)
  from spidrv_init_registers [OF this, of
      "\<lparr>sem_created = True, sem_opened = False, mem_opened = True, mem_addr = 0x1000\<rparr>"
      "\<lparr>sem_val = None\<rparr>" "\<lambda>r. 0"]
  show ?thesis by fastforce
qed

end
