(* ===== verification/Spi_Bus.thy ===== *)
theory Spi_Bus
  imports H2000_Prelude
begin

text \<open>
  What the kernel's SPI drivers use of the SPI core: a synchronous message of one transfer. The
  core with the controller driver and the chips behind it is an arbitrary function from the chip
  select and the bytes sent to a status, the bytes received and the number of bytes moved. The
  wrapper \<open>bus_io\<close> makes the answer as long as the frame, which is what a full duplex bus does.
\<close>

text \<open>
  The fields of the kernel's \<open>spi_device\<close> and \<open>spi_transfer\<close> that the drivers use. The buffers of
  a transfer are offsets into the buffer of its message.
\<close>

record spi_dev_k =
  kcs :: byte
  kmode :: byte
  kbits :: byte
  kspeed :: u32

record k_xfer =
  k_len :: u32
  k_tx :: "u32 option"
  k_rx :: "u32 option"
  k_cs_change :: bool
  k_bits :: byte
  k_delay :: u16
  k_speed :: u32

type_synonym 'h spi_bus = "byte \<Rightarrow> byte list \<Rightarrow> 'h \<Rightarrow> (int \<times> byte list \<times> nat) \<times> 'h"

definition fit :: "nat \<Rightarrow> byte list \<Rightarrow> byte list" where
  "fit n bs = take n (bs @ replicate n 0)"

lemma length_fit [simp]: "length (fit n bs) = n"
  by (simp add: fit_def)

lemma fit_id: "length bs = n \<Longrightarrow> fit n bs = bs"
  by (simp add: fit_def)

definition bus_io :: "'h spi_bus \<Rightarrow> byte \<Rightarrow> byte list \<Rightarrow> 'h \<Rightarrow> (int \<times> byte list \<times> nat) \<times> 'h" where
  "bus_io bus cs tx h = (case bus cs tx h of ((st, rx, n), h) \<Rightarrow> ((st, fit (length tx) rx, n), h))"

text \<open>
  A message of one transfer with both buffers, and one with a transmit buffer only. The
  second one asks for words of eight bits and 4 MHz, the first one uses what the device is set to. The bus takes
  bytes, so neither shows in the model.
\<close>

definition spi_sync ::
  "'h spi_bus \<Rightarrow> byte \<Rightarrow> byte list \<Rightarrow> byte list \<Rightarrow> nat \<Rightarrow> 'h
     \<Rightarrow> (int \<times> byte list \<times> nat \<times> 'h) option" where
  "spi_sync bus cs txbuf rxbuf len h = do {
     tx \<leftarrow> memread_at txbuf 0 len;
     let ((st, rx, n), h) = bus_io bus cs tx h;
     rxbuf \<leftarrow> memcpy_at rxbuf 0 rx;
     Some (st, rxbuf, n, h)
   }"

definition spi_write ::
  "'h spi_bus \<Rightarrow> byte \<Rightarrow> byte list \<Rightarrow> nat \<Rightarrow> 'h \<Rightarrow> (int \<times> nat \<times> 'h) option" where
  "spi_write bus cs txbuf len h = do {
     tx \<leftarrow> memread_at txbuf 0 len;
     let ((st, rx, n), h) = bus_io bus cs tx h;
     Some (st, n, h)
   }"

lemma length_bus_io: "bus_io bus cs tx h = ((st, rx, n), h') \<Longrightarrow> length rx = length tx"
  by (auto simp: bus_io_def split: prod.splits)

section \<open>Recording what goes over the bus\<close>

text \<open>The same bus with a record of the frames sent, newest last.\<close>

definition logged :: "'h spi_bus \<Rightarrow> ('h \<times> (byte \<times> byte list) list) spi_bus" where
  "logged bus = (\<lambda>cs tx (h, l). case bus cs tx h of (r, h') \<Rightarrow> (r, (h', l @ [(cs, tx)])))"

lemma bus_io_logged:
  "bus_io (logged bus) cs tx (h, l) =
     (case bus_io bus cs tx h of (r, h') \<Rightarrow> (r, (h', l @ [(cs, tx)])))"
  by (simp add: bus_io_def logged_def split: prod.splits)

lemma spi_write_logged:
  "spi_write (logged bus) cs txbuf len (h, l) =
     (if len \<le> length txbuf
      then (case bus_io bus cs (take len txbuf) h of ((st, rx, n), h') \<Rightarrow>
              Some (st, n, (h', l @ [(cs, take len txbuf)])))
      else None)"
  by (simp add: spi_write_def memread_at_def bus_io_logged split: prod.splits)

lemma spi_sync_logged:
  assumes "len \<le> length txbuf"
  shows "spi_sync (logged bus) cs txbuf rxbuf len (h, l) =
     (case bus_io bus cs (take len txbuf) h of ((st, rx, n), h') \<Rightarrow>
        if len \<le> length rxbuf
        then Some (st, rx @ drop len rxbuf, n, (h', l @ [(cs, take len txbuf)])) else None)"
proof -
  obtain st rx n h' where b: "bus_io bus cs (take len txbuf) h = ((st, rx, n), h')"
    by (metis surj_pair)
  moreover have "length rx = len"
    using length_bus_io [OF b] assms by simp
  ultimately show ?thesis
    using assms by (simp add: spi_sync_def memread_at_def bus_io_logged memcpy_at_def)
qed

end
