(* ===== verification/W25p16.thy ===== *)
theory W25p16
  imports Spi_Bus
begin

text \<open>
  The driver of the FPGA's configuration flash (\<open>drivers/spi/w25p16.c\<close>): commands of the chip as
  SPI frames. The mutex of the flash is taken and given back within each operation and is left
  out, as are the delays. Buffers on the stack that the code does not initialise are arguments.
\<close>

section \<open>Constants and state\<close>

definition FLASH_PAGESIZE :: nat where "FLASH_PAGESIZE = 256"
definition OPCODE_WREN :: byte where "OPCODE_WREN = 0x06"
definition OPCODE_RDSR :: byte where "OPCODE_RDSR = 0x05"
definition OPCODE_WRSR :: byte where "OPCODE_WRSR = 0x01"
definition OPCODE_READ :: byte where "OPCODE_READ = 0x03"
definition OPCODE_PP :: byte where "OPCODE_PP = 0x02"
definition OPCODE_CHIP_ERASE :: byte where "OPCODE_CHIP_ERASE = 0xc7"
definition OPCODE_SE :: byte where "OPCODE_SE = 0xd8"
definition SR_WIP :: int where "SR_WIP = 1"
definition MAX_READY_WAIT_COUNT :: nat where "MAX_READY_WAIT_COUNT = 100000"
definition CMD_SIZE :: nat where "CMD_SIZE = 4"

record w25p =
  flash_cs :: byte
  mtd_size :: "64 word"
  flash_command :: "byte list"

type_synonym loff = "64 word"

definition addr_bytes :: "loff \<Rightarrow> byte list" where
  "addr_bytes a = [ucast (drop_bit 16 a), ucast (drop_bit 8 a), ucast a]"

section \<open>Commands\<close>

definition read_sr :: "'h spi_bus \<Rightarrow> w25p \<Rightarrow> 'h \<Rightarrow> int \<times> 'h" where
  "read_sr bus flash h =
     (case bus_io bus (flash_cs flash) [OPCODE_RDSR, 0] h of
        ((ret, rx, n), h) \<Rightarrow> (if ret < 0 then ret else uint (rx ! 1), h))"

definition write_sr :: "'h spi_bus \<Rightarrow> w25p \<Rightarrow> byte \<Rightarrow> 'h \<Rightarrow> int \<times> w25p \<times> 'h" where
  "write_sr bus flash val h =
     (let flash = flash\<lparr>flash_command := (flash_command flash)[0 := OPCODE_WRSR, 1 := val]\<rparr>
      in case bus_io bus (flash_cs flash) [OPCODE_WRSR, val] h of
           ((ret, rx, n), h) \<Rightarrow> (ret, flash, h))"

definition write_enable :: "'h spi_bus \<Rightarrow> w25p \<Rightarrow> 'h \<Rightarrow> int \<times> 'h" where
  "write_enable bus flash h =
     (case bus_io bus (flash_cs flash) [OPCODE_WREN] h of ((ret, rx, n), h) \<Rightarrow> (ret, h))"

fun wait_loop :: "'h spi_bus \<Rightarrow> w25p \<Rightarrow> nat \<Rightarrow> 'h \<Rightarrow> int \<times> 'h" where
  "wait_loop bus flash 0 h = (1, h)"
| "wait_loop bus flash (Suc n) h =
     (let (sr, h) = read_sr bus flash h
      in if sr < 0 then (1, h)
         else if sr AND SR_WIP = 0 then (0, h)
         else wait_loop bus flash n h)"

definition wait_till_ready :: "'h spi_bus \<Rightarrow> w25p \<Rightarrow> 'h \<Rightarrow> int \<times> 'h" where
  "wait_till_ready bus flash h = wait_loop bus flash MAX_READY_WAIT_COUNT h"

definition erase_chip :: "'h spi_bus \<Rightarrow> w25p \<Rightarrow> 'h \<Rightarrow> int \<times> w25p \<times> 'h" where
  "erase_chip bus flash h =
     (let (r, h) = wait_till_ready bus flash h
      in if r \<noteq> 0 then (1, flash, h)
         else
           (let (r, h) = write_enable bus flash h;
                flash = flash\<lparr>flash_command := (flash_command flash)[0 := OPCODE_CHIP_ERASE]\<rparr>;
                (r, h) = bus_io bus (flash_cs flash) (take 1 (flash_command flash)) h
            in (0, flash, h)))"

definition erase_sector :: "'h spi_bus \<Rightarrow> w25p \<Rightarrow> u32 \<Rightarrow> 'h \<Rightarrow> int \<times> w25p \<times> 'h" where
  "erase_sector bus flash offset h =
     (let (r, h) = wait_till_ready bus flash h
      in if r \<noteq> 0 then (1, flash, h)
         else
           (let (r, h) = write_enable bus flash h;
                flash = flash\<lparr>flash_command := (flash_command flash)
                  [0 := OPCODE_SE, 1 := ucast (drop_bit 16 offset), 2 := ucast (drop_bit 8 offset),
                   3 := ucast offset]\<rparr>;
                (r, h) = bus_io bus (flash_cs flash) (take CMD_SIZE (flash_command flash)) h
            in (0, flash, h)))"

text \<open>
  \<open>w25p16_read\<close>: \<open>tx0\<close> and \<open>rx0\<close> are what the two stack buffers of 256 bytes hold on entry; the
  caller's buffer and the returned length are part of the result.
\<close>

definition w25p16_read ::
  "'h spi_bus \<Rightarrow> byte list \<Rightarrow> byte list \<Rightarrow> w25p \<Rightarrow> loff \<Rightarrow> u32 \<Rightarrow> byte list \<Rightarrow> 'h
     \<Rightarrow> (int \<times> int option \<times> byte list \<times> w25p \<times> 'h) option" where
  "w25p16_read bus tx0 rx0 flash from len buf h =
     (if len = 0 then Some (0, None, buf, flash, h)
      else if mtd_size flash < from + ucast len then Some (- EINVAL, None, buf, flash, h)
      else
        (let tx_buf = (OPCODE_READ # addr_bytes from) @ drop 4 tx0;
             (r, h) = wait_till_ready bus flash h
         in if r \<noteq> 0 then Some (1, Some 0, buf, flash, h)
            else
              (let flash = flash\<lparr>flash_command := OPCODE_READ # addr_bytes from\<rparr>
               in do {
                    (st, rx_buf, n, h) \<leftarrow>
                      spi_sync bus (flash_cs flash) tx_buf rx0 (CMD_SIZE + unat len) h;
                    bs \<leftarrow> memread_at rx_buf 4 (unat len);
                    buf \<leftarrow> memcpy_at buf 0 bs;
                    Some (0, Some (int n - int CMD_SIZE), buf, flash, h)
                  })))"

text \<open>The loop of \<open>w25p16_write\<close> over the pages after the first.\<close>

function write_pages ::
  "'h spi_bus \<Rightarrow> w25p \<Rightarrow> byte list \<Rightarrow> loff \<Rightarrow> nat \<Rightarrow> nat \<Rightarrow> int \<Rightarrow> 'h
     \<Rightarrow> (int \<times> w25p \<times> 'h) option" where
  "write_pages bus flash tx_buf to len i retlen h =
     (if i < len then
        (let page_size = (if FLASH_PAGESIZE < len - i then FLASH_PAGESIZE else len - i);
             flash = flash\<lparr>flash_command := (flash_command flash)
               [1 := ucast (drop_bit 16 (to + of_nat i)), 2 := ucast (drop_bit 8 (to + of_nat i)),
                3 := ucast (to + of_nat i)]\<rparr>;
             (r, h) = wait_till_ready bus flash h;
             (r, h) = write_enable bus flash h
         in case spi_write bus (flash_cs flash) tx_buf CMD_SIZE h of
              None \<Rightarrow> None
            | Some (st, n, h) \<Rightarrow>
                write_pages bus flash tx_buf to len (i + page_size)
                  (retlen + (int n - int CMD_SIZE)) h)
      else Some (retlen, flash, h))"
  by pat_completeness auto
termination
  by (relation "measure (\<lambda>(bus, flash, tx_buf, to, len, i, retlen, h). len - i)")
     (auto simp: FLASH_PAGESIZE_def)

declare write_pages.simps [simp del]

text \<open>The remainder of a signed 64-bit offset by the page size, stored in 32 bits.\<close>

definition page_offset_of :: "loff \<Rightarrow> u32" where
  "page_offset_of to =
     (if sint to < 0 then - of_nat (unat (- to) mod FLASH_PAGESIZE)
      else of_nat (unat to mod FLASH_PAGESIZE))"

definition w25p16_write ::
  "'h spi_bus \<Rightarrow> w25p \<Rightarrow> loff \<Rightarrow> u32 \<Rightarrow> byte list \<Rightarrow> 'h
     \<Rightarrow> (int \<times> int \<times> w25p \<times> 'h) option" where
  "w25p16_write bus flash to len buf h =
     (if len = 0 then Some (0, 0, flash, h)
      else if mtd_size flash < to + ucast len then Some (- EINVAL, 0, flash, h)
      else
        (let (r, h) = wait_till_ready bus flash h
         in if r \<noteq> 0 then Some (1, 0, flash, h)
            else
              (let (r, h) = write_enable bus flash h;
                   tx_buf = (OPCODE_PP # addr_bytes to) @ replicate 252 0;
                   page_offset = page_offset_of to
               in if page_offset + len \<le> of_nat FLASH_PAGESIZE then do {
                    bs \<leftarrow> memread_at buf 0 (unat len);
                    tx_buf \<leftarrow> memcpy_at tx_buf 4 bs;
                    (st, n, h) \<leftarrow> spi_write bus (flash_cs flash) tx_buf (CMD_SIZE + unat len) h;
                    Some (0, int n - int CMD_SIZE, flash, h)
                  }
                  else do {
                    let page_size = unat (of_nat FLASH_PAGESIZE - page_offset);
                    (st, n, h) \<leftarrow> spi_write bus (flash_cs flash) tx_buf CMD_SIZE h;
                    (retlen, flash, h) \<leftarrow> write_pages bus flash tx_buf to (unat len) page_size
                      (int n - int CMD_SIZE) h;
                    Some (0, retlen, flash, h)
                  })))"

definition w25p16_read_id :: "'h spi_bus \<Rightarrow> byte \<Rightarrow> 'h \<Rightarrow> byte list \<times> 'h" where
  "w25p16_read_id bus cs h =
     (case bus_io bus cs [0x90, 0, 0, 0, 0, 0] h of ((ret, rx, n), h) \<Rightarrow> (rx, h))"

lemmas opcode_defs = OPCODE_WREN_def OPCODE_RDSR_def OPCODE_WRSR_def OPCODE_READ_def
  OPCODE_PP_def OPCODE_CHIP_ERASE_def OPCODE_SE_def

section \<open>Waiting for the chip\<close>

lemma even_and_1: "sr AND SR_WIP = 0 \<longleftrightarrow> even sr"
  by (simp add: SR_WIP_def and_one_eq even_iff_mod_2_eq_zero)

lemma wait_loop_0_iff:
  "fst (wait_loop bus flash n h) = 0 \<longleftrightarrow>
     (\<exists>k < n. (\<forall>j \<le> k. 0 \<le> fst (read_sr bus flash (after_reads (read_sr bus flash) j h))) \<and>
        even (fst (read_sr bus flash (after_reads (read_sr bus flash) k h))))"
  (is "?L n h \<longleftrightarrow> ?R n h")
proof (induction n arbitrary: h)
  case (Suc n)
  obtain sr h1 where r: "read_sr bus flash h = (sr, h1)" by fastforce
  consider "sr < 0" | "0 \<le> sr" "even sr" | "0 \<le> sr" "odd sr" by linarith
  then show ?case
  proof cases
    case 1
    then have "\<not> ?L (Suc n) h" using r by simp
    moreover have "\<not> ?R (Suc n) h" using r 1 by (auto dest!: spec [of _ 0])
    ultimately show ?thesis by blast
  next
    case 2
    then have "?L (Suc n) h" using r by (simp add: even_and_1)
    moreover have "?R (Suc n) h" using r 2 by (intro exI [of _ 0]) simp
    ultimately show ?thesis by blast
  next
    case 3
    then have "?L (Suc n) h = ?L n h1" using r by (simp add: even_and_1)
    moreover have "?R (Suc n) h = ?R n h1"
    proof
      assume "?R (Suc n) h"
      then obtain k where k: "k < Suc n"
        "\<forall>j \<le> k. 0 \<le> fst (read_sr bus flash (after_reads (read_sr bus flash) j h))"
        "even (fst (read_sr bus flash (after_reads (read_sr bus flash) k h)))" by blast
      then obtain m where m: "k = Suc m" using 3 r by (cases k) auto
      have "0 \<le> fst (read_sr bus flash (after_reads (read_sr bus flash) j h1))" if "j \<le> m" for j
        using k(2) [rule_format, of "Suc j"] that m r by simp
      then show "?R n h1" using k m r by (intro exI [of _ m]) auto
    next
      assume "?R n h1"
      then obtain k where k: "k < n"
        "\<forall>j \<le> k. 0 \<le> fst (read_sr bus flash (after_reads (read_sr bus flash) j h1))"
        "even (fst (read_sr bus flash (after_reads (read_sr bus flash) k h1)))" by blast
      have "0 \<le> fst (read_sr bus flash (after_reads (read_sr bus flash) j h))" if "j \<le> Suc k" for j
        using that k(2) 3 r by (cases j) auto
      then show "?R (Suc n) h" using k r by (intro exI [of _ "Suc k"]) auto
    qed
    ultimately show ?thesis using Suc.IH by blast
  qed
qed simp

text \<open>
  Waiting for the chip ends after at most 100000 looks at the status register and returns 0
  exactly when one of them shows the write-in-progress bit clear and that look and every one before
  it could be read.
\<close>

theorem wait_till_ready_0_iff:
  "fst (wait_till_ready bus flash h) = 0 \<longleftrightarrow>
     (\<exists>k < 100000.
        (\<forall>j \<le> k. 0 \<le> fst (read_sr bus flash (after_reads (read_sr bus flash) j h))) \<and>
        even (fst (read_sr bus flash (after_reads (read_sr bus flash) k h))))"
  unfolding wait_till_ready_def MAX_READY_WAIT_COUNT_def by (rule wait_loop_0_iff)

theorem wait_till_ready_0_iff_witness:
  "fst (wait_till_ready (\<lambda>cs tx h. ((0, [0, if h = 0 then 1 else 0], 2), h + 1))
     \<lparr>flash_cs = 2, mtd_size = 0x7fffff, flash_command = [0, 0, 0, 0]\<rparr> (0 :: nat)) = 0"
proof -
  have "read_sr (\<lambda>cs tx h. ((0, [0, if h = 0 then 1 else 0], 2), h + 1))
      \<lparr>flash_cs = 2, mtd_size = 0x7fffff, flash_command = [0, 0, 0, 0]\<rparr> h =
      (if h = 0 then 1 else 0, h + 1)" for h :: nat
    by (simp add: read_sr_def bus_io_def fit_def)
  then show ?thesis
    by (subst wait_till_ready_0_iff) (intro exI [of _ 1], simp)
qed

section \<open>Frames\<close>

text \<open>The chip answers every look at its status register at once with "ready".\<close>

definition always_ready :: "'h spi_bus \<Rightarrow> byte \<Rightarrow> bool" where
  "always_ready bus cs \<longleftrightarrow>
     (\<forall>h. case bus cs [0x05, 0] h of ((st, rx, n), h') \<Rightarrow>
        0 \<le> st \<and> length rx = 2 \<and> even (uint (rx ! 1)))"

abbreviation rdsr_frame :: "w25p \<Rightarrow> byte \<times> byte list" where
  "rdsr_frame flash \<equiv> (flash_cs flash, [0x05, 0])"

abbreviation wren_frame :: "w25p \<Rightarrow> byte \<times> byte list" where
  "wren_frame flash \<equiv> (flash_cs flash, [0x06])"

lemma read_sr_logged:
  "\<exists>sr h'. read_sr (logged bus) flash (h, l) = (sr, (h', l @ [rdsr_frame flash]))"
  by (simp add: read_sr_def bus_io_logged OPCODE_RDSR_def split: prod.splits)

lemma write_enable_logged:
  "\<exists>r h'. write_enable (logged bus) flash (h, l) = (r, (h', l @ [wren_frame flash]))"
  by (simp add: write_enable_def bus_io_logged OPCODE_WREN_def split: prod.splits)

lemma wait_loop_logged:
  "\<exists>r h' k. wait_loop (logged bus) flash n (h, l) = (r, (h', l @ replicate k (rdsr_frame flash)))"
proof (induction n arbitrary: h l)
  case 0
  then show ?case by (auto intro: exI [of _ 0])
next
  case (Suc n)
  obtain sr h1 where r: "read_sr (logged bus) flash (h, l) = (sr, (h1, l @ [rdsr_frame flash]))"
    using read_sr_logged [of bus flash h l] by blast
  obtain r2 h2 k where w: "wait_loop (logged bus) flash n (h1, l @ [rdsr_frame flash]) =
      (r2, (h2, (l @ [rdsr_frame flash]) @ replicate k (rdsr_frame flash)))"
    using Suc.IH [of h1 "l @ [rdsr_frame flash]"] by blast
  have 1: "l @ [rdsr_frame flash] = l @ replicate 1 (rdsr_frame flash)" by simp
  have k: "(l @ [rdsr_frame flash]) @ replicate k (rdsr_frame flash) =
      l @ replicate (Suc k) (rdsr_frame flash)" by simp
  show ?case
  proof (cases "0 \<le> sr \<and> odd sr")
    case True
    then have "wait_loop (logged bus) flash (Suc n) (h, l) =
        (r2, (h2, l @ replicate (Suc k) (rdsr_frame flash)))"
      using r w k by (simp add: even_and_1)
    then show ?thesis by blast
  next
    case False
    then have "wait_loop (logged bus) flash (Suc n) (h, l) =
        (if sr < 0 then 1 else 0, (h1, l @ replicate 1 (rdsr_frame flash)))"
      using r by (auto simp: even_and_1)
    then show ?thesis by blast
  qed
qed

lemma wait_till_ready_logged:
  "\<exists>r h' k. wait_till_ready (logged bus) flash (h, l) =
     (r, (h', l @ replicate k (rdsr_frame flash)))"
  unfolding wait_till_ready_def by (rule wait_loop_logged)

lemma wait_till_ready_always:
  assumes "always_ready bus (flash_cs flash)"
  shows "\<exists>h'. wait_till_ready (logged bus) flash (h, l) = (0, (h', l @ [rdsr_frame flash]))"
proof -
  obtain st rx n h1 where b: "bus (flash_cs flash) [0x05, 0] h = ((st, rx, n), h1)"
    by (metis surj_pair)
  have ok: "0 \<le> st" "length rx = 2" "even (uint (rx ! 1))"
    using assms [unfolded always_ready_def, THEN spec [of _ h]] b by auto
  have "read_sr (logged bus) flash (h, l) = (uint (rx ! 1), (h1, l @ [rdsr_frame flash]))"
    using b ok fit_id [of rx "Suc (Suc 0)"]
    by (simp add: read_sr_def logged_def bus_io_def OPCODE_RDSR_def)
  then have w: "wait_loop (logged bus) flash (Suc m) (h, l) = (0, (h1, l @ [rdsr_frame flash]))" for m
    using ok by (simp add: even_and_1)
  obtain m where m: "MAX_READY_WAIT_COUNT = Suc m"
    by (metis MAX_READY_WAIT_COUNT_def not0_implies_Suc zero_neq_numeral)
  show ?thesis
    unfolding wait_till_ready_def m using w by blast
qed

lemma length_addr_bytes [simp]: "length (addr_bytes a) = 3"
  by (simp add: addr_bytes_def)

text \<open>
  Programming within one page: with the chip ready, up to 252 bytes go out as one page-program
  frame with opcode, three address bytes and the data, after a status read and a write enable. A
  write of 253 to 256 bytes that fits the page, among them every full page, overruns the command
  buffer of 256 bytes.
\<close>

theorem w25p16_write_page:
  assumes "always_ready bus (flash_cs flash)" "len \<noteq> 0" "to + ucast len \<le> mtd_size flash"
    and "page_offset_of to + len \<le> 256" "unat len \<le> length buf"
  shows "if unat len \<le> 252
    then \<exists>n h'. w25p16_write (logged bus) flash to len buf (h, l) =
      Some (0, n, flash, (h', l @ [rdsr_frame flash, wren_frame flash,
        (flash_cs flash, 0x02 # addr_bytes to @ take (unat len) buf)]))
    else w25p16_write (logged bus) flash to len buf (h, l) = None"
proof -
  obtain h1 where w: "wait_till_ready (logged bus) flash (h, l) = (0, (h1, l @ [rdsr_frame flash]))"
    using wait_till_ready_always [OF assms(1), of h l] by blast
  obtain r h2 where e: "write_enable (logged bus) flash (h1, l @ [rdsr_frame flash]) =
      (r, (h2, l @ [rdsr_frame flash, wren_frame flash]))"
    using write_enable_logged [of bus flash h1 "l @ [rdsr_frame flash]"] by auto
  define c where "c = OPCODE_PP # addr_bytes to"
  have c: "length c = 4" "0x02 # addr_bytes to = c"
    by (simp_all add: c_def OPCODE_PP_def)
  have s: "w25p16_write (logged bus) flash to len buf (h, l) = do {
      tx_buf \<leftarrow> memcpy_at (c @ replicate 252 0) 4 (take (unat len) buf);
      (st, n, h) \<leftarrow> spi_write (logged bus) (flash_cs flash) tx_buf (4 + unat len)
        (h2, l @ [rdsr_frame flash, wren_frame flash]);
      Some (0, int n - 4, flash, h)
    }"
    using assms(2,4,5) leD [OF assms(3)] w e
    by (simp add: w25p16_write_def FLASH_PAGESIZE_def CMD_SIZE_def memread_at_def c_def)
  have m: "memcpy_at (c @ replicate 252 0) 4 (take (unat len) buf) =
      (if unat len \<le> 252 then Some (c @ take (unat len) buf @ replicate (252 - unat len) 0)
       else None)"
    using assms(5) c by (simp add: memcpy_at_def)
  show ?thesis
  proof (cases "unat len \<le> 252")
    case True
    obtain st rx n h' where "bus_io bus (flash_cs flash) (c @ take (unat len) buf) h2 =
        ((st, rx, n), h')"
      by (metis surj_pair)
    then show ?thesis
      using True assms(5) c(1) append_Cons [of "0x02" "addr_bytes to" "take (unat len) buf"]
      by (simp add: s m spi_write_logged c(2) del: append_Cons)
  qed (simp add: s m)
qed

definition demo_flash :: w25p where
  "demo_flash = \<lparr>flash_cs = 2, mtd_size = 0x7fffff, flash_command = [0, 0, 0, 0]\<rparr>"

definition demo_chip :: "unit spi_bus" where
  "demo_chip = (\<lambda>cs tx h. ((0, replicate (length tx) 0, length tx), h))"

lemma demo_chip_ready: "always_ready demo_chip cs"
  by (simp add: always_ready_def demo_chip_def)

theorem w25p16_write_page_witness:
  "w25p16_write (logged demo_chip) demo_flash 0x100 256 (replicate 256 7) ((), []) = None"
  using w25p16_write_page [OF demo_chip_ready, of 256 "0x100" demo_flash "replicate 256 7" "()" "[]"]
  by (simp add: demo_flash_def page_offset_of_def FLASH_PAGESIZE_def)

lemma write_pages_logged:
  assumes "take 4 tx_buf = c" "length c = 4" "flash_cs flash = cs"
  shows "\<exists>n flash' h' fs. write_pages (logged bus) flash tx_buf to len i r (h, l) =
      Some (n, flash', (h', l @ fs)) \<and> set fs \<subseteq> {(cs, [0x05, 0]), (cs, [0x06]), (cs, c)}"
  using assms(3)
proof (induction "len - i" arbitrary: flash i r h l rule: less_induct)
  case less
  show ?case
  proof (cases "i < len")
    case False
    then show ?thesis
      by (subst write_pages.simps) (auto intro: exI [of _ "[]"])
  next
    case True
    let ?p = "if FLASH_PAGESIZE < len - i then FLASH_PAGESIZE else len - i"
    let ?f = "flash\<lparr>flash_command := (flash_command flash)
      [1 := ucast (drop_bit 16 (to + of_nat i)), 2 := ucast (drop_bit 8 (to + of_nat i)),
       3 := ucast (to + of_nat i)]\<rparr>"
    have cs: "flash_cs ?f = cs" using less.prems by simp
    obtain r1 h1 k where w: "wait_till_ready (logged bus) ?f (h, l) =
        (r1, (h1, l @ replicate k (cs, [0x05, 0])))"
      using wait_till_ready_logged [of bus ?f h l] cs by auto
    obtain r2 h2 where e: "write_enable (logged bus) ?f (h1, l @ replicate k (cs, [0x05, 0])) =
        (r2, (h2, l @ replicate k (cs, [0x05, 0]) @ [(cs, [0x06])]))"
      using write_enable_logged [of bus ?f h1 "l @ replicate k (cs, [0x05, 0])"] cs by auto
    let ?fs = "replicate k (cs, [0x05, 0]) @ [(cs, [0x06]), (cs, c)]"
    have "4 \<le> length tx_buf" using assms(1,2) by auto
    then obtain st n h3 where p: "spi_write (logged bus) cs tx_buf 4
        (h2, l @ replicate k (cs, [0x05, 0]) @ [(cs, [0x06])]) = Some (st, n, (h3, l @ ?fs))"
      using assms(1) by (cases "bus_io bus cs c h2") (auto simp: spi_write_logged)
    have "len - (i + ?p) < len - i" using True by (auto simp: FLASH_PAGESIZE_def)
    from less.hyps [OF this cs, of "r + (int n - 4)" h3 "l @ ?fs"]
    obtain n' f' h' fs where i: "write_pages (logged bus) ?f tx_buf to len (i + ?p)
        (r + (int n - 4)) (h3, l @ ?fs) = Some (n', f', (h', (l @ ?fs) @ fs))"
      "set fs \<subseteq> {(cs, [0x05, 0]), (cs, [0x06]), (cs, c)}" by blast
    have "write_pages (logged bus) flash tx_buf to len i r (h, l) =
        write_pages (logged bus) ?f tx_buf to len (i + ?p) (r + (int n - 4)) (h3, l @ ?fs)"
      using True w e p less.prems by (subst write_pages.simps) (simp add: CMD_SIZE_def)
    then show ?thesis
      using i by (intro exI [of _ n'] exI [of _ f'] exI [of _ h'] exI [of _ "?fs @ fs"]) auto
  qed
qed

text \<open>
  Programming across a page boundary transfers no data: whatever the buffer holds, every frame
  the call puts on the bus is a status read, a write enable or a page-program command without data,
  always with the address of the first byte; the call still returns 0.
\<close>

theorem w25p16_write_pages_no_data:
  assumes "always_ready bus (flash_cs flash)" "len \<noteq> 0" "to + ucast len \<le> mtd_size flash"
    and "256 < page_offset_of to + len"
  shows "\<exists>n flash' h' fs. w25p16_write (logged bus) flash to len buf (h, l) =
      Some (0, n, flash', (h', l @ fs)) \<and>
    set fs \<subseteq> {rdsr_frame flash, wren_frame flash, (flash_cs flash, 0x02 # addr_bytes to)}"
proof -
  obtain h1 where w: "wait_till_ready (logged bus) flash (h, l) = (0, (h1, l @ [rdsr_frame flash]))"
    using wait_till_ready_always [OF assms(1), of h l] by blast
  obtain r h2 where e: "write_enable (logged bus) flash (h1, l @ [rdsr_frame flash]) =
      (r, (h2, l @ [rdsr_frame flash, wren_frame flash]))"
    using write_enable_logged [of bus flash h1 "l @ [rdsr_frame flash]"] by auto
  let ?c = "OPCODE_PP # addr_bytes to"
  let ?tx = "?c @ replicate 252 0"
  let ?l = "l @ [rdsr_frame flash, wren_frame flash, (flash_cs flash, ?c)]"
  have t: "take 4 ?tx = ?c" "length ?c = 4" by (simp_all add: addr_bytes_def)
  obtain st n h3 where p: "spi_write (logged bus) (flash_cs flash) ?tx 4
      (h2, l @ [rdsr_frame flash, wren_frame flash]) = Some (st, n, (h3, ?l))"
    using t by (cases "bus_io bus (flash_cs flash) ?c h2") (auto simp: spi_write_logged)
  obtain n' f' h' fs where i: "write_pages (logged bus) flash ?tx to (unat len)
      (unat (256 - page_offset_of to)) (int n - 4) (h3, ?l) = Some (n', f', (h', ?l @ fs))"
    "set fs \<subseteq> {rdsr_frame flash, wren_frame flash, (flash_cs flash, ?c)}"
    using write_pages_logged [OF t refl, of bus flash to "unat len" "unat (256 - page_offset_of to)"
        "int n - 4" h3 ?l] by blast
  have "w25p16_write (logged bus) flash to len buf (h, l) = Some (0, n', f', (h', ?l @ fs))"
    using assms(2) leD [OF assms(3)] assms(4) [folded not_le] w e p i(1)
    by (simp add: w25p16_write_def FLASH_PAGESIZE_def CMD_SIZE_def)
  then show ?thesis
    using i(2)
    by (intro exI [of _ n'] exI [of _ f'] exI [of _ h'] exI
        [of _ "[rdsr_frame flash, wren_frame flash, (flash_cs flash, ?c)] @ fs"])
       (auto simp: OPCODE_PP_def)
qed

theorem w25p16_write_pages_no_data_witness:
  "\<exists>n flash' h' fs. w25p16_write (logged demo_chip) demo_flash 0x80 256 (replicate 256 7) ((), []) =
      Some (0, n, flash', (h', fs)) \<and>
    set fs \<subseteq> {(2, [0x05, 0]), (2, [0x06]), (2, [0x02, 0, 0, 0x80])}"
  using w25p16_write_pages_no_data [OF demo_chip_ready, of 256 "0x80" demo_flash
      "replicate 256 7" "()" "[]"]
  by (simp add: demo_flash_def page_offset_of_def FLASH_PAGESIZE_def addr_bytes_def)

text \<open>
  C23. Reading: with the chip ready, a read of up to 252 bytes within the chip returns 0 and the
  caller's buffer starts with what the chip sent after the four command bytes, the rest of the
  buffer unchanged. Longer reads, which the size check against the chip lets pass, overrun the two
  stack buffers of 256 bytes.
\<close>

theorem w25p16_read_bytes:
  assumes "always_ready bus (flash_cs flash)" "len \<noteq> 0" "from + ucast len \<le> mtd_size flash"
    and "unat len \<le> length buf" "length tx0 = 256" "length rx0 = 256"
  shows "if unat len \<le> 252
    then \<exists>h1 st rx n h'.
      bus_io bus (flash_cs flash) (0x03 # addr_bytes from @ take (unat len) (drop 4 tx0)) h1 =
        ((st, rx, n), h') \<and>
      (\<exists>flash'. w25p16_read (logged bus) tx0 rx0 flash from len buf (h, l) =
        Some (0, Some (int n - 4), drop 4 rx @ drop (unat len) buf, flash',
          (h', l @ [rdsr_frame flash,
            (flash_cs flash, 0x03 # addr_bytes from @ take (unat len) (drop 4 tx0))])))
    else w25p16_read (logged bus) tx0 rx0 flash from len buf (h, l) = None"
proof -
  obtain h1 where w: "wait_till_ready (logged bus) flash (h, l) = (0, (h1, l @ [rdsr_frame flash]))"
    using wait_till_ready_always [OF assms(1), of h l] by blast
  let ?tx = "(OPCODE_READ # addr_bytes from) @ drop 4 tx0"
  let ?f = "0x03 # addr_bytes from @ take (unat len) (drop 4 tx0)"
  have r: "w25p16_read (logged bus) tx0 rx0 flash from len buf (h, l) = do {
      (st, rx_buf, n, h) \<leftarrow> spi_sync (logged bus) (flash_cs flash) ?tx rx0 (4 + unat len)
        (h1, l @ [rdsr_frame flash]);
      bs \<leftarrow> memread_at rx_buf 4 (unat len);
      buf \<leftarrow> memcpy_at buf 0 bs;
      Some (0, Some (int n - 4), buf,
        flash\<lparr>flash_command := OPCODE_READ # addr_bytes from\<rparr>, h)
    }"
    using assms(2) leD [OF assms(3)] w by (simp add: w25p16_read_def CMD_SIZE_def)
  show ?thesis
  proof (cases "unat len \<le> 252")
    case True
    obtain st rx n h' where b: "bus_io bus (flash_cs flash) ?f h1 = ((st, rx, n), h')"
      by (metis surj_pair)
    have "take (4 + unat len) ?tx = (OPCODE_READ # addr_bytes from) @ take (unat len) (drop 4 tx0)"
      by (subst take_append) simp
    then have f: "take (4 + unat len) ?tx = ?f"
      by (simp add: OPCODE_READ_def)
    have l: "length rx = 4 + unat len"
      using length_bus_io [OF b] True assms(5) by simp
    have "spi_sync (logged bus) (flash_cs flash) ?tx rx0 (4 + unat len)
        (h1, l @ [rdsr_frame flash]) =
        Some (st, rx @ drop (4 + unat len) rx0, n, (h', l @ [rdsr_frame flash, (flash_cs flash, ?f)]))"
      using True assms(5,6) b unfolding f [symmetric] by (subst spi_sync_logged) simp_all
    moreover have "memread_at (rx @ drop (4 + unat len) rx0) 4 (unat len) = Some (drop 4 rx)"
      using l by (simp add: memread_at_def)
    moreover have "memcpy_at buf 0 (drop 4 rx) = Some (drop 4 rx @ drop (unat len) buf)"
      using l assms(4) by (simp add: memcpy_at_def)
    ultimately show ?thesis
      using True b by (intro if_P [THEN iffD2, rule_format]) (auto simp: r)
  next
    case False
    then have "spi_sync (logged bus) (flash_cs flash) ?tx rx0 (4 + unat len)
        (h1, l @ [rdsr_frame flash]) = None"
      using assms(5) by (simp add: spi_sync_def memread_at_def)
    then show ?thesis using False by (simp add: r)
  qed
qed

theorem w25p16_read_bytes_witness:
  "\<exists>n flash' h'. w25p16_read (logged demo_chip) (replicate 256 0) (replicate 256 0) demo_flash
      0x100 2 [9, 9, 9] ((), []) = Some (0, n, [0, 0, 9], flash', h')"
proof -
  have d: "bus_io demo_chip cs f h = ((0, replicate (length f) 0, length f), h)" for cs f h
    by (simp add: bus_io_def demo_chip_def fit_def)
  obtain n flash' h' where "w25p16_read (logged demo_chip) (replicate 256 0) (replicate 256 0)
      demo_flash 0x100 2 [9, 9, 9] ((), []) =
      Some (0, n, drop 4 (replicate (length (0x03 # addr_bytes 0x100 @
        take 2 (drop 4 (replicate 256 (0 :: byte))))) 0) @ drop 2 [9, 9, 9], flash', h')"
    using w25p16_read_bytes [OF demo_chip_ready, of 2 "0x100" demo_flash "[9, 9, 9]"
        "replicate 256 0" "replicate 256 0" "()" "[]"]
    by (simp add: d demo_flash_def)
       (metis (no_types, lifting))
  then show ?thesis
    by (cases h') (simp add: numeral_2_eq_2 numeral_3_eq_3)
qed

text \<open>
  Erasing a sector with the chip ready: a status read, a write enable and one sector-erase
  frame with the three address bytes of the offset.
\<close>

theorem erase_sector_frames:
  assumes "always_ready bus (flash_cs flash)" "length (flash_command flash) = 4"
  shows "\<exists>flash' h'. erase_sector (logged bus) flash offset (h, l) =
    (0, flash', (h', l @ [rdsr_frame flash, wren_frame flash,
      (flash_cs flash, [0xd8, ucast (drop_bit 16 offset), ucast (drop_bit 8 offset), ucast offset])]))"
proof -
  obtain h1 where w: "wait_till_ready (logged bus) flash (h, l) = (0, (h1, l @ [rdsr_frame flash]))"
    using wait_till_ready_always [OF assms(1), of h l] by blast
  obtain r h2 where e: "write_enable (logged bus) flash (h1, l @ [rdsr_frame flash]) =
      (r, (h2, l @ [rdsr_frame flash, wren_frame flash]))"
    using write_enable_logged [of bus flash h1 "l @ [rdsr_frame flash]"] by auto
  obtain a b c d where "flash_command flash = [a, b, c, d]"
    using assms(2) by (auto simp: numeral_eq_Suc length_Suc_conv)
  then show ?thesis
    using w e
    by (simp add: erase_sector_def CMD_SIZE_def OPCODE_SE_def bus_io_logged split: prod.splits)
qed

theorem erase_sector_frames_witness:
  "\<exists>flash' h'. erase_sector (logged demo_chip) demo_flash 0x45 ((), []) =
    (0, flash', (h', [(2, [0x05, 0]), (2, [0x06]), (2, [0xd8, 0, 0, 0x45])]))"
  using erase_sector_frames [OF demo_chip_ready, of demo_flash "0x45" "()" "[]"]
  by (simp add: demo_flash_def)

end
