(* ===== verification/Uaccess.thy ===== *)
theory Uaccess
  imports H2000_Prelude
begin

text \<open>
  The kernel's access to the memory of the calling process on 32-bit PowerPC
  (\<open>arch/powerpc/include/asm/uaccess.h\<close>, \<open>arch/powerpc/lib/copy_32.S\<close>), with the part of a copy
  that is done before it fails: a read fault leaves the bytes copied so far and clears the rest of
  the destination, a range that leaves the user's address space is cut at its end.
\<close>

definition TASK_SIZE :: u32 where "TASK_SIZE = 0xc0000000"

definition access_ok :: "u32 \<Rightarrow> u32 \<Rightarrow> bool" where
  "access_ok addr sz \<longleftrightarrow>
     addr \<le> TASK_SIZE - 1 \<and> (sz = 0 \<or> sz - 1 \<le> TASK_SIZE - 1 - addr)"

text \<open>The bytes that can be read from an address on, \<open>n\<close> at most.\<close>

fun readable :: "user_mem \<Rightarrow> u32 \<Rightarrow> nat \<Rightarrow> byte list" where
  "readable um a 0 = []"
| "readable um a (Suc n) =
     (case um_byte um a of None \<Rightarrow> [] | Some b \<Rightarrow> b # readable um (a + 1) n)"

text \<open>The number of bytes not copied and the bytes stored at the destination.\<close>

definition tofrom_read :: "user_mem \<Rightarrow> u32 \<Rightarrow> u32 \<Rightarrow> u32 \<times> byte list" where
  "tofrom_read um from n =
     (let bs = readable um from (unat n)
      in (n - of_nat (length bs), bs @ replicate (unat n - length bs) 0))"

definition copy_from_user_k :: "user_mem \<Rightarrow> u32 \<Rightarrow> u32 \<Rightarrow> u32 \<times> byte list" where
  "copy_from_user_k um from n =
     (if access_ok from n then tofrom_read um from n
      else if from < TASK_SIZE then
        (let over = from + n - TASK_SIZE;
             (left, bs) = tofrom_read um from (n - over)
         in (left + over, bs))
      else (n, []))"

text \<open>Writing: the number of bytes not written and the memory.\<close>

fun tofrom_write :: "user_mem \<Rightarrow> u32 \<Rightarrow> byte list \<Rightarrow> u32 \<times> user_mem" where
  "tofrom_write um a [] = (0, um)"
| "tofrom_write um a (b # bs) =
     (if um_writable um a
      then tofrom_write (um\<lparr>um_byte := (um_byte um)(a \<mapsto> b)\<rparr>) (a + 1) bs
      else (of_nat (length (b # bs)), um))"

definition copy_to_user_k :: "user_mem \<Rightarrow> u32 \<Rightarrow> byte list \<Rightarrow> u32 \<times> user_mem" where
  "copy_to_user_k um a bs =
     (let n = of_nat (length bs)
      in if access_ok a n then tofrom_write um a bs
         else if a < TASK_SIZE then
           (let over = a + n - TASK_SIZE;
                (left, um') = tofrom_write um a (take (unat (n - over)) bs)
            in (left + over, um'))
         else (n, um))"

definition put_user_bytes :: "user_mem \<Rightarrow> u32 \<Rightarrow> byte list \<Rightarrow> int \<times> user_mem" where
  "put_user_bytes um a bs =
     (case copy_to_user um a bs of (True, um') \<Rightarrow> (0, um') | (False, _) \<Rightarrow> (- EFAULT, um))"

section \<open>Facts\<close>

lemma length_readable: "length (readable um a n) \<le> n"
  by (induction um a n rule: readable.induct) (auto split: option.splits)

lemma readable_copy_from_user:
  "copy_from_user um a n =
     (if length (readable um a n) = n then Some (readable um a n) else None)"
  by (induction um a n rule: readable.induct) (auto split: option.splits)

lemma length_tofrom_read: "length (snd (tofrom_read um a n)) = unat n"
  using length_readable [of um a "unat n"] by (simp add: tofrom_read_def Let_def)

lemma tofrom_read_0_iff: "fst (tofrom_read um a n) = 0 \<longleftrightarrow> length (readable um a (unat n)) = unat n"
proof -
  let ?k = "length (readable um a (unat n))"
  have "unat (of_nat ?k :: u32) = ?k"
    by (rule le_unat_uoi [OF length_readable])
  then have "n = of_nat ?k \<longleftrightarrow> ?k = unat n" by (metis unsigned_word_eqI)
  then show ?thesis by (simp add: tofrom_read_def Let_def)
qed

lemma access_ok_unat:
  "access_ok a n \<longleftrightarrow> unat a < unat TASK_SIZE \<and> unat a + unat n \<le> unat TASK_SIZE"
proof -
  have le: "a \<le> TASK_SIZE - 1 \<longleftrightarrow> unat a < unat TASK_SIZE"
    by (simp add: TASK_SIZE_def word_le_nat_alt) linarith
  show ?thesis
  proof (cases "n = 0 \<or> \<not> a \<le> TASK_SIZE - 1")
    case True
    then show ?thesis using le by (auto simp: access_ok_def)
  next
    case False
    then have "a \<le> TASK_SIZE - 1" "n \<noteq> 0" by auto
    moreover have "unat (TASK_SIZE - 1 - a) = unat TASK_SIZE - 1 - unat a"
      using \<open>a \<le> TASK_SIZE - 1\<close> by (simp add: unat_sub TASK_SIZE_def)
    moreover have "unat (n - 1) = unat n - 1" "0 < unat n"
      using \<open>n \<noteq> 0\<close> by (simp_all add: unat_minus_one unat_gt_0)
    ultimately show ?thesis using le
      by (auto simp: access_ok_def word_le_nat_alt)
  qed
qed

text \<open>How much of the destination a copy writes.\<close>

definition copy_span :: "u32 \<Rightarrow> u32 \<Rightarrow> nat" where
  "copy_span a n = (if access_ok a n then unat n else unat TASK_SIZE - unat a)"

lemma length_copy_from_user_k: "length (snd (copy_from_user_k um a n)) = copy_span a n"
proof (cases "access_ok a n \<or> \<not> a < TASK_SIZE")
  case True
  then show ?thesis
    by (auto simp: copy_from_user_k_def copy_span_def length_tofrom_read word_less_nat_alt)
next
  case False
  then have "unat (TASK_SIZE - a) = unat TASK_SIZE - unat a"
    by (simp add: unat_sub word_less_nat_alt word_le_nat_alt)
  then show ?thesis using False
    by (simp add: copy_from_user_k_def copy_span_def Let_def length_tofrom_read split: prod.splits)
       (metis length_tofrom_read snd_conv)
qed

lemma copy_span_le: "copy_span a n \<le> unat n"
  by (auto simp: copy_span_def access_ok_unat)

end
