(* ===== verification/Spidev.thy ===== *)
theory Spidev
  imports W25p16 Uaccess
begin

text \<open>
  The kernel's SPI character device with the additions for the FPGA, the clock chip and the FPGA's
  configuration flash (\<open>drivers/spi/spidev.c\<close>). The state holds the fields of the one
  \<open>spi_device\<close>, the driver's static selection \<open>chip_select\<close> with its mutex \<open>chip_sel_lock\<close>, and
  the open count with the bounce buffer. A call that would wait for the mutex is \<open>Blocked\<close>; a call
  that leaves its buffers or follows a null pointer is \<open>Fault\<close>. The SPI core below is the argument
  \<open>env\<close>. Names that the user-space library also has carry the suffix \<open>_k\<close>.
\<close>

section \<open>State, results and the environment\<close>

record spidev_state =
  spi_k :: spi_dev_k
  bound :: bool
  sel :: u16
  sel_locked :: bool
  users :: u32
  sbuffer :: "byte list option"
  gpio_flash :: bool
  flash_k :: w25p

text \<open>
  The layers below and the allocator: a synchronous transfer, a message of several transfers over
  the bounce buffer (the result of submitting it, its status, the bytes moved, the buffer after it),
  the mode bits and the set-up operation of the controller driver, whether an allocation of a given
  size succeeds, and what the two stack buffers of the flash driver hold when it is entered.
\<close>

record 'h spi_env =
  e_bus :: "spi_dev_k \<Rightarrow> 'h spi_bus"
  e_msg :: "spi_dev_k \<Rightarrow> k_xfer list \<Rightarrow> byte list \<Rightarrow> 'h
    \<Rightarrow> ((int \<times> int \<times> int \<times> byte list) \<times> 'h) kres"
  e_mode_bits :: byte
  e_setup :: "spi_dev_k \<Rightarrow> 'h \<Rightarrow> int \<times> 'h"
  e_kmalloc :: "nat \<Rightarrow> bool"
  e_kcalloc :: "nat \<Rightarrow> bool"
  e_stack :: "byte list \<times> byte list"

definition bufsiz :: nat where "bufsiz = 4096"
definition MULTI_REG_LEN_MAX_k :: nat where "MULTI_REG_LEN_MAX_k = 512"
definition FLASH_FPGA :: u16 where "FLASH_FPGA = 2"
definition DS31400_CHIP :: u16 where "DS31400_CHIP = 1"
definition FPGA_CHIP :: u16 where "FPGA_CHIP = 0"
definition DS31400_REG_ADDR_MAX :: int where "DS31400_REG_ADDR_MAX = 0xffff"

lemmas spidev_consts = bufsiz_def MULTI_REG_LEN_MAX_k_def FLASH_FPGA_def DS31400_CHIP_def
  FPGA_CHIP_def

section \<open>Register access\<close>

definition ds31400_address :: "u16 \<Rightarrow> u16" where
  "ds31400_address addr = push_bit 1 addr AND 0x7ffe"

definition mix_spi_read_k ::
  "'h spi_env \<Rightarrow> spi_dev_k \<Rightarrow> u16 \<Rightarrow> u16 \<Rightarrow> byte list option \<Rightarrow> nat \<Rightarrow> 'h
     \<Rightarrow> (int \<times> byte list option \<times> 'h) option" where
  "mix_spi_read_k env spi chip addr data count h =
     (case data of
        None \<Rightarrow> Some (- EINVAL, data, h)
      | Some d \<Rightarrow>
          if MULTI_REG_LEN_MAX_k < count then Some (- EINVAL, data, h)
          else
            (let buf = replicate (MULTI_REG_LEN_MAX_k + 2) 0;
                 rx_buf = replicate (MULTI_REG_LEN_MAX_k + 2) 0
             in if chip = DS31400_CHIP then do {
                  bs \<leftarrow> memread_at d 0 count;
                  buf \<leftarrow> memcpy_at (buf
                    [0 := hi8 (ds31400_address addr) OR 0x80,
                     1 := (if 1 < count then lo8 (ds31400_address addr) OR 1
                           else lo8 (ds31400_address addr))]) 2 bs;
                  (ret, rx_buf, n, h) \<leftarrow> spi_sync (e_bus env spi) (kcs spi) buf rx_buf (count + 2) h;
                  bs \<leftarrow> memread_at rx_buf 2 count;
                  d \<leftarrow> memcpy_at d 0 bs;
                  Some (ret, Some d, h)
                }
                else if chip = FPGA_CHIP then do {
                  bs \<leftarrow> memread_at d 0 count;
                  buf \<leftarrow> memcpy_at (buf
                    [0 := (if count = 1 then 0x05 else 0x03), 1 := hi8 addr, 2 := lo8 addr, 3 := 0])
                    4 bs;
                  (ret, rx_buf, n, h) \<leftarrow> spi_sync (e_bus env spi) (kcs spi) buf rx_buf (count + 4) h;
                  bs \<leftarrow> memread_at rx_buf 4 count;
                  d \<leftarrow> memcpy_at d 0 bs;
                  Some (ret, Some d, h)
                }
                else None))"

definition mix_spi_write_k ::
  "'h spi_env \<Rightarrow> spi_dev_k \<Rightarrow> u16 \<Rightarrow> u16 \<Rightarrow> byte list option \<Rightarrow> nat \<Rightarrow> 'h \<Rightarrow> (int \<times> 'h) option" where
  "mix_spi_write_k env spi chip addr data count h =
     (case data of
        None \<Rightarrow> Some (- EINVAL, h)
      | Some d \<Rightarrow>
          if MULTI_REG_LEN_MAX_k < count then Some (- EINVAL, h)
          else
            (let buf = replicate (MULTI_REG_LEN_MAX_k + 2) 0
             in if chip = DS31400_CHIP then do {
                  bs \<leftarrow> memread_at d 0 count;
                  buf \<leftarrow> memcpy_at (buf
                    [0 := hi8 (ds31400_address addr) AND NOT 0x80,
                     1 := (if 1 < count then lo8 (ds31400_address addr) OR 1
                           else lo8 (ds31400_address addr))]) 2 bs;
                  (ret, n, h) \<leftarrow> spi_write (e_bus env spi) (kcs spi) buf (count + 2) h;
                  Some (ret, h)
                }
                else if chip = FPGA_CHIP then do {
                  bs \<leftarrow> memread_at d 0 count;
                  buf \<leftarrow> memcpy_at (buf
                    [0 := (if count = 1 then 0x01 else 0x02), 1 := hi8 addr, 2 := lo8 addr]) 3 bs;
                  (ret, n, h) \<leftarrow> spi_write (e_bus env spi) (kcs spi) buf (count + 4) h;
                  Some (ret, h)
                }
                else Some (0, h)))"

text \<open>
  The exported access functions: take the mutex, put the wanted chip into the device and into
  \<open>chip_select\<close>, do the access, put both back, release the mutex.
\<close>

definition set_chip :: "byte \<Rightarrow> u16 \<Rightarrow> spidev_state \<Rightarrow> spidev_state" where
  "set_chip cs chip s = s\<lparr>spi_k := (spi_k s)\<lparr>kcs := cs\<rparr>, sel := chip\<rparr>"

definition dpll_spi_write_k ::
  "'h spi_env \<Rightarrow> u16 \<Rightarrow> byte list option \<Rightarrow> nat \<Rightarrow> spidev_state \<Rightarrow> 'h
     \<Rightarrow> (int \<times> spidev_state \<times> 'h) kres" where
  "dpll_spi_write_k env addr data count s h =
     (if sel_locked s then Blocked
      else if \<not> bound s then Fault
      else
        (let s = s\<lparr>sel_locked := True\<rparr>;
             chip_se = kcs (spi_k s);
             chip_se_bak = sel s;
             s = set_chip 1 DS31400_CHIP s
         in case mix_spi_write_k env (spi_k s) (sel s) addr data count h of
              None \<Rightarrow> Fault
            | Some (ret, h) \<Rightarrow>
                Done (ret, (set_chip chip_se chip_se_bak s)\<lparr>sel_locked := False\<rparr>, h)))"

fun dpll_read_loop_k ::
  "'h spi_env \<Rightarrow> spi_dev_k \<Rightarrow> u16 \<Rightarrow> u16 \<Rightarrow> byte list \<Rightarrow> nat \<Rightarrow> nat \<Rightarrow> 'h \<Rightarrow> (byte list \<times> 'h) option" where
  "dpll_read_loop_k env spi chip addr d i 0 h = Some (d, h)"
| "dpll_read_loop_k env spi chip addr d i (Suc n) h = do {
     (r, p, h) \<leftarrow> mix_spi_read_k env spi chip (addr + of_nat (2 * i)) (Some (drop (2 * i) d)) 2 h;
     dpll_read_loop_k env spi chip addr (take (2 * i) d @ (case p of None \<Rightarrow> [] | Some e \<Rightarrow> e))
       (i + 1) n h
   }"

definition dpll_spi_read_k ::
  "'h spi_env \<Rightarrow> u16 \<Rightarrow> byte list \<Rightarrow> nat \<Rightarrow> spidev_state \<Rightarrow> 'h
     \<Rightarrow> (int \<times> byte list \<times> spidev_state \<times> 'h) kres" where
  "dpll_spi_read_k env addr data count s h =
     (if sel_locked s then Blocked
      else if \<not> bound s then Fault
      else
        (let s = s\<lparr>sel_locked := True\<rparr>;
             chip_se = kcs (spi_k s);
             chip_se_bak = sel s;
             s = set_chip 1 DS31400_CHIP s;
             loop = (if count mod 2 = 0 then count div 2 else (count + 1) div 2)
         in case dpll_read_loop_k env (spi_k s) (sel s) addr data 0 loop h of
              None \<Rightarrow> Fault
            | Some (data, h) \<Rightarrow>
                Done (0, data, (set_chip chip_se chip_se_bak s)\<lparr>sel_locked := False\<rparr>, h)))"

definition fpga_spi_write_k ::
  "'h spi_env \<Rightarrow> u16 \<Rightarrow> byte list option \<Rightarrow> nat \<Rightarrow> spidev_state \<Rightarrow> 'h
     \<Rightarrow> (int \<times> spidev_state \<times> 'h) kres" where
  "fpga_spi_write_k env addr data count s h =
     (if sel_locked s then Blocked
      else if \<not> bound s then Fault
      else
        (let s = s\<lparr>sel_locked := True\<rparr>;
             chip_se = kcs (spi_k s);
             chip_se_bak = sel s;
             s = set_chip 0 FPGA_CHIP s
         in case mix_spi_write_k env (spi_k s) (sel s) addr data count h of
              None \<Rightarrow> Fault
            | Some (ret, h) \<Rightarrow>
                Done (ret, (set_chip chip_se chip_se_bak s)\<lparr>sel_locked := False\<rparr>, h)))"

definition fpga_spi_read_k ::
  "'h spi_env \<Rightarrow> u16 \<Rightarrow> byte list option \<Rightarrow> nat \<Rightarrow> spidev_state \<Rightarrow> 'h
     \<Rightarrow> (int \<times> byte list option \<times> spidev_state \<times> 'h) kres" where
  "fpga_spi_read_k env addr data count s h =
     (if sel_locked s then Blocked
      else if \<not> bound s then Fault
      else
        (let s = s\<lparr>sel_locked := True\<rparr>;
             chip_se = kcs (spi_k s);
             chip_se_bak = sel s;
             s = set_chip 0 FPGA_CHIP s
         in case mix_spi_read_k env (spi_k s) (sel s) addr data count h of
              None \<Rightarrow> Fault
            | Some (ret, data, h) \<Rightarrow>
                Done (0, data, (set_chip chip_se chip_se_bak s)\<lparr>sel_locked := False\<rparr>, h)))"

definition WRITE_ONCE_REG :: u16 where "WRITE_ONCE_REG = 0x2000 + 0x0010"

definition unit_write_frame :: "byte \<Rightarrow> u16 \<Rightarrow> u16 \<Rightarrow> byte list" where
  "unit_write_frame slot addr wdata =
     [push_bit 4 (slot AND 0x0f) OR ucast (drop_bit 8 (addr AND 0xf00)),
      ucast (addr AND 0xff),
      ucast (drop_bit 8 (wdata AND 0xff00)),
      ucast (wdata AND 0xff)] @ replicate 28 0"

definition unitboard_fpga_write ::
  "'h spi_env \<Rightarrow> byte \<Rightarrow> u16 \<Rightarrow> u16 \<Rightarrow> spidev_state \<Rightarrow> 'h \<Rightarrow> (int \<times> spidev_state \<times> 'h) kres" where
  "unitboard_fpga_write env slot addr wdata s h =
     (case fpga_spi_write_k env WRITE_ONCE_REG (Some (unit_write_frame slot addr wdata)) 4 s h of
        Done (r, s, h) \<Rightarrow> Done (0, s, h)
      | Blocked \<Rightarrow> Blocked
      | Fault \<Rightarrow> Fault)"

section \<open>read, write and seek\<close>

text \<open>
  The structure the device's read and write exchange with the caller: chip select, register
  address, length and 64 data bytes, 70 bytes in all. \<open>sopt0\<close> is what the local
  variable holds on entry: the code does not check whether the copy from user memory succeeds.
\<close>

definition sizeof_rdwr :: nat where "sizeof_rdwr = 70"

definition rdwr_cs :: "byte list \<Rightarrow> byte" where "rdwr_cs sopt = sopt ! 0"
definition rdwr_addr :: "byte list \<Rightarrow> u16" where "rdwr_addr sopt = of_be16 (sopt ! 2) (sopt ! 3)"
definition rdwr_len :: "byte list \<Rightarrow> u16" where "rdwr_len sopt = of_be16 (sopt ! 4) (sopt ! 5)"

definition fetch_rdwr :: "user_mem \<Rightarrow> u32 \<Rightarrow> byte list \<Rightarrow> byte list" where
  "fetch_rdwr um buf sopt0 =
     (let bs = snd (copy_from_user_k um buf (of_nat sizeof_rdwr))
      in bs @ drop (length bs) sopt0)"

definition spidev_read ::
  "'h spi_env \<Rightarrow> byte list \<Rightarrow> user_mem \<Rightarrow> u32 \<Rightarrow> spidev_state \<Rightarrow> 'h
     \<Rightarrow> (int \<times> spidev_state \<times> user_mem \<times> 'h) kres" where
  "spidev_read env sopt0 um buf s h =
     (if sel_locked s then Blocked
      else
        (let sopt = fetch_rdwr um buf sopt0;
             ret = uint (rdwr_len sopt)
         in if rdwr_cs sopt \<noteq> 0 \<and> rdwr_cs sopt \<noteq> 1 then Done (ret, s, um, h)
            else if \<not> bound s then Fault
            else
              (let s = (if rdwr_cs sopt = 0 then set_chip 0 FPGA_CHIP s
                        else set_chip 1 DS31400_CHIP s)
               in if 64 < rdwr_len sopt then Done (ret, s, um, h)
                  else
                    (case mix_spi_read_k env (spi_k s) (sel s) (rdwr_addr sopt)
                            (Some (drop 6 sopt)) (unat (rdwr_len sopt)) h of
                       None \<Rightarrow> Fault
                     | Some (r, d, h) \<Rightarrow>
                         Done (ret, s,
                           snd (copy_to_user_k um buf
                             (take 6 sopt @ (case d of None \<Rightarrow> [] | Some b \<Rightarrow> b))), h)))))"

definition spidev_write ::
  "'h spi_env \<Rightarrow> byte list \<Rightarrow> user_mem \<Rightarrow> u32 \<Rightarrow> spidev_state \<Rightarrow> 'h
     \<Rightarrow> (int \<times> spidev_state \<times> 'h) kres" where
  "spidev_write env sopt0 um buf s h =
     (if sel_locked s then Blocked
      else
        (let sopt = fetch_rdwr um buf sopt0;
             ret = uint (rdwr_len sopt)
         in if rdwr_cs sopt \<noteq> 0 \<and> rdwr_cs sopt \<noteq> 1 then Done (ret, s, h)
            else if \<not> bound s then Fault
            else
              (let s = (if rdwr_cs sopt = 0 then set_chip 0 FPGA_CHIP s
                        else set_chip 1 DS31400_CHIP s)
               in if 64 < rdwr_len sopt then Done (ret, s, h)
                  else
                    (case mix_spi_write_k env (spi_k s) (sel s) (rdwr_addr sopt)
                            (Some (drop 6 sopt)) (unat (rdwr_len sopt)) h of
                       None \<Rightarrow> Fault
                     | Some (r, h) \<Rightarrow> Done (ret, s, h)))))"

definition spidev__llseek :: "int \<Rightarrow> int \<Rightarrow> int \<times> int" where
  "spidev__llseek offset f_pos =
     (if offset < 0 \<or> DS31400_REG_ADDR_MAX < offset then (- 1, f_pos) else (offset, offset))"

end
