(* ===== verification/Spidev_Ioctl.thy ===== *)
theory Spidev_Ioctl
  imports Spidev
begin

text \<open>
  The message and control interface of the SPI character device: \<open>spidev_sync\<close>,
  \<open>spidev_message\<close> and \<open>spidev_ioctl\<close> of \<open>drivers/spi/spidev.c\<close>, and \<open>spi_setup\<close> of
  \<open>drivers/spi/spi.c\<close>.
\<close>

section \<open>Messages\<close>

record ioc_xfer =
  x_tx_buf :: "64 word"
  x_rx_buf :: "64 word"
  x_len :: u32
  x_speed_hz :: u32
  x_delay_usecs :: u16
  x_bits_per_word :: byte
  x_cs_change :: byte

definition sizeof_ioc_xfer :: nat where "sizeof_ioc_xfer = 32"

definition be64_at :: "byte list \<Rightarrow> nat \<Rightarrow> 64 word" where
  "be64_at bs i = push_bit 32 (ucast (be32_at bs i)) OR ucast (be32_at bs (i + 4))"

definition decode_ioc_xfer :: "byte list \<Rightarrow> ioc_xfer" where
  "decode_ioc_xfer bs =
     \<lparr>x_tx_buf = be64_at bs 0, x_rx_buf = be64_at bs 8, x_len = be32_at bs 16,
      x_speed_hz = be32_at bs 20, x_delay_usecs = of_be16 (bs ! 24) (bs ! 25),
      x_bits_per_word = bs ! 26, x_cs_change = bs ! 27\<rparr>"

text \<open>
  The loop that builds the kernel's transfers. \<open>tot\<close> is at the same time the sum of the lengths,
  in 32 bits, and the position in the bounce buffer \<open>b\<close>. The result is an error code with
  the buffer, or the buffer, the transfers and the sum.
\<close>

fun msg_build ::
  "user_mem \<Rightarrow> byte list \<Rightarrow> u32 \<Rightarrow> ioc_xfer list
     \<Rightarrow> ((int \<times> byte list) + (byte list \<times> k_xfer list \<times> u32)) option" where
  "msg_build um b tot [] = Some (Inr (b, [], tot))"
| "msg_build um b tot (x # xs) =
     (if of_nat bufsiz < tot + x_len x then Some (Inl (- EMSGSIZE, b))
      else if x_rx_buf x \<noteq> 0 \<and> \<not> access_ok (ucast (x_rx_buf x)) (x_len x)
      then Some (Inl (- EFAULT, b))
      else
        (let (left, bs) = (if x_tx_buf x = 0 then (0, [])
                           else copy_from_user_k um (ucast (x_tx_buf x)) (x_len x))
         in case memcpy_at b (unat tot) bs of
              None \<Rightarrow> None
            | Some b \<Rightarrow>
                if left \<noteq> 0 then Some (Inl (- EFAULT, b))
                else
                  (case msg_build um b (tot + x_len x) xs of
                     None \<Rightarrow> None
                   | Some (Inl e) \<Rightarrow> Some (Inl e)
                   | Some (Inr (b, ks, t)) \<Rightarrow>
                       Some (Inr (b,
                         \<lparr>k_len = x_len x,
                          k_tx = (if x_tx_buf x = 0 then None else Some tot),
                          k_rx = (if x_rx_buf x = 0 then None else Some tot),
                          k_cs_change = (x_cs_change x \<noteq> 0),
                          k_bits = x_bits_per_word x,
                          k_delay = x_delay_usecs x,
                          k_speed = x_speed_hz x\<rparr> # ks, t)))))"

definition spidev_sync ::
  "'h spi_env \<Rightarrow> spidev_state \<Rightarrow> k_xfer list \<Rightarrow> byte list \<Rightarrow> 'h \<Rightarrow> (int \<times> byte list \<times> 'h) kres" where
  "spidev_sync env s ks b h =
     (if \<not> bound s then Done (- ESHUTDOWN, b, h)
      else
        kbind (e_msg env (spi_k s) ks b h) (\<lambda>((status, mstatus, actual, b'), h').
          Done (if status = 0 then (if mstatus = 0 then actual else mstatus) else status,
                fit (length b) b', h')))"

fun msg_copyout ::
  "user_mem \<Rightarrow> byte list \<Rightarrow> u32 \<Rightarrow> ioc_xfer list \<Rightarrow> (bool \<times> user_mem) option" where
  "msg_copyout um b pos [] = Some (True, um)"
| "msg_copyout um b pos (x # xs) =
     (if x_rx_buf x = 0 then msg_copyout um b (pos + x_len x) xs
      else
        (case memread_at b (unat pos) (unat (x_len x)) of
           None \<Rightarrow> None
         | Some bs \<Rightarrow>
             (let (left, um) = tofrom_write um (ucast (x_rx_buf x)) bs
              in if left \<noteq> 0 then Some (False, um)
                 else msg_copyout um b (pos + x_len x) xs)))"

definition spidev_message ::
  "'h spi_env \<Rightarrow> user_mem \<Rightarrow> ioc_xfer list \<Rightarrow> spidev_state \<Rightarrow> 'h
     \<Rightarrow> (int \<times> spidev_state \<times> user_mem \<times> 'h) kres" where
  "spidev_message env um xs s h =
     (if \<not> e_kcalloc env (length xs) then Done (- ENOMEM, s, um, h)
      else
        (case sbuffer s of
           None \<Rightarrow> Fault
         | Some b \<Rightarrow>
             (case msg_build um b 0 xs of
                None \<Rightarrow> Fault
              | Some (Inl (e, b)) \<Rightarrow> Done (e, s\<lparr>sbuffer := Some b\<rparr>, um, h)
              | Some (Inr (b, ks, tot)) \<Rightarrow>
                  kbind (spidev_sync env s ks b h) (\<lambda>(status, b, h).
                    if status < 0 then Done (status, s\<lparr>sbuffer := Some b\<rparr>, um, h)
                    else
                      (case msg_copyout um b 0 xs of
                         None \<Rightarrow> Fault
                       | Some (ok, um) \<Rightarrow>
                           Done (if ok then uint tot else - EFAULT,
                                 s\<lparr>sbuffer := Some b\<rparr>, um, h))))))"

section \<open>Control calls\<close>

definition SPI_IOC_MAGIC :: u32 where "SPI_IOC_MAGIC = 0x6b"
definition SPI_IOC_RD_MODE :: u32 where "SPI_IOC_RD_MODE = IOR_nr SPI_IOC_MAGIC 1 1"
definition SPI_IOC_WR_MODE :: u32 where "SPI_IOC_WR_MODE = IOW_nr SPI_IOC_MAGIC 1 1"
definition SPI_IOC_RD_LSB_FIRST :: u32 where "SPI_IOC_RD_LSB_FIRST = IOR_nr SPI_IOC_MAGIC 2 1"
definition SPI_IOC_WR_LSB_FIRST :: u32 where "SPI_IOC_WR_LSB_FIRST = IOW_nr SPI_IOC_MAGIC 2 1"
definition SPI_IOC_RD_BITS_PER_WORD :: u32 where
  "SPI_IOC_RD_BITS_PER_WORD = IOR_nr SPI_IOC_MAGIC 3 1"
definition SPI_IOC_WR_BITS_PER_WORD :: u32 where
  "SPI_IOC_WR_BITS_PER_WORD = IOW_nr SPI_IOC_MAGIC 3 1"
definition SPI_IOC_RD_MAX_SPEED_HZ :: u32 where
  "SPI_IOC_RD_MAX_SPEED_HZ = IOR_nr SPI_IOC_MAGIC 4 4"
definition SPI_IOC_WR_MAX_SPEED_HZ :: u32 where
  "SPI_IOC_WR_MAX_SPEED_HZ = IOW_nr SPI_IOC_MAGIC 4 4"
definition W25_ERASE_CHIP :: u32 where "W25_ERASE_CHIP = IOW_nr SPI_IOC_MAGIC 9 1"
definition W25_ERASE_SECTOR :: u32 where "W25_ERASE_SECTOR = IOW_nr SPI_IOC_MAGIC 10 4"
definition W25P16_READ :: u32 where "W25P16_READ = IOR_nr SPI_IOC_MAGIC 11 4"
definition W25P16_WRITE :: u32 where "W25P16_WRITE = IOW_nr SPI_IOC_MAGIC 12 4"
definition W25P1165_ID :: u32 where "W25P1165_ID = IOR_nr SPI_IOC_MAGIC 13 1"
definition SPI_IOC_OPER_FLASH :: u32 where "SPI_IOC_OPER_FLASH = IOW_nr SPI_IOC_MAGIC 14 1"
definition SPI_IOC_OPER_FLASH_DONE :: u32 where
  "SPI_IOC_OPER_FLASH_DONE = IOW_nr SPI_IOC_MAGIC 15 1"

lemmas spi_ioc_defs = SPI_IOC_RD_MODE_def SPI_IOC_WR_MODE_def SPI_IOC_RD_LSB_FIRST_def
  SPI_IOC_WR_LSB_FIRST_def SPI_IOC_RD_BITS_PER_WORD_def SPI_IOC_WR_BITS_PER_WORD_def
  SPI_IOC_RD_MAX_SPEED_HZ_def SPI_IOC_WR_MAX_SPEED_HZ_def W25_ERASE_CHIP_def W25_ERASE_SECTOR_def
  W25P16_READ_def W25P16_WRITE_def W25P1165_ID_def SPI_IOC_OPER_FLASH_def
  SPI_IOC_OPER_FLASH_DONE_def SPI_IOC_MAGIC_def ioc_defs

definition SPI_MODE_MASK :: byte where
  "SPI_MODE_MASK = 0x01 OR 0x02 OR 0x04 OR 0x08 OR 0x10 OR 0x20 OR 0x40 OR 0x80"

definition SPI_LSB_FIRST_k :: byte where "SPI_LSB_FIRST_k = 0x08"

definition spi_setup_k :: "'h spi_env \<Rightarrow> spi_dev_k \<Rightarrow> 'h \<Rightarrow> int \<times> spi_dev_k \<times> 'h" where
  "spi_setup_k env spi h =
     (if kmode spi AND NOT (e_mode_bits env) \<noteq> 0 then (- EINVAL, spi, h)
      else
        (let spi = (if kbits spi = 0 then spi\<lparr>kbits := 8\<rparr> else spi);
             (status, h) = e_setup env spi h
         in (status, spi, h)))"

text \<open>One byte or one word of the caller's memory.\<close>

definition get_user8 :: "user_mem \<Rightarrow> u32 \<Rightarrow> byte option" where
  "get_user8 um a = map_option (\<lambda>bs. bs ! 0) (copy_from_user um a 1)"

definition get_user32 :: "user_mem \<Rightarrow> u32 \<Rightarrow> u32 option" where
  "get_user32 um a = map_option (\<lambda>bs. be32_at bs 0) (copy_from_user um a 4)"

text \<open>
  The four calls that change a setting: store it, set the device up, and put the old value back
  when that fails.
\<close>

definition wr_setting ::
  "'h spi_env \<Rightarrow> (spi_dev_k \<Rightarrow> spi_dev_k) \<Rightarrow> (spi_dev_k \<Rightarrow> spi_dev_k \<Rightarrow> spi_dev_k) \<Rightarrow> spidev_state \<Rightarrow> 'h
     \<Rightarrow> int \<times> spidev_state \<times> 'h" where
  "wr_setting env set_new restore s h =
     (case spi_setup_k env (set_new (spi_k s)) h of
        (retval, spi, h) \<Rightarrow>
          (retval, s\<lparr>spi_k := (if retval < 0 then restore (spi_k s) spi else spi)\<rparr>, h))"

definition keep_mode :: "spi_dev_k \<Rightarrow> spi_dev_k \<Rightarrow> spi_dev_k" where
  "keep_mode old spi = spi\<lparr>kmode := kmode old\<rparr>"
definition keep_bits :: "spi_dev_k \<Rightarrow> spi_dev_k \<Rightarrow> spi_dev_k" where
  "keep_bits old spi = spi\<lparr>kbits := kbits old\<rparr>"
definition keep_speed :: "spi_dev_k \<Rightarrow> spi_dev_k \<Rightarrow> spi_dev_k" where
  "keep_speed old spi = spi\<lparr>kspeed := kspeed old\<rparr>"

definition ioctl_wr_mode ::
  "'h spi_env \<Rightarrow> user_mem \<Rightarrow> u32 \<Rightarrow> spidev_state \<Rightarrow> 'h \<Rightarrow> int \<times> spidev_state \<times> 'h" where
  "ioctl_wr_mode env um arg s h =
     (case get_user8 um arg of
        None \<Rightarrow> (- EFAULT, s, h)
      | Some tmp \<Rightarrow>
          if (ucast tmp :: u32) AND NOT (ucast SPI_MODE_MASK) \<noteq> 0 then (- EINVAL, s, h)
          else
            wr_setting env
              (\<lambda>spi. spi\<lparr>kmode := tmp OR (kmode spi AND NOT SPI_MODE_MASK)\<rparr>) keep_mode s h)"

definition ioctl_wr_lsb_first ::
  "'h spi_env \<Rightarrow> user_mem \<Rightarrow> u32 \<Rightarrow> spidev_state \<Rightarrow> 'h \<Rightarrow> int \<times> spidev_state \<times> 'h" where
  "ioctl_wr_lsb_first env um arg s h =
     (case get_user8 um arg of
        None \<Rightarrow> (- EFAULT, s, h)
      | Some tmp \<Rightarrow>
          wr_setting env
            (\<lambda>spi. spi\<lparr>kmode := (if tmp \<noteq> 0 then kmode spi OR SPI_LSB_FIRST_k
                                else kmode spi AND NOT SPI_LSB_FIRST_k)\<rparr>) keep_mode s h)"

definition ioctl_wr_bits ::
  "'h spi_env \<Rightarrow> user_mem \<Rightarrow> u32 \<Rightarrow> spidev_state \<Rightarrow> 'h \<Rightarrow> int \<times> spidev_state \<times> 'h" where
  "ioctl_wr_bits env um arg s h =
     (case get_user8 um arg of
        None \<Rightarrow> (- EFAULT, s, h)
      | Some tmp \<Rightarrow> wr_setting env (\<lambda>spi. spi\<lparr>kbits := tmp\<rparr>) keep_bits s h)"

definition ioctl_wr_speed ::
  "'h spi_env \<Rightarrow> user_mem \<Rightarrow> u32 \<Rightarrow> spidev_state \<Rightarrow> 'h \<Rightarrow> int \<times> spidev_state \<times> 'h" where
  "ioctl_wr_speed env um arg s h =
     (case get_user32 um arg of
        None \<Rightarrow> (- EFAULT, s, h)
      | Some tmp \<Rightarrow> wr_setting env (\<lambda>spi. spi\<lparr>kspeed := tmp\<rparr>) keep_speed s h)"

text \<open>Selecting the flash, which keeps the mutex, and giving it back.\<close>

definition set_cs_setup :: "'h spi_env \<Rightarrow> byte \<Rightarrow> spidev_state \<Rightarrow> 'h \<Rightarrow> spidev_state \<times> 'h" where
  "set_cs_setup env cs s h =
     (case spi_setup_k env ((spi_k s)\<lparr>kcs := cs\<rparr>) h of
        (r, spi, h) \<Rightarrow> (s\<lparr>spi_k := spi\<rparr>, h))"

definition ioctl_oper_flash ::
  "'h spi_env \<Rightarrow> spidev_state \<Rightarrow> 'h \<Rightarrow> (int \<times> spidev_state \<times> 'h) kres" where
  "ioctl_oper_flash env s h =
     (if sel_locked s then Blocked
      else
        (case set_cs_setup env 2 (s\<lparr>sel_locked := True\<rparr>) h of
           (s, h) \<Rightarrow> Done (0, s\<lparr>gpio_flash := False, sel := FLASH_FPGA\<rparr>, h)))"

definition ioctl_oper_flash_done ::
  "'h spi_env \<Rightarrow> spidev_state \<Rightarrow> 'h \<Rightarrow> int \<times> spidev_state \<times> 'h" where
  "ioctl_oper_flash_done env s h =
     (case set_cs_setup env 0 s h of
        (s, h) \<Rightarrow> (0, s\<lparr>sel := FPGA_CHIP, gpio_flash := True, sel_locked := False\<rparr>, h))"

text \<open>
  The flash calls. The flash refers to the same device, so it uses the device's current chip
  select. The structure exchanged with the caller is a 64-bit address, a 32-bit length and 256
  bytes, padded to 272.
\<close>

definition flash_now :: "spidev_state \<Rightarrow> w25p" where
  "flash_now s = (flash_k s)\<lparr>flash_cs := kcs (spi_k s)\<rparr>"

definition sizeof_rw_date :: nat where "sizeof_rw_date = 272"

definition ioctl_flash_read ::
  "'h spi_env \<Rightarrow> user_mem \<Rightarrow> u32 \<Rightarrow> spidev_state \<Rightarrow> 'h
     \<Rightarrow> (int \<times> spidev_state \<times> user_mem \<times> 'h) kres" where
  "ioctl_flash_read env um arg s h =
     (case copy_from_user_k um arg (of_nat sizeof_rw_date) of
        (left, date) \<Rightarrow>
          if left \<noteq> 0 then Done (uint left, s, um, h)
          else
            (case w25p16_read (e_bus env (spi_k s)) (fst (e_stack env)) (snd (e_stack env))
                    (flash_now s) (be64_at date 0) (be32_at date 8) (take 256 (drop 12 date)) h of
               None \<Rightarrow> Fault
             | Some (retval, retlen, buf, flash, h) \<Rightarrow>
                 if retval \<noteq> 0 then Done (retval, s\<lparr>flash_k := flash\<rparr>, um, h)
                 else
                   (case copy_to_user_k um arg (take 12 date @ buf @ drop 268 date) of
                      (left, um) \<Rightarrow> Done (uint left, s\<lparr>flash_k := flash\<rparr>, um, h))))"

definition ioctl_flash_write ::
  "'h spi_env \<Rightarrow> user_mem \<Rightarrow> u32 \<Rightarrow> spidev_state \<Rightarrow> 'h
     \<Rightarrow> (int \<times> spidev_state \<times> user_mem \<times> 'h) kres" where
  "ioctl_flash_write env um arg s h =
     (case copy_from_user_k um arg (of_nat sizeof_rw_date) of
        (left, date) \<Rightarrow>
          if left \<noteq> 0 then Done (uint left, s, um, h)
          else
            (case w25p16_write (e_bus env (spi_k s)) (flash_now s) (be64_at date 0)
                    (be32_at date 8) (take 256 (drop 12 date)) h of
               None \<Rightarrow> Fault
             | Some (retval, retlen, flash, h) \<Rightarrow>
                 if retval \<noteq> 0 then Done (retval, s\<lparr>flash_k := flash\<rparr>, um, h)
                 else
                   (case copy_to_user_k um arg date of
                      (left, um) \<Rightarrow> Done (uint left, s\<lparr>flash_k := flash\<rparr>, um, h))))"

text \<open>The default branch: a message, the number of transfers given by the size of the command.\<close>

fun decode_xfers :: "nat \<Rightarrow> byte list \<Rightarrow> ioc_xfer list" where
  "decode_xfers 0 bs = []"
| "decode_xfers (Suc n) bs = decode_ioc_xfer bs # decode_xfers n (drop sizeof_ioc_xfer bs)"

definition ioctl_message ::
  "'h spi_env \<Rightarrow> user_mem \<Rightarrow> u32 \<Rightarrow> u32 \<Rightarrow> spidev_state \<Rightarrow> 'h
     \<Rightarrow> (int \<times> spidev_state \<times> user_mem \<times> 'h) kres" where
  "ioctl_message env um cmd arg s h =
     (if IOC_NR cmd \<noteq> 0 \<or> IOC_DIR cmd \<noteq> 4 then Done (- ENOTTY, s, um, h)
      else
        (let tmp = unat (IOC_SIZE cmd);
             n_ioc = tmp div sizeof_ioc_xfer
         in if tmp mod sizeof_ioc_xfer \<noteq> 0 then Done (- EINVAL, s, um, h)
            else if n_ioc = 0 then Done (0, s, um, h)
            else if \<not> e_kmalloc env tmp then Done (- ENOMEM, s, um, h)
            else
              (case copy_from_user um arg tmp of
                 None \<Rightarrow> Done (- EFAULT, s, um, h)
               | Some ioc \<Rightarrow> spidev_message env um (decode_xfers n_ioc ioc) s h)))"

definition with_um ::
  "user_mem \<Rightarrow> int \<times> spidev_state \<times> 'h \<Rightarrow> (int \<times> spidev_state \<times> user_mem \<times> 'h) kres" where
  "with_um um = (\<lambda>(r, s, h). Done (r, s, um, h))"

definition with_mem ::
  "spidev_state \<Rightarrow> 'h \<Rightarrow> int \<times> user_mem \<Rightarrow> (int \<times> spidev_state \<times> user_mem \<times> 'h) kres" where
  "with_mem s h = (\<lambda>(r, um). Done (r, s, um, h))"

definition spidev_ioctl ::
  "'h spi_env \<Rightarrow> user_mem \<Rightarrow> u32 \<Rightarrow> u32 \<Rightarrow> spidev_state \<Rightarrow> 'h
     \<Rightarrow> (int \<times> spidev_state \<times> user_mem \<times> 'h) kres" where
  "spidev_ioctl env um cmd arg s h =
     (if IOC_TYPE cmd \<noteq> SPI_IOC_MAGIC then Done (- ENOTTY, s, um, h)
      else if IOC_DIR cmd AND 2 \<noteq> 0 \<and> \<not> access_ok arg (IOC_SIZE cmd) then Done (- EFAULT, s, um, h)
      else if IOC_DIR cmd AND 4 \<noteq> 0 \<and> \<not> access_ok arg (IOC_SIZE cmd) then Done (- EFAULT, s, um, h)
      else if \<not> bound s then Done (- ESHUTDOWN, s, um, h)
      else if cmd = SPI_IOC_RD_MODE then
        with_mem s h (put_user_bytes um arg [kmode (spi_k s) AND SPI_MODE_MASK])
      else if cmd = SPI_IOC_RD_LSB_FIRST then
        with_mem s h (put_user_bytes um arg
          [if kmode (spi_k s) AND SPI_LSB_FIRST_k \<noteq> 0 then 1 else 0])
      else if cmd = SPI_IOC_RD_BITS_PER_WORD then
        with_mem s h (put_user_bytes um arg [kbits (spi_k s)])
      else if cmd = SPI_IOC_RD_MAX_SPEED_HZ then
        with_mem s h (put_user_bytes um arg (be32 (kspeed (spi_k s))))
      else if cmd = SPI_IOC_WR_MODE then with_um um (ioctl_wr_mode env um arg s h)
      else if cmd = SPI_IOC_WR_LSB_FIRST then with_um um (ioctl_wr_lsb_first env um arg s h)
      else if cmd = SPI_IOC_WR_BITS_PER_WORD then with_um um (ioctl_wr_bits env um arg s h)
      else if cmd = SPI_IOC_WR_MAX_SPEED_HZ then with_um um (ioctl_wr_speed env um arg s h)
      else if cmd = SPI_IOC_OPER_FLASH then
        (case ioctl_oper_flash env s h of
           Done r \<Rightarrow> with_um um r | Blocked \<Rightarrow> Blocked | Fault \<Rightarrow> Fault)
      else if cmd = SPI_IOC_OPER_FLASH_DONE then with_um um (ioctl_oper_flash_done env s h)
      else if cmd = W25_ERASE_CHIP then
        (case erase_chip (e_bus env (spi_k s)) (flash_now s) h of
           (r, flash, h) \<Rightarrow> Done (r, s\<lparr>flash_k := flash\<rparr>, um, h))
      else if cmd = W25_ERASE_SECTOR then
        (case get_user32 um arg of
           None \<Rightarrow> Done (- EFAULT, s, um, h)
         | Some tmp \<Rightarrow>
             (case erase_sector (e_bus env (spi_k s)) (flash_now s) tmp h of
                (r, flash, h) \<Rightarrow> Done (r, s\<lparr>flash_k := flash\<rparr>, um, h)))
      else if cmd = W25P16_READ then ioctl_flash_read env um arg s h
      else if cmd = W25P16_WRITE then ioctl_flash_write env um arg s h
      else if cmd = W25P1165_ID then
        (case set_cs_setup env 2 s h of
           (s, h) \<Rightarrow> ioctl_message env um cmd arg s
             (snd (w25p16_read_id (e_bus env (spi_k s)) (kcs (spi_k s)) h)))
      else ioctl_message env um cmd arg s h)"

end
