(* ===== verification/Spidev_Devices.thy ===== *)
theory Spidev_Devices
  imports Spidev_Ioctl
begin

text \<open>
  The life cycle of the SPI character devices (\<open>drivers/spi/spidev.c\<close>): \<open>spidev_probe\<close>,
  \<open>spidev_remove\<close>, \<open>spidev_open\<close> and \<open>spidev_release\<close>. The driver's data structures are heap
  objects; a freed object is not in the heap any more and an access to it is the value \<^term>\<open>None\<close>.
  The SPI devices, the open files and the heap addresses are numbered.
\<close>

section \<open>State\<close>

definition N_SPI_MINORS :: nat where "N_SPI_MINORS = 32"

record spidev_data =
  devt :: nat
  spi_ptr :: "nat option"
  usrs :: u32
  has_buffer :: bool

record devices =
  heap :: "nat \<Rightarrow> spidev_data option"
  device_list :: "nat list"
  minors :: "bool list"
  drvdata :: "nat \<Rightarrow> nat option"
  open_files :: "(nat \<times> nat) list"
  global_spidev :: "nat option"
  chip_sel_locked :: bool
  spi_settings :: "nat \<Rightarrow> spi_dev_k"
  flash_dev :: "(nat \<times> 64 word) option"

definition no_devices :: devices where
  "no_devices = \<lparr>heap = (\<lambda>p. None), device_list = [], minors = replicate N_SPI_MINORS False,
     drvdata = (\<lambda>i. None), open_files = [], global_spidev = None, chip_sel_locked = False,
     spi_settings = (\<lambda>i. \<lparr>kcs = 0, kmode = 0, kbits = 0, kspeed = 0\<rparr>), flash_dev = None\<rparr>"

text \<open>The index of the first clear bit, the number of bits when there is none.\<close>

fun find_first_zero_bit :: "bool list \<Rightarrow> nat" where
  "find_first_zero_bit [] = 0"
| "find_first_zero_bit (b # bs) = (if b then Suc (find_first_zero_bit bs) else 0)"

section \<open>Operations\<close>

text \<open>
  The driver data of \<open>spidev_probe\<close>: \<open>p\<close> is the address the allocator returned, \<open>created\<close> the result
  of creating the device node.
\<close>

definition probe_data :: "nat \<Rightarrow> int \<Rightarrow> nat \<Rightarrow> devices \<Rightarrow> int \<times> devices" where
  "probe_data p created spi s =
     (let minor = find_first_zero_bit (minors s);
          status = (if minor < N_SPI_MINORS then created else - ENODEV);
          obj = \<lparr>devt = (if minor < N_SPI_MINORS then minor else 0), spi_ptr = Some spi,
                 usrs = 0, has_buffer = False\<rparr>
      in if status = 0
         then (status,
           s\<lparr>heap := (heap s)(p \<mapsto> obj), minors := (minors s)[minor := True],
             device_list := p # device_list s, drvdata := (drvdata s)(spi \<mapsto> p)\<rparr>)
         else (status, s\<lparr>heap := (heap s)(p := None)\<rparr>))"

text \<open>What probing does to the SPI device itself: speed, chip select, mode and a read of the ID.\<close>

definition probe_settings :: "'h spi_env \<Rightarrow> spi_dev_k \<Rightarrow> 'h \<Rightarrow> spi_dev_k \<times> 'h" where
  "probe_settings env spi h =
     (case spi_setup_k env (spi\<lparr>kspeed := 6500000, kcs := 2, kmode := 3\<rparr>) h of
        (r, spi, h) \<Rightarrow> (spi, snd (w25p16_read_id (e_bus env spi) (kcs spi) h)))"

text \<open>
  \<open>spidev_probe\<close>: the mutex is made new and the global pointer set before the outcome is known; the
  device is set up and the flash attached to it also when there is no minor number.
\<close>

definition spidev_probe ::
  "'h spi_env \<Rightarrow> nat option \<Rightarrow> int \<Rightarrow> nat \<Rightarrow> devices \<Rightarrow> 'h \<Rightarrow> int \<times> devices \<times> 'h" where
  "spidev_probe env alloc created spi s h =
     (let s = s\<lparr>chip_sel_locked := False, global_spidev := alloc\<rparr>
      in case alloc of
           None \<Rightarrow> (- ENOMEM, s, h)
         | Some p \<Rightarrow>
             (let (status, s) = probe_data p created spi s;
                  (dev, h) = probe_settings env (spi_settings s spi) h
              in (status,
                  s\<lparr>spi_settings := (spi_settings s)(spi := dev),
                    flash_dev := Some (spi, 0x7fffff)\<rparr>, h)))"

definition spidev_remove :: "nat \<Rightarrow> devices \<Rightarrow> (int \<times> devices) option" where
  "spidev_remove spi s = do {
     p \<leftarrow> drvdata s spi;
     obj \<leftarrow> heap s p;
     let obj = obj\<lparr>spi_ptr := None\<rparr>;
     let s = s\<lparr>heap := (heap s)(p \<mapsto> obj), drvdata := (drvdata s)(spi := None),
               device_list := remove1 p (device_list s),
               minors := (minors s)[devt obj := False]\<rparr>;
     Some (0, if usrs obj = 0 then s\<lparr>heap := (heap s)(p := None)\<rparr> else s)
   }"

text \<open>The first device of the list with a given number; a freed entry would be an error.\<close>

fun find_devt :: "(nat \<Rightarrow> spidev_data option) \<Rightarrow> nat \<Rightarrow> nat list \<Rightarrow> nat option option" where
  "find_devt hp m [] = Some None"
| "find_devt hp m (p # ps) =
     (case hp p of
        None \<Rightarrow> None
      | Some obj \<Rightarrow> if devt obj = m then Some (Some p) else find_devt hp m ps)"

definition spidev_open :: "bool \<Rightarrow> nat \<Rightarrow> nat \<Rightarrow> devices \<Rightarrow> (int \<times> devices) option" where
  "spidev_open kmalloc m filp s = do {
     r \<leftarrow> find_devt (heap s) m (device_list s);
     (case r of
        None \<Rightarrow> Some (- ENXIO, s)
      | Some p \<Rightarrow> do {
          obj \<leftarrow> heap s p;
          if \<not> has_buffer obj \<and> \<not> kmalloc then Some (- ENOMEM, s)
          else
            (let obj = obj\<lparr>has_buffer := True, usrs := usrs obj + 1\<rparr>
             in Some (0, s\<lparr>heap := (heap s)(p \<mapsto> obj), open_files := (filp, p) # open_files s\<rparr>))
        })
   }"

definition spidev_release :: "nat \<Rightarrow> devices \<Rightarrow> (int \<times> devices) option" where
  "spidev_release filp s = do {
     p \<leftarrow> map_of (open_files s) filp;
     obj \<leftarrow> heap s p;
     let obj = obj\<lparr>usrs := usrs obj - 1\<rparr>;
     let s = s\<lparr>open_files := filter (\<lambda>x. fst x \<noteq> filp) (open_files s)\<rparr>;
     Some (0,
       if usrs obj = 0
       then (if spi_ptr obj = None then s\<lparr>heap := (heap s)(p := None)\<rparr>
             else s\<lparr>heap := (heap s)(p \<mapsto> obj\<lparr>has_buffer := False\<rparr>)\<rparr>)
       else s\<lparr>heap := (heap s)(p \<mapsto> obj)\<rparr>)
   }"

section \<open>Histories\<close>

text \<open>
  What the kernel does with the driver: it probes an SPI device that has no driver data with fresh
  memory, removes one that has, opens with a new file and releases an open one. There are fewer
  than \<open>2 ^ 32 - 1\<close> open files.
\<close>

inductive dev_step :: "'h spi_env \<Rightarrow> devices \<Rightarrow> devices \<Rightarrow> bool" for env where
  probe: "drvdata s spi = None \<Longrightarrow> (\<And>p. alloc = Some p \<Longrightarrow> heap s p = None) \<Longrightarrow> created \<le> 0 \<Longrightarrow>
    spidev_probe env alloc created spi s h = (r, s', h') \<Longrightarrow> dev_step env s s'"
| remove: "drvdata s spi \<noteq> None \<Longrightarrow> spidev_remove spi s = Some (r, s') \<Longrightarrow> dev_step env s s'"
| op: "filp \<notin> fst ` set (open_files s) \<Longrightarrow> length (open_files s) < 2 ^ 32 - 1 \<Longrightarrow>
    spidev_open kmalloc m filp s = Some (r, s') \<Longrightarrow> dev_step env s s'"
| release: "filp \<in> fst ` set (open_files s) \<Longrightarrow> spidev_release filp s = Some (r, s') \<Longrightarrow>
    dev_step env s s'"

definition dev_init :: "devices \<Rightarrow> bool" where "dev_init s \<longleftrightarrow> s = no_devices"

definition users_of :: "nat \<Rightarrow> (nat \<times> nat) list \<Rightarrow> nat" where
  "users_of p fs = length (filter (\<lambda>x. snd x = p) fs)"

text \<open>
  The invariant: the list holds the bound objects, each once and each with its own number below 32;
  the bitmap marks exactly those numbers; driver data and objects point to each other; an open file
  refers to an object in the heap; an object counts its open files, has a buffer exactly while
  there are some, and outlives its removal only while there are some.
\<close>

definition bound_obj :: "devices \<Rightarrow> nat \<Rightarrow> nat \<Rightarrow> nat \<Rightarrow> bool" where
  "bound_obj s p spi m \<longleftrightarrow> (\<exists>obj. heap s p = Some obj \<and> spi_ptr obj = Some spi \<and> devt obj = m)"

definition list_inv :: "devices \<Rightarrow> bool" where
  "list_inv s \<longleftrightarrow> distinct (device_list s) \<and>
     (\<forall>p. p \<in> set (device_list s) \<longleftrightarrow> (\<exists>spi m. bound_obj s p spi m)) \<and>
     (\<forall>spi p. drvdata s spi = Some p \<longleftrightarrow> (\<exists>m. bound_obj s p spi m))"

definition minor_inv :: "devices \<Rightarrow> bool" where
  "minor_inv s \<longleftrightarrow> length (minors s) = N_SPI_MINORS \<and>
     (\<forall>i. (i < N_SPI_MINORS \<and> minors s ! i) \<longleftrightarrow> (\<exists>p spi. bound_obj s p spi i)) \<and>
     (\<forall>p q spi spi' m. bound_obj s p spi m \<and> bound_obj s q spi' m \<longrightarrow> p = q)"

definition obj_ok :: "devices \<Rightarrow> nat \<Rightarrow> spidev_data \<Rightarrow> bool" where
  "obj_ok s p obj \<longleftrightarrow> usrs obj = of_nat (users_of p (open_files s)) \<and>
     (has_buffer obj \<longleftrightarrow> 0 < users_of p (open_files s)) \<and>
     (spi_ptr obj = None \<longrightarrow> 0 < users_of p (open_files s))"

definition file_inv :: "devices \<Rightarrow> bool" where
  "file_inv s \<longleftrightarrow> distinct (map fst (open_files s)) \<and>
     length (open_files s) < 2 ^ 32 \<and>
     (\<forall>x \<in> set (open_files s). heap s (snd x) \<noteq> None) \<and>
     (\<forall>p obj. heap s p = Some obj \<longrightarrow> obj_ok s p obj)"

definition dev_inv :: "devices \<Rightarrow> bool" where
  "dev_inv s \<longleftrightarrow> list_inv s \<and> minor_inv s \<and> file_inv s"

section \<open>Every operation keeps the invariant\<close>

lemma find_first_zero_bit_nth:
  "find_first_zero_bit bs < length bs \<Longrightarrow> \<not> bs ! find_first_zero_bit bs"
  by (induction bs) (auto split: if_splits)

lemma find_first_zero_bit_before: "i < find_first_zero_bit bs \<Longrightarrow> i < length bs \<and> bs ! i"
proof (induction bs arbitrary: i)
  case (Cons b bs)
  then show ?case by (cases i) (auto split: if_splits)
qed simp

lemma users_of_simps [simp]:
  "users_of p [] = 0" "users_of p ((f, q) # fs) = (if q = p then 1 else 0) + users_of p fs"
  by (simp_all add: users_of_def)

lemma users_of_le: "users_of p fs \<le> length fs"
  by (simp add: users_of_def)

lemma users_of_0_iff: "users_of p fs = 0 \<longleftrightarrow> (\<forall>x \<in> set fs. snd x \<noteq> p)"
  by (auto simp: users_of_def filter_empty_conv)

lemma users_of_release:
  "distinct (map fst fs) \<Longrightarrow> map_of fs f = Some p \<Longrightarrow>
     users_of q fs = (if q = p then 1 else 0) + users_of q (filter (\<lambda>x. fst x \<noteq> f) fs)"
proof (induction fs)
  case (Cons x fs)
  obtain g r where x: "x = (g, r)" by fastforce
  show ?case
  proof (cases "g = f")
    case True
    then have "\<forall>y \<in> set fs. fst y \<noteq> f" using Cons.prems(1) x by force
    then have "filter (\<lambda>x. fst x \<noteq> f) fs = fs" by (simp add: filter_id_conv)
    then show ?thesis using True Cons.prems x by simp
  next
    case False
    then show ?thesis using Cons x by simp
  qed
qed simp

lemma minor_invI:
  assumes "length (minors s) = N_SPI_MINORS"
    and "\<And>i. (i < N_SPI_MINORS \<and> minors s ! i) \<longleftrightarrow> (\<exists>p spi. bound_obj s p spi i)"
    and "\<And>p q spi spi' m. bound_obj s p spi m \<Longrightarrow> bound_obj s q spi' m \<Longrightarrow> p = q"
  shows "minor_inv s"
  unfolding minor_inv_def using assms by blast

lemma minor_invD:
  assumes "dev_inv s"
  shows "length (minors s) = N_SPI_MINORS"
    and "(i < N_SPI_MINORS \<and> minors s ! i) \<longleftrightarrow> (\<exists>p spi. bound_obj s p spi i)"
    and "bound_obj s p spi m \<Longrightarrow> bound_obj s q spi' m \<Longrightarrow> p = q"
  using assms unfolding dev_inv_def minor_inv_def by blast+

lemma file_invI:
  assumes "distinct (map fst (open_files s))" "length (open_files s) < 2 ^ 32"
    and "\<And>x. x \<in> set (open_files s) \<Longrightarrow> heap s (snd x) \<noteq> None"
    and "\<And>p obj. heap s p = Some obj \<Longrightarrow> obj_ok s p obj"
  shows "file_inv s"
  unfolding file_inv_def using assms by blast

lemma file_invD:
  assumes "dev_inv s"
  shows "distinct (map fst (open_files s))" "length (open_files s) < 2 ^ 32"
    and "x \<in> set (open_files s) \<Longrightarrow> heap s (snd x) \<noteq> None"
    and "heap s p = Some obj \<Longrightarrow> obj_ok s p obj"
  using assms unfolding dev_inv_def file_inv_def by blast+

lemma dev_inv_init: "dev_inv no_devices"
  by (simp add: dev_inv_def list_inv_def minor_inv_def file_inv_def no_devices_def bound_obj_def)

lemma dev_inv_cong:
  assumes "heap t = heap s" "device_list t = device_list s" "minors t = minors s"
    "drvdata t = drvdata s" "open_files t = open_files s"
  shows "dev_inv t = dev_inv s"
proof -
  have "bound_obj t = bound_obj s" "obj_ok t = obj_ok s"
    using assms by (simp_all add: bound_obj_def obj_ok_def fun_eq_iff)
  then show ?thesis
    using assms by (simp add: dev_inv_def list_inv_def minor_inv_def file_inv_def)
qed

text \<open>Adding a bound object under a fresh address and a free number.\<close>

lemma dev_inv_add:
  assumes "dev_inv s" "heap s p = None" "drvdata s spi = None"
    and "m < N_SPI_MINORS" "\<not> minors s ! m"
    and "t = s\<lparr>heap := (heap s)(p \<mapsto> \<lparr>devt = m, spi_ptr = Some spi, usrs = 0, has_buffer = False\<rparr>),
      minors := (minors s)[m := True], device_list := p # device_list s,
      drvdata := (drvdata s)(spi \<mapsto> p)\<rparr>"
  shows "dev_inv t"
proof -
  have b: "bound_obj t q sp i \<longleftrightarrow> (if q = p then sp = spi \<and> i = m else bound_obj s q sp i)" for q sp i
    using assms(6) by (auto simp: bound_obj_def)
  have n: "\<not> bound_obj s p sp i" for sp i using assms(2) by (simp add: bound_obj_def)
  have nm: "\<not> bound_obj s q sp m" for q sp
    using assms(1,5) by (auto simp: dev_inv_def minor_inv_def)
  have ns: "\<not> bound_obj s q spi i" for q i
    using assms(1,3) unfolding dev_inv_def list_inv_def by (metis option.distinct(1))
  have nf: "users_of p (open_files s) = 0"
    using assms(1,2) by (auto simp: dev_inv_def file_inv_def users_of_0_iff)
  have f: "device_list t = p # device_list s" "drvdata t = (drvdata s)(spi \<mapsto> p)"
    "minors t = (minors s)[m := True]" using assms(6) by simp_all
  have l: "distinct (device_list s)" "\<And>p. p \<in> set (device_list s) \<longleftrightarrow> (\<exists>spi m. bound_obj s p spi m)"
    "\<And>spi p. drvdata s spi = Some p \<longleftrightarrow> (\<exists>m. bound_obj s p spi m)"
    using assms(1) by (simp_all add: dev_inv_def list_inv_def)
  have "list_inv t"
    unfolding list_inv_def b f using l n ns by (auto simp: assms(3) split: if_splits)
  moreover have "minor_inv t"
  proof (rule minor_invI)
    show "length (minors t) = N_SPI_MINORS" using minor_invD(1) [OF assms(1)] f by simp
    show "(i < N_SPI_MINORS \<and> minors t ! i) \<longleftrightarrow> (\<exists>q sp. bound_obj t q sp i)" for i
    proof (cases "i = m")
      case True
      then show ?thesis using f assms(4) b minor_invD(1) [OF assms(1)] by auto
    next
      case False
      then have "(\<exists>q sp. bound_obj t q sp i) \<longleftrightarrow> (\<exists>q sp. bound_obj s q sp i)" using b n by metis
      then show ?thesis using False f minor_invD(2) [OF assms(1)] by simp
    qed
    show "q = q'" if "bound_obj t q sp i" "bound_obj t q' sp' i" for q q' sp sp' i
      using that b nm minor_invD(3) [OF assms(1)] by metis
  qed
  moreover have "file_inv t"
  proof (rule file_invI)
    show "heap t (snd x) \<noteq> None" if "x \<in> set (open_files t)" for x
      using that file_invD(3) [OF assms(1)] assms(6) by simp
    show "obj_ok t q obj" if "heap t q = Some obj" for q obj
    proof (cases "q = p")
      case True
      then show ?thesis using that nf assms(6) by (auto simp: obj_ok_def)
    next
      case False
      then have "obj_ok s q obj" using that file_invD(4) [OF assms(1)] assms(6) by simp
      then show ?thesis by (simp add: obj_ok_def assms(6))
    qed
  qed (use file_invD(1,2) [OF assms(1)] assms(6) in simp_all)
  ultimately show ?thesis by (simp add: dev_inv_def)
qed

lemma dev_inv_probe_data:
  assumes "dev_inv s" "drvdata s spi = None" "heap s p = None"
  shows "dev_inv (snd (probe_data p created spi s))"
proof (cases "find_first_zero_bit (minors s) < N_SPI_MINORS \<and> created = 0")
  case True
  let ?m = "find_first_zero_bit (minors s)"
  have m: "\<not> minors s ! ?m"
    using True find_first_zero_bit_nth [of "minors s"] minor_invD(1) [OF assms(1)] by simp
  show ?thesis
    using dev_inv_add [OF assms(1,3,2) _ m refl] True by (simp add: probe_data_def Let_def)
next
  case False
  have "(heap s)(p := None) = heap s" using assms(3) by auto
  then have "snd (probe_data p created spi s) = s"
    using False by (auto simp: probe_data_def Let_def)
  then show ?thesis using assms(1) by simp
qed

lemma dev_inv_probe:
  assumes "dev_inv s" "drvdata s spi = None" "\<And>p. alloc = Some p \<Longrightarrow> heap s p = None"
    and "spidev_probe env alloc created spi s h = (r, t, h')"
  shows "dev_inv t"
proof -
  let ?s = "s\<lparr>chip_sel_locked := False, global_spidev := alloc\<rparr>"
  have s: "dev_inv ?s" using assms(1) dev_inv_cong [of ?s s] by simp
  show ?thesis
  proof (cases alloc)
    case None
    then show ?thesis using s assms(4) by (simp add: spidev_probe_def)
  next
    case (Some p)
    obtain st s1 where d: "probe_data p created spi ?s = (st, s1)" by fastforce
    have i: "dev_inv s1"
      using dev_inv_probe_data [OF s, of spi p created] assms(2,3) Some d by simp
    obtain dev h2 where "t = s1\<lparr>spi_settings := (spi_settings s1)(spi := dev),
        flash_dev := Some (spi, 0x7fffff)\<rparr>"
      using assms(4) Some d by (auto simp: spidev_probe_def split: prod.splits)
    then show ?thesis using i dev_inv_cong [of t s1] by simp
  qed
qed

lemma find_devt_total:
  "\<forall>p \<in> set ps. hp p \<noteq> None \<Longrightarrow>
     \<exists>r. find_devt hp m ps = Some r \<and>
       (case r of
          None \<Rightarrow> \<forall>p \<in> set ps. \<forall>obj. hp p = Some obj \<longrightarrow> devt obj \<noteq> m
        | Some p \<Rightarrow> p \<in> set ps \<and> (\<exists>obj. hp p = Some obj \<and> devt obj = m))"
  by (induction ps) (auto split: option.splits if_splits)

lemma dev_inv_obj:
  assumes "dev_inv s" "heap s p = Some obj"
  shows "usrs obj = 0 \<longleftrightarrow> users_of p (open_files s) = 0"
    "unat (usrs obj) = users_of p (open_files s)"
proof -
  have "users_of p (open_files s) < 2 ^ 32" "usrs obj = of_nat (users_of p (open_files s))"
    using file_invD(2) [OF assms(1)] file_invD(4) [OF assms] users_of_le [of p "open_files s"]
    by (simp_all add: obj_ok_def)
  then show "unat (usrs obj) = users_of p (open_files s)"
    by (simp add: unat_of_nat)
  then show "usrs obj = 0 \<longleftrightarrow> users_of p (open_files s) = 0" by (metis unsigned_0 unat_eq_0)
qed

text \<open>Removing the binding of an object, with or without freeing it.\<close>

lemma dev_inv_remove:
  assumes "dev_inv s" "drvdata s spi = Some p"
  shows "\<exists>t. spidev_remove spi s = Some (0, t) \<and> dev_inv t"
proof -
  obtain m obj where o: "bound_obj s p spi m" "heap s p = Some obj" "devt obj = m" "spi_ptr obj = Some spi"
    using assms by (auto simp: dev_inv_def list_inv_def bound_obj_def)
  define t where "t = s\<lparr>heap := (heap s)(p := if usrs obj = 0 then None else Some (obj\<lparr>spi_ptr := None\<rparr>)),
      drvdata := (drvdata s)(spi := None), device_list := remove1 p (device_list s),
      minors := (minors s)[m := False]\<rparr>"
  have r: "spidev_remove spi s = Some (0, t)"
    using assms(2) o(2,3) by (simp add: spidev_remove_def t_def)
  have b: "bound_obj t q sp i \<longleftrightarrow> q \<noteq> p \<and> bound_obj s q sp i" for q sp i
    by (auto simp: bound_obj_def t_def)
  have one: "q = p" if "bound_obj s q sp m" for q sp
    using that o(1) minor_invD(3) [OF assms(1)] by metis
  have f: "device_list t = remove1 p (device_list s)" "drvdata t = (drvdata s)(spi := None)"
    "minors t = (minors s)[m := False]" by (simp_all add: t_def)
  have l: "distinct (device_list s)" "\<And>p. p \<in> set (device_list s) \<longleftrightarrow> (\<exists>spi m. bound_obj s p spi m)"
    "\<And>spi p. drvdata s spi = Some p \<longleftrightarrow> (\<exists>m. bound_obj s p spi m)"
    using assms(1) by (simp_all add: dev_inv_def list_inv_def)
  have sp: "sp = spi" if "bound_obj s p sp i" for sp i
    using that o by (auto simp: bound_obj_def)
  have sq: "q = p" if "bound_obj s q spi i" for q i
    using that l(3) assms(2) by (metis option.inject)
  have "list_inv t"
    unfolding list_inv_def
  proof (intro conjI allI)
    show "distinct (device_list t)" using l(1) f by simp
    show "q \<in> set (device_list t) \<longleftrightarrow> (\<exists>sp i. bound_obj t q sp i)" for q
      using l(1,2) f b by auto
    show "drvdata t sp' = Some q \<longleftrightarrow> (\<exists>i. bound_obj t q sp' i)" for sp' q
    proof (cases "sp' = spi")
      case True
      then have "\<not> bound_obj t q sp' i" for i using b sq by blast
      then show ?thesis using True f(2) by simp
    next
      case False
      then have "bound_obj t q sp' i \<longleftrightarrow> bound_obj s q sp' i" for i using b sp by blast
      then show ?thesis using False f(2) l(3) [of sp' q] by simp
    qed
  qed
  moreover have "minor_inv t"
  proof (rule minor_invI)
    show "length (minors t) = N_SPI_MINORS" using minor_invD(1) [OF assms(1)] f by simp
    show "(i < N_SPI_MINORS \<and> minors t ! i) \<longleftrightarrow> (\<exists>q sp. bound_obj t q sp i)" for i
    proof (cases "i = m")
      case True
      then show ?thesis using f b one minor_invD(1) [OF assms(1)] by auto
    next
      case False
      then have "\<not> bound_obj s p sp i" for sp using o by (auto simp: bound_obj_def)
      then have "(\<exists>q sp. bound_obj t q sp i) \<longleftrightarrow> (\<exists>q sp. bound_obj s q sp i)"
        using b by metis
      then show ?thesis using False f minor_invD(2) [OF assms(1)] by simp
    qed
    show "q = q'" if "bound_obj t q sp i" "bound_obj t q' sp' i" for q q' sp sp' i
      using that b minor_invD(3) [OF assms(1)] by metis
  qed
  moreover have "file_inv t"
  proof (rule file_invI)
    show "heap t (snd x) \<noteq> None" if "x \<in> set (open_files t)" for x
      using that file_invD(3) [OF assms(1)] dev_inv_obj(1) [OF assms(1) o(2)]
        users_of_0_iff [of p "open_files s"] by (auto simp: t_def)
    show "obj_ok t q obj'" if "heap t q = Some obj'" for q obj'
    proof (cases "q = p")
      case True
      then have "usrs obj \<noteq> 0" "obj' = obj\<lparr>spi_ptr := None\<rparr>"
        using that by (auto simp: t_def split: if_splits)
      then show ?thesis
        using True file_invD(4) [OF assms(1) o(2)] dev_inv_obj(1) [OF assms(1) o(2)]
        by (simp add: obj_ok_def t_def)
    next
      case False
      then have "obj_ok s q obj'" using that file_invD(4) [OF assms(1)] by (simp add: t_def)
      then show ?thesis by (simp add: obj_ok_def t_def)
    qed
  qed (use file_invD(1,2) [OF assms(1)] in \<open>simp_all add: t_def\<close>)
  ultimately show ?thesis using r by (auto simp: dev_inv_def)
qed

lemma dev_inv_files:
  assumes "dev_inv s" "bound_obj t = bound_obj s" "file_inv t"
    and "device_list t = device_list s" "drvdata t = drvdata s" "minors t = minors s"
  shows "dev_inv t"
  using assms by (simp add: dev_inv_def list_inv_def minor_inv_def)

lemma dev_inv_open:
  assumes "dev_inv s" "filp \<notin> fst ` set (open_files s)" "length (open_files s) < 2 ^ 32 - 1"
  shows "\<exists>r t. spidev_open kmalloc m filp s = Some (r, t) \<and> dev_inv t \<and>
    (r = 0 \<longrightarrow> (\<exists>p obj. heap t p = Some obj \<and> devt obj = m \<and> has_buffer obj \<and>
       open_files t = (filp, p) # open_files s)) \<and>
    (r \<noteq> 0 \<longrightarrow> t = s)"
proof -
  have "\<forall>p \<in> set (device_list s). heap s p \<noteq> None"
    using assms(1) by (auto simp: dev_inv_def list_inv_def bound_obj_def)
  from find_devt_total [OF this, of m] obtain r where r: "find_devt (heap s) m (device_list s) = Some r"
    "case r of None \<Rightarrow> True | Some p \<Rightarrow> \<exists>obj. heap s p = Some obj \<and> devt obj = m"
    by (auto split: option.splits)
  show ?thesis
  proof (cases r)
    case None
    then show ?thesis using r(1) assms(1) by (simp add: spidev_open_def)
  next
    case (Some p)
    then obtain obj where o: "heap s p = Some obj" "devt obj = m" using r(2) by auto
    show ?thesis
    proof (cases "\<not> has_buffer obj \<and> \<not> kmalloc")
      case True
      then show ?thesis using r(1) Some o assms(1) by (simp add: spidev_open_def)
    next
      case False
      define obj' where "obj' = obj\<lparr>has_buffer := True, usrs := usrs obj + 1\<rparr>"
      define t where "t = s\<lparr>heap := (heap s)(p \<mapsto> obj'), open_files := (filp, p) # open_files s\<rparr>"
      have c: "spidev_open kmalloc m filp s = Some (0, t)"
        using r(1) Some o False by (auto simp: spidev_open_def t_def obj'_def)
      have "bound_obj t = bound_obj s"
        using o(1) by (auto simp: bound_obj_def t_def obj'_def fun_eq_iff)
      moreover have "file_inv t"
      proof (rule file_invI)
        show "heap t (snd x) \<noteq> None" if "x \<in> set (open_files t)" for x
          using that file_invD(3) [OF assms(1), of x] by (auto simp: t_def)
        show "obj_ok t q x" if "heap t q = Some x" for q x
        proof (cases "q = p")
          case True
          then have "x = obj'" using that by (simp add: t_def)
          then show ?thesis using True file_invD(4) [OF assms(1) o(1)]
            by (simp add: obj_ok_def t_def obj'_def)
        next
          case False
          then have "obj_ok s q x" using that file_invD(4) [OF assms(1)] by (simp add: t_def)
          then show ?thesis using False by (simp add: obj_ok_def t_def)
        qed
      qed (use file_invD(1) [OF assms(1)] assms(2,3) in \<open>simp_all add: t_def\<close>)
      ultimately have "dev_inv t"
        using assms(1) by (intro dev_inv_files [of s t]) (simp_all add: t_def)
      then show ?thesis using c o(2) by (auto simp: t_def obj'_def)
    qed
  qed
qed

lemma dev_inv_release:
  assumes "dev_inv s" "filp \<in> fst ` set (open_files s)"
  shows "\<exists>t. spidev_release filp s = Some (0, t) \<and> dev_inv t"
proof -
  obtain p where p: "map_of (open_files s) filp = Some p"
    using assms(2) by (metis map_of_eq_None_iff not_None_eq)
  then have "(filp, p) \<in> set (open_files s)" by (rule map_of_SomeD)
  then obtain obj where o: "heap s p = Some obj" using file_invD(3) [OF assms(1)] by fastforce
  let ?fs = "filter (\<lambda>x. fst x \<noteq> filp) (open_files s)"
  have u: "users_of q (open_files s) = (if q = p then 1 else 0) + users_of q ?fs" for q
    by (rule users_of_release [OF file_invD(1) [OF assms(1)] p])
  have k: "obj_ok s p obj" by (rule file_invD(4) [OF assms(1) o])
  have us: "usrs obj - 1 = of_nat (users_of p ?fs)" "usrs obj - 1 = 0 \<longleftrightarrow> users_of p ?fs = 0"
  proof -
    show e: "usrs obj - 1 = of_nat (users_of p ?fs)" using k u [of p] by (simp add: obj_ok_def)
    have "users_of p ?fs \<le> unat (usrs obj)"
      using u [of p] dev_inv_obj(2) [OF assms(1) o] by simp
    then have "unat (of_nat (users_of p ?fs) :: u32) = users_of p ?fs" by (rule le_unat_uoi)
    then show "usrs obj - 1 = 0 \<longleftrightarrow> users_of p ?fs = 0"
      unfolding e by (metis unat_eq_0)
  qed
  define v where "v = (if users_of p ?fs = 0
    then (if spi_ptr obj = None then None else Some (obj\<lparr>usrs := usrs obj - 1, has_buffer := False\<rparr>))
    else Some (obj\<lparr>usrs := usrs obj - 1\<rparr>))"
  define t where "t = s\<lparr>heap := (heap s)(p := v), open_files := ?fs\<rparr>"
  have c: "spidev_release filp s = Some (0, t)"
    using p o us(2) by (auto simp: spidev_release_def t_def v_def Let_def)
  have "bound_obj t = bound_obj s"
    using o by (auto simp: bound_obj_def t_def v_def fun_eq_iff split: if_splits)
  moreover have "file_inv t"
  proof (rule file_invI)
    show "distinct (map fst (open_files t))"
      using file_invD(1) [OF assms(1)] by (simp add: t_def distinct_map_filter)
    show "length (open_files t) < 2 ^ 32"
      using le_less_trans [OF length_filter_le file_invD(2) [OF assms(1)]] by (simp add: t_def)
    show "heap t (snd x) \<noteq> None" if "x \<in> set (open_files t)" for x
    proof -
      have x: "x \<in> set ?fs" using that by (simp add: t_def)
      then have "heap s (snd x) \<noteq> None" using file_invD(3) [OF assms(1), of x] by simp
      moreover have "users_of p ?fs \<noteq> 0" if "snd x = p"
        using that x users_of_0_iff [of p ?fs] by blast
      ultimately show ?thesis by (auto simp: t_def v_def)
    qed
    show "obj_ok t q x" if "heap t q = Some x" for q x
    proof (cases "q = p")
      case True
      then have "v = Some x" using that by (simp add: t_def)
      then show ?thesis using True us(1) k u [of p]
        by (auto simp: t_def v_def obj_ok_def split: if_splits)
    next
      case False
      then have "obj_ok s q x" using that file_invD(4) [OF assms(1)] by (simp add: t_def)
      then show ?thesis using u [of q] False by (simp add: obj_ok_def t_def)
    qed
  qed
  ultimately have "dev_inv t"
    using assms(1) by (intro dev_inv_files [of s t]) (simp_all add: t_def)
  then show ?thesis using c by blast
qed

lemma dev_inv_step: "dev_step env s t \<Longrightarrow> dev_inv s \<Longrightarrow> dev_inv t"
proof (induction rule: dev_step.induct)
  case (probe s spi alloc created h r s' h')
  show ?case by (rule dev_inv_probe [OF probe.prems probe.hyps(1,2,4)])
next
  case (remove s spi r s')
  then show ?case using dev_inv_remove [of s spi] by fastforce
next
  case (op filp s kmalloc m r s')
  then show ?case using dev_inv_open [of s filp kmalloc m] by auto
next
  case (release filp s r s')
  then show ?case using dev_inv_release [of s filp] by auto
qed

interpretation spidevs: invariant_system dev_init "dev_step env" dev_inv for env
  by unfold_locales (auto simp: dev_init_def dev_inv_init intro: dev_inv_step)


text \<open>Probing one device over a bus that does not answer.\<close>

definition idle_env :: "unit spi_env" where
  "idle_env = \<lparr>e_bus = (\<lambda>spi cs tx h. ((0, [], 0), h)), e_msg = (\<lambda>spi ks b h. Done ((0, 0, 0, b), h)),
     e_mode_bits = 0x07, e_setup = (\<lambda>spi h. (0, h)), e_kmalloc = (\<lambda>n. True),
     e_kcalloc = (\<lambda>n. True), e_stack = ([], [])\<rparr>"

definition demo_dev :: devices where
  "demo_dev = fst (snd (spidev_probe idle_env (Some 100) 0 7 no_devices ()))"


text \<open>
  Probing takes the lowest free number, and with all 32 in use it fails with \<open>-ENODEV\<close>. A probe
  that fails after the allocation frees the object but leaves the global pointer, which the access
  functions of the other drivers follow, pointing at it. Every probe frees the chip select mutex,
  whoever holds it.
\<close>

theorem spidev_probe_minor:
  assumes "length (minors s) = 32" "spidev_probe env (Some p) created spi s h = (r, t, h')"
  shows "((\<forall>i < 32. minors s ! i) \<longrightarrow> r = - ENODEV) \<and>
    (\<forall>m < 32. \<not> minors s ! m \<and> (\<forall>i < m. minors s ! i) \<longrightarrow>
      r = created \<and> (created = 0 \<longrightarrow> (\<exists>obj. heap t p = Some obj \<and> devt obj = m))) \<and>
    (r \<noteq> 0 \<longrightarrow> global_spidev t = Some p \<and> heap t p = None) \<and>
    \<not> chip_sel_locked t"
proof -
  let ?s = "s\<lparr>chip_sel_locked := False, global_spidev := Some p\<rparr>"
  let ?z = "find_first_zero_bit (minors s)"
  obtain st s1 where d: "probe_data p created spi ?s = (st, s1)" by fastforce
  have t: "r = st" "heap t = heap s1" "global_spidev t = global_spidev s1"
    "chip_sel_locked t = chip_sel_locked s1"
    using assms(2) d by (auto simp: spidev_probe_def split: prod.splits)
  have full: "\<not> ?z < 32" if "\<forall>i < 32. minors s ! i"
    using that find_first_zero_bit_nth [of "minors s"] assms(1) by auto
  have first: "?z = m" if "m < 32" "\<not> minors s ! m" "\<forall>i < m. minors s ! i" for m
    using that find_first_zero_bit_before [of m "minors s"] find_first_zero_bit_nth [of "minors s"]
      assms(1) by (metis linorder_neqE_nat order.strict_trans)
  have c: "st = (if ?z < 32 then created else - ENODEV)" "\<not> chip_sel_locked s1"
    "global_spidev s1 = Some p"
    "heap s1 p = (if st = 0 then Some \<lparr>devt = ?z, spi_ptr = Some spi, usrs = 0, has_buffer = False\<rparr>
       else None)"
    using d by (auto simp: probe_data_def N_SPI_MINORS_def Let_def split: if_splits)
  have "r = - ENODEV" if "\<forall>i < 32. minors s ! i" using full [OF that] c(1) t(1) by simp
  moreover have "r = created \<and> (created = 0 \<longrightarrow> (\<exists>obj. heap t p = Some obj \<and> devt obj = m))"
    if "m < 32" "\<not> minors s ! m \<and> (\<forall>i < m. minors s ! i)" for m
    using first [of m] that c t by simp
  moreover have "global_spidev t = Some p" "\<not> chip_sel_locked t" "r \<noteq> 0 \<longrightarrow> heap t p = None"
    using c t by simp_all
  ultimately show ?thesis by blast
qed

theorem spidev_probe_minor_witness:
  "\<exists>t h. spidev_probe idle_env (Some 1) (- 12) 7 no_devices () = (- 12, t, h) \<and>
     global_spidev t = Some 1 \<and> heap t 1 = None"
proof -
  obtain r t h where p: "spidev_probe idle_env (Some 1) (- 12) 7 no_devices () = (r, t, h)"
    by (metis surj_pair)
  have m: "length (minors no_devices) = 32" "\<not> minors no_devices ! 0"
    by (simp_all add: no_devices_def N_SPI_MINORS_def)
  have "r = - 12"
    using spidev_probe_minor [OF m(1) p] m(2) by (metis not_less_zero zero_less_numeral)
  then show ?thesis using spidev_probe_minor [OF m(1) p] p by auto
qed

end
