(* ===== verification/Spidev_Proofs.thy ===== *)
theory Spidev_Proofs
  imports Spidev_Ioctl
begin

text \<open>
  What the SPI character device does: the frames its register accesses put on the bus and their
  limits, the exclusion between the flash and the other chips, the message interface with its
  bounce buffer, and the settings.
\<close>

section \<open>Register accesses\<close>

definition fpga_write_frame :: "u16 \<Rightarrow> byte list \<Rightarrow> byte list" where
  "fpga_write_frame addr d =
     [if length d = 1 then 0x01 else 0x02, hi8 addr, lo8 addr] @ d @ [0]"

definition fpga_read_frame :: "u16 \<Rightarrow> byte list \<Rightarrow> byte list" where
  "fpga_read_frame addr d = [if length d = 1 then 0x05 else 0x03, hi8 addr, lo8 addr, 0] @ d"

definition dpll_frame :: "byte \<Rightarrow> u16 \<Rightarrow> byte list \<Rightarrow> byte list" where
  "dpll_frame b0 addr d =
     [b0, if 1 < length d then lo8 (ds31400_address addr) OR 1 else lo8 (ds31400_address addr)] @ d"

lemmas frame_defs = fpga_write_frame_def fpga_read_frame_def dpll_frame_def

lemma upd4: "4 \<le> length b \<Longrightarrow> b[0 := w, 1 := x, 2 := y, 3 := z] = [w, x, y, z] @ drop 4 b"
  by (auto simp: numeral_eq_Suc Suc_le_length_iff)

lemma upd3: "3 \<le> length b \<Longrightarrow> b[0 := w, 1 := x, 2 := y] = [w, x, y] @ drop 3 b"
  by (auto simp: numeral_eq_Suc Suc_le_length_iff)

lemma upd2: "2 \<le> length b \<Longrightarrow> b[0 := w, 1 := x] = [w, x] @ drop 2 b"
  by (auto simp: numeral_eq_Suc Suc_le_length_iff)

lemma memcpy_at_append:
  "length a = n \<Longrightarrow> length src \<le> length b \<Longrightarrow>
     memcpy_at (a @ b) n src = Some (a @ src @ drop (length src) b)"
  by (simp add: memcpy_at_def)

lemma mix_spi_write_k_fpga:
  assumes "count \<le> length d" "count \<le> 512"
  shows "mix_spi_write_k env spi FPGA_CHIP addr (Some d) count h =
    (if count \<le> 510
     then (case bus_io (e_bus env spi) (kcs spi) (fpga_write_frame addr (take count d)) h of
             ((st, rx, n), h') \<Rightarrow> Some (st, h'))
     else None)"
proof -
  have r: "memread_at d 0 count = Some (take count d)"
    using assms by (simp add: memread_at_def)
  have b: "(replicate 514 (0 :: byte))[0 := c, 1 := hi8 addr, 2 := lo8 addr] =
      [c, hi8 addr, lo8 addr] @ replicate 511 0" for c
    by (subst upd3) simp_all
  show ?thesis
  proof (cases "count \<le> 510")
    case True
    then obtain k where k: "511 - count = Suc k" by (cases "511 - count") auto
    have "memcpy_at ([c, hi8 addr, lo8 addr] @ replicate 511 0) 3 (take count d) =
        Some ([c, hi8 addr, lo8 addr] @ take count d @ 0 # replicate k 0)" for c
      using memcpy_at_append [of "[c, hi8 addr, lo8 addr]" 3 "take count d" "replicate 511 0"]
        assms True k by simp
    moreover have "take (count + 4) (c # hi8 addr # lo8 addr # take count d @ 0 # replicate k 0) =
        c # hi8 addr # lo8 addr # take count d @ [0]" for c
      using assms by (simp add: numeral_eq_Suc)
    ultimately show ?thesis using True r assms b k
      by (simp add: mix_spi_write_k_def spidev_consts spi_write_def memread_at_def frame_defs
        split: prod.splits)
  next
    case False
    then show ?thesis using r assms b
      by (cases "count \<le> 511")
         (simp_all add: mix_spi_write_k_def spidev_consts spi_write_def memread_at_def
            memcpy_at_def Let_def)
  qed
qed

lemma mix_spi_write_k_dpll:
  assumes "count \<le> length d" "count \<le> 512"
  shows "mix_spi_write_k env spi DS31400_CHIP addr (Some d) count h =
    (case bus_io (e_bus env spi) (kcs spi)
        (dpll_frame (hi8 (ds31400_address addr) AND NOT 0x80) addr (take count d)) h of
       ((st, rx, n), h') \<Rightarrow> Some (st, h'))"
proof -
  have r: "memread_at d 0 count = Some (take count d)"
    using assms by (simp add: memread_at_def)
  have b: "(replicate 514 (0 :: byte))[0 := x, 1 := y] = [x, y] @ replicate 512 0" for x y
    by (subst upd2) simp_all
  have "memcpy_at ([x, y] @ replicate 512 0) 2 (take count d) =
      Some ([x, y] @ take count d @ replicate (512 - count) 0)" for x y
    using memcpy_at_append [of "[x, y]" 2 "take count d" "replicate 512 0"] assms by simp
  then show ?thesis using r assms b
    by (simp add: mix_spi_write_k_def spidev_consts spi_write_def memread_at_def frame_defs
      split: prod.splits)
qed

text \<open>A buffer of 514 bytes with a header of \<open>k\<close> bytes, the data and room behind it.\<close>

lemma spi_sync_fits:
  assumes "length hdr = k" "length hdr + length d \<le> length txbuf" "length txbuf = length rxbuf"
    and "memcpy_at (hdr @ drop k txbuf) k d = Some b"
  shows "spi_sync bus cs b rxbuf (length d + k) h =
    (case bus_io bus cs (hdr @ d) h of
       ((st, rx, n), h') \<Rightarrow> Some (st, rx @ drop (length d + k) rxbuf, n, h'))"
proof -
  have b: "b = hdr @ d @ drop (length d) (drop k txbuf)"
    using assms by (simp add: memcpy_at_eq_Some)
  obtain st rx n h' where i: "bus_io bus cs (hdr @ d) h = ((st, rx, n), h')" by (metis surj_pair)
  have "length rx = length d + k" using length_bus_io [OF i] assms(1) by simp
  then show ?thesis using assms i b
    by (simp add: spi_sync_def memread_at_def memcpy_at_def)
qed

lemma mix_spi_read_k_fpga:
  assumes "count \<le> length d" "count \<le> 512"
  shows "mix_spi_read_k env spi FPGA_CHIP addr (Some d) count h =
    (if count \<le> 510
     then (case bus_io (e_bus env spi) (kcs spi) (fpga_read_frame addr (take count d)) h of
             ((st, rx, n), h') \<Rightarrow> Some (st, Some (drop 4 rx @ drop count d), h'))
     else None)"
proof -
  have r: "memread_at d 0 count = Some (take count d)"
    using assms by (simp add: memread_at_def)
  have b: "(replicate 514 (0 :: byte))[0 := c, 1 := hi8 addr, 2 := lo8 addr, 3 := 0] =
      [c, hi8 addr, lo8 addr, 0] @ drop 4 (replicate 514 0)" for c
    by (subst upd4) simp_all
  show ?thesis
  proof (cases "count \<le> 510")
    case True
    define c :: byte where "c = (if count = 1 then 0x05 else 0x03)"
    let ?hd = "[c, hi8 addr, lo8 addr, 0]"
    obtain buf where buf: "memcpy_at (?hd @ drop 4 (replicate 514 0)) 4 (take count d) = Some buf"
      using True assms by (simp add: memcpy_at_def)
    obtain st rx n h' where i: "bus_io (e_bus env spi) (kcs spi) (?hd @ take count d) h =
        ((st, rx, n), h')" by (metis surj_pair)
    have l: "length rx = count + 4" using length_bus_io [OF i] assms by simp
    have "spi_sync (e_bus env spi) (kcs spi) buf (replicate 514 0) (count + 4) h =
        Some (st, rx @ replicate (510 - count) 0, n, h')"
      using spi_sync_fits [OF _ _ _ buf, of "replicate 514 0" "e_bus env spi" "kcs spi" h]
        True assms i by simp
    moreover have "memread_at (rx @ replicate (510 - count) 0) 4 count = Some (drop 4 rx)"
      using l by (simp add: memread_at_def)
    moreover have "memcpy_at d 0 (drop 4 rx) = Some (drop 4 rx @ drop count d)"
      using l assms by (simp add: memcpy_at_def)
    moreover have "fpga_read_frame addr (take count d) = ?hd @ take count d"
      using assms by (simp add: frame_defs c_def)
    ultimately show ?thesis using True r assms b buf i
      by (simp add: mix_spi_read_k_def spidev_consts flip: c_def One_nat_def)
  next
    case False
    then show ?thesis using r assms b
      by (simp add: mix_spi_read_k_def spidev_consts memcpy_at_def Let_def)
  qed
qed

lemma mix_spi_read_k_dpll:
  assumes "count \<le> length d" "count \<le> 512"
  shows "mix_spi_read_k env spi DS31400_CHIP addr (Some d) count h =
    (case bus_io (e_bus env spi) (kcs spi)
        (dpll_frame (hi8 (ds31400_address addr) OR 0x80) addr (take count d)) h of
       ((st, rx, n), h') \<Rightarrow> Some (st, Some (drop 2 rx @ drop count d), h'))"
proof -
  have r: "memread_at d 0 count = Some (take count d)"
    using assms by (simp add: memread_at_def)
  define x where "x = hi8 (ds31400_address addr) OR 0x80"
  define y where "y = (if 1 < count then lo8 (ds31400_address addr) OR 1
    else lo8 (ds31400_address addr))"
  let ?hd = "[x, y]"
  have b: "(replicate 514 (0 :: byte))[0 := x, 1 := y] = ?hd @ drop 2 (replicate 514 0)"
    by (subst upd2) simp_all
  obtain buf where buf: "memcpy_at (?hd @ drop 2 (replicate 514 0)) 2 (take count d) = Some buf"
    using assms by (simp add: memcpy_at_def)
  obtain st rx n h' where i: "bus_io (e_bus env spi) (kcs spi) (?hd @ take count d) h =
      ((st, rx, n), h')" by (metis surj_pair)
  have l: "length rx = count + 2" using length_bus_io [OF i] assms by simp
  have "spi_sync (e_bus env spi) (kcs spi) buf (replicate 514 0) (count + 2) h =
      Some (st, rx @ replicate (512 - count) 0, n, h')"
    using spi_sync_fits [OF _ _ _ buf, of "replicate 514 0" "e_bus env spi" "kcs spi" h]
      assms i by simp
  moreover have "memread_at (rx @ replicate (512 - count) 0) 2 count = Some (drop 2 rx)"
    using l by (simp add: memread_at_def)
  moreover have "memcpy_at d 0 (drop 2 rx) = Some (drop 2 rx @ drop count d)"
    using l assms by (simp add: memcpy_at_def)
  moreover have "dpll_frame x addr (take count d) = ?hd @ take count d"
    using assms by (simp add: frame_defs y_def)
  ultimately show ?thesis using r assms b buf i
    by (simp add: mix_spi_read_k_def spidev_consts flip: x_def y_def One_nat_def)
qed

section \<open>The exported access functions\<close>

lemma set_chip_back:
  "\<not> sel_locked s \<Longrightarrow>
     (set_chip (kcs (spi_k s)) (sel s) (set_chip cs chip (s\<lparr>sel_locked := True\<rparr>)))\<lparr>sel_locked := False\<rparr>
       = s"
  by (cases s) (simp add: set_chip_def)

lemma set_chip_spi: "spi_k (set_chip cs chip s) = (spi_k s)\<lparr>kcs := cs\<rparr>" "sel (set_chip cs chip s) = chip"
  by (simp_all add: set_chip_def)

lemma dpll_read_loop_k_total:
  "2 * (i + n) \<le> length d \<Longrightarrow>
     \<exists>d' h'. dpll_read_loop_k env spi DS31400_CHIP addr d i n h = Some (d', h') \<and>
       length d' = length d"
proof (induction n arbitrary: d i h)
  case (Suc n)
  let ?e = "drop (2 * i) d"
  let ?f = "dpll_frame (hi8 (ds31400_address (addr + of_nat (2 * i))) OR 0x80)
    (addr + of_nat (2 * i)) (take 2 ?e)"
  obtain st rx m h' where i: "bus_io (e_bus env spi) (kcs spi) ?f h = ((st, rx, m), h')"
    by (metis surj_pair)
  have "length (take 2 ?e) = 2" using Suc.prems by simp
  then have l: "length rx = 4" using length_bus_io [OF i] by (simp add: dpll_frame_def)
  have r: "mix_spi_read_k env spi DS31400_CHIP (addr + of_nat (2 * i)) (Some ?e) 2 h =
      Some (st, Some (drop 2 rx @ drop 2 ?e), h')"
    using i Suc.prems by (subst mix_spi_read_k_dpll) auto
  let ?d = "take (2 * i) d @ drop 2 rx @ drop 2 ?e"
  have d: "length ?d = length d" using Suc.prems l by simp
  then obtain d' h2 where "dpll_read_loop_k env spi DS31400_CHIP addr ?d (i + 1) n h' = Some (d', h2)"
      "length d' = length d"
    using Suc.IH [of "i + 1" ?d h'] Suc.prems by auto
  then show ?case using r by simp
qed simp


text \<open>A bus for the examples: every frame is answered by its own bytes, plus one.\<close>

definition demo_bus :: "nat spi_bus" where
  "demo_bus cs tx h = ((0, map (\<lambda>b. b + 1) tx, length tx), h + 1)"

definition demo_env :: "nat spi_env" where
  "demo_env = \<lparr>e_bus = (\<lambda>spi. demo_bus),
     e_msg = (\<lambda>spi ks b h. Done ((0, 0, 1, map (\<lambda>x. x + 1) b), h + 1)),
     e_mode_bits = 0x07, e_setup = (\<lambda>spi h. (if kspeed spi = 0 then - 22 else 0, h)),
     e_kmalloc = (\<lambda>n. True), e_kcalloc = (\<lambda>n. True), e_stack = (replicate 256 0, replicate 256 0)\<rparr>"

definition spidev_demo :: spidev_state where
  "spidev_demo = \<lparr>spi_k = \<lparr>kcs = 2, kmode = 3, kbits = 8, kspeed = 6500000\<rparr>, bound = True, sel = 1,
     sel_locked = False, users = 1, sbuffer = Some (replicate 4096 0), gpio_flash = True,
     flash_k = \<lparr>flash_cs = 2, mtd_size = 0x7fffff, flash_command = [0, 0, 0, 0]\<rparr>\<rparr>"

lemma demo_bus_io:
  "bus_io (e_bus demo_env spi) cs tx h = ((0, map (\<lambda>b. b + 1) tx, length tx), h + 1)"
  by (simp add: demo_env_def demo_bus_def bus_io_def fit_def)

lemma spidev_demo_sel:
  "\<not> sel_locked spidev_demo" "bound spidev_demo" "sbuffer spidev_demo = Some (replicate 4096 0)"
  "spi_k spidev_demo = \<lparr>kcs = 2, kmode = 3, kbits = 8, kspeed = 6500000\<rparr>"
  by (simp_all add: spidev_demo_def)


section \<open>The read and write calls\<close>

lemma copy_from_user_k_readable:
  assumes "access_ok a n" "copy_from_user um a (unat n) = Some bs"
  shows "copy_from_user_k um a n = (0, bs)"
proof -
  have l: "length (readable um a (unat n)) = unat n" and bs: "bs = readable um a (unat n)"
    using assms(2) by (auto simp: readable_copy_from_user split: if_splits)
  have "fst (tofrom_read um a n) = 0" using l by (simp add: tofrom_read_0_iff)
  moreover have "snd (tofrom_read um a n) = bs" using l bs by (simp add: tofrom_read_def Let_def)
  ultimately show ?thesis using assms(1) by (simp add: copy_from_user_k_def prod_eq_iff)
qed

lemma fetch_rdwr_readable:
  assumes "access_ok buf 70" "copy_from_user um buf 70 = Some sopt"
  shows "fetch_rdwr um buf (sopt0 :: byte list) = sopt @ drop 70 sopt0" "length sopt = 70"
  using copy_from_user_k_readable [of buf 70 um sopt] assms length_copy_from_user [OF assms(2)]
  by (simp_all add: fetch_rdwr_def sizeof_rdwr_def Let_def)

lemma gt_1_iff: "1 < w \<longleftrightarrow> w \<noteq> 0 \<and> w \<noteq> 1" for w :: byte
proof -
  have "unat w = 1 \<longleftrightarrow> w = 1" by (metis unsigned_1 unsigned_word_eqI)
  then show ?thesis using unat_eq_0 [of w] by (simp add: word_less_nat_alt) linarith
qed

text \<open>
  Reading and writing FPGA registers through the device file: with a request that can be read
  (chip 0, at most 64 bytes), a write call sends the data in one frame, a read call stores in the
  caller's structure the bytes the FPGA sent after its four header bytes; both return the length of
  the request and leave the FPGA selected.
\<close>

theorem spidev_rw_fpga:
  assumes "\<not> sel_locked s" "bound s" "length sopt0 = 70"
    and "access_ok buf 70" "copy_from_user um buf 70 = Some sopt"
    and "rdwr_cs sopt = 0" "rdwr_len sopt \<le> 64"
  shows "spidev_write env sopt0 um buf s h =
      (case bus_io (e_bus env ((spi_k s)\<lparr>kcs := 0\<rparr>)) 0
          (fpga_write_frame (rdwr_addr sopt) (take (unat (rdwr_len sopt)) (drop 6 sopt))) h of
         ((st, rx, n), h') \<Rightarrow> Done (uint (rdwr_len sopt), set_chip 0 FPGA_CHIP s, h')) \<and>
    spidev_read env sopt0 um buf s h =
      (case bus_io (e_bus env ((spi_k s)\<lparr>kcs := 0\<rparr>)) 0
          (fpga_read_frame (rdwr_addr sopt) (take (unat (rdwr_len sopt)) (drop 6 sopt))) h of
         ((st, rx, n), h') \<Rightarrow>
           Done (uint (rdwr_len sopt), set_chip 0 FPGA_CHIP s,
             snd (copy_to_user_k um buf
               (take 6 sopt @ drop 4 rx @ drop (6 + unat (rdwr_len sopt)) sopt)), h'))"
proof -
  have f: "fetch_rdwr um buf sopt0 = sopt" "length sopt = 70"
    using fetch_rdwr_readable(1) [OF assms(4,5), of sopt0] fetch_rdwr_readable(2) [OF assms(4,5)]
      assms(3) by simp_all
  have n: "unat (rdwr_len sopt) \<le> 64" using assms(7) by (simp add: word_le_nat_alt)
  show ?thesis using assms(1,2,6,7) f n leD [OF assms(7)]
    by (simp add: spidev_write_def spidev_read_def Let_def set_chip_spi mix_spi_write_k_fpga
      mix_spi_read_k_fpga add.commute split: prod.splits)
qed

text \<open>
  A request for a chip other than 0 and 1, or for more than 64 bytes, sends nothing and
  writes nothing back, but the call returns the requested length as if all had been done.
\<close>

theorem spidev_rw_rejected:
  assumes "\<not> sel_locked s" "bound s" "length sopt0 = 70"
    and "access_ok buf 70" "copy_from_user um buf 70 = Some sopt"
    and "1 < rdwr_cs sopt \<or> 64 < rdwr_len sopt"
  shows "(\<exists>s'. spidev_write env sopt0 um buf s h = Done (uint (rdwr_len sopt), s', h)) \<and>
    (\<exists>s'. spidev_read env sopt0 um buf s h = Done (uint (rdwr_len sopt), s', um, h))"
proof -
  have f: "fetch_rdwr um buf sopt0 = sopt"
    using fetch_rdwr_readable(1) [OF assms(4,5), of sopt0] assms(3) by simp
  have "1 < rdwr_cs sopt \<longleftrightarrow> rdwr_cs sopt \<noteq> 0 \<and> rdwr_cs sopt \<noteq> 1"
    by (rule gt_1_iff)
  then show ?thesis using assms(1,2,6) f
    by (simp add: spidev_write_def spidev_read_def Let_def) blast
qed

text \<open>A memory for the examples: every address can be read and written.\<close>

definition full_mem :: "(u32 \<Rightarrow> byte) \<Rightarrow> user_mem" where
  "full_mem f = \<lparr>um_byte = (\<lambda>a. Some (f a)), um_writable = (\<lambda>a. True)\<rparr>"

lemma copy_from_full_mem:
  "copy_from_user (full_mem f) a n = Some (map (\<lambda>i. f (a + of_nat i)) [0..<n])"
proof (induction n arbitrary: a)
  case (Suc n)
  show ?case
    using Suc.IH [of "a + 1"]
    by (simp add: full_mem_def upt_conv_Cons map_Suc_upt [symmetric] ac_simps o_def
      del: upt_Suc map_Suc_upt)
qed simp

definition demo_request :: "u32 \<Rightarrow> byte" where
  "demo_request a = (if a = 0x1003 then 0x10 else if a = 0x1005 then 2 else 0)"

definition demo_sopt :: "byte list" where
  "demo_sopt = map (\<lambda>i. demo_request (0x1000 + of_nat i)) [0..<70]"

lemma demo_sopt_fields: "rdwr_cs demo_sopt = 0" "rdwr_addr demo_sopt = 0x10" "rdwr_len demo_sopt = 2"
  by (simp_all add: demo_sopt_def rdwr_cs_def rdwr_addr_def rdwr_len_def demo_request_def of_be16_def)

theorem spidev_rw_fpga_witness:
  "(\<exists>s' h'. spidev_write demo_env (replicate 70 0) (full_mem demo_request) 0x1000 spidev_demo 0 =
     Done (2, s', h')) \<and> access_ok 0x1000 70"
proof -
  have "access_ok 0x1000 70" by (simp add: access_ok_def TASK_SIZE_def)
  moreover have "copy_from_user (full_mem demo_request) 0x1000 70 = Some demo_sopt"
    by (simp add: copy_from_full_mem demo_sopt_def)
  ultimately show ?thesis
    using spidev_rw_fpga [of spidev_demo "replicate 70 0" "0x1000" "full_mem demo_request" demo_sopt
      demo_env 0]
    by (simp add: spidev_demo_sel demo_sopt_fields demo_bus_io)
qed

definition demo_bad_request :: "u32 \<Rightarrow> byte" where
  "demo_bad_request a = (if a = 0x1000 then 5 else if a = 0x1005 then 2 else 0)"

theorem spidev_rw_rejected_witness:
  "\<exists>s'. spidev_write demo_env (replicate 70 0) (full_mem demo_bad_request) 0x1000 spidev_demo 0 =
     Done (2, s', 0)"
proof -
  let ?sopt = "map (\<lambda>i. demo_bad_request (0x1000 + of_nat i)) [0..<70]"
  have "access_ok 0x1000 70" by (simp add: access_ok_def TASK_SIZE_def)
  moreover have "rdwr_cs ?sopt = 5" "rdwr_len ?sopt = 2"
    by (simp_all add: rdwr_cs_def rdwr_len_def demo_bad_request_def of_be16_def)
  ultimately show ?thesis
    using spidev_rw_rejected [of spidev_demo "replicate 70 0" "0x1000" "full_mem demo_bad_request"
      ?sopt demo_env 0]
    by (simp add: spidev_demo_sel copy_from_full_mem)
qed

section \<open>The flash and the other chips\<close>

lemma spi_setup_k_keeps:
  "spi_setup_k env spi h = (r, spi', h') \<Longrightarrow> kcs spi' = kcs spi \<and> kmode spi' = kmode spi \<and>
     kspeed spi' = kspeed spi \<and> (kbits spi \<noteq> 0 \<longrightarrow> kbits spi' = kbits spi)"
  by (auto simp: spi_setup_k_def Let_def split: if_splits prod.splits)

lemma set_cs_setup_keeps:
  assumes "set_cs_setup env cs s h = (s', h')"
  shows "kcs (spi_k s') = cs" "sel_locked s' = sel_locked s" "sel s' = sel s" "bound s' = bound s"
    "gpio_flash s' = gpio_flash s"
proof -
  obtain r spi h2 where "spi_setup_k env ((spi_k s)\<lparr>kcs := cs\<rparr>) h = (r, spi, h2)" by (metis surj_pair)
  with spi_setup_k_keeps [OF this] assms
  show "kcs (spi_k s') = cs" "sel_locked s' = sel_locked s" "sel s' = sel s" "bound s' = bound s"
    "gpio_flash s' = gpio_flash s"
    by (auto simp: set_cs_setup_def)
qed

lemma oper_flash_ioctl:
  "spidev_ioctl env um SPI_IOC_OPER_FLASH arg s h =
     (if \<not> access_ok arg 1 then Done (- EFAULT, s, um, h)
      else if \<not> bound s then Done (- ESHUTDOWN, s, um, h)
      else (case ioctl_oper_flash env s h of
              Done r \<Rightarrow> with_um um r | Blocked \<Rightarrow> Blocked | Fault \<Rightarrow> Fault))"
  by (simp add: spidev_ioctl_def spi_ioc_defs)

lemma oper_flash_done_ioctl:
  "spidev_ioctl env um SPI_IOC_OPER_FLASH_DONE arg s h =
     (if \<not> access_ok arg 1 then Done (- EFAULT, s, um, h)
      else if \<not> bound s then Done (- ESHUTDOWN, s, um, h)
      else with_um um (ioctl_oper_flash_done env s h))"
  by (simp add: spidev_ioctl_def spi_ioc_defs)

text \<open>
  C21. Once a call has selected the flash, the flash is on chip select 2 with its pin low, and every
  read, write, register access of another driver and further selection waits. Giving it back ends
  that: the FPGA is selected again and the mutex is free.
\<close>

theorem flash_excludes_others:
  assumes "spidev_ioctl env um SPI_IOC_OPER_FLASH arg s h = Done (0, s1, um1, h1)"
  shows "sel s1 = FLASH_FPGA \<and> kcs (spi_k s1) = 2 \<and> \<not> gpio_flash s1 \<and> bound s1 \<and>
    spidev_read env so um2 buf s1 h2 = Blocked \<and>
    spidev_write env so um2 buf s1 h2 = Blocked \<and>
    fpga_spi_write_k env addr d count s1 h2 = Blocked \<and>
    fpga_spi_read_k env addr d count s1 h2 = Blocked \<and>
    dpll_spi_write_k env addr d count s1 h2 = Blocked \<and>
    dpll_spi_read_k env addr e count s1 h2 = Blocked \<and>
    spidev_ioctl env um2 SPI_IOC_OPER_FLASH arg s1 h2 = Blocked \<and>
    (\<exists>s3 h3. spidev_ioctl env um2 SPI_IOC_OPER_FLASH_DONE arg s1 h2 = Done (0, s3, um2, h3) \<and>
       sel s3 = FPGA_CHIP \<and> kcs (spi_k s3) = 0 \<and> gpio_flash s3 \<and> \<not> sel_locked s3)"
proof -
  have a: "access_ok arg 1" "bound s" "\<not> sel_locked s"
    using assms unfolding oper_flash_ioctl
    by (auto simp: ioctl_oper_flash_def split: if_splits)
  obtain t h2' where t: "set_cs_setup env 2 (s\<lparr>sel_locked := True\<rparr>) h = (t, h2')" by fastforce
  have s1: "s1 = t\<lparr>gpio_flash := False, sel := FLASH_FPGA\<rparr>"
    using assms a t unfolding oper_flash_ioctl by (simp add: ioctl_oper_flash_def with_um_def)
  have l: "sel_locked s1" "bound s1" "kcs (spi_k s1) = 2" "sel s1 = FLASH_FPGA" "\<not> gpio_flash s1"
    using set_cs_setup_keeps [OF t] a s1 by simp_all
  obtain v h3 where v: "set_cs_setup env 0 s1 h2 = (v, h3)" by fastforce
  have d: "ioctl_oper_flash_done env s1 h2 =
      (0, v\<lparr>sel := FPGA_CHIP, gpio_flash := True, sel_locked := False\<rparr>, h3)"
    using v by (simp add: ioctl_oper_flash_done_def)
  show ?thesis
    using l a d set_cs_setup_keeps(1) [OF v]
    by (simp add: oper_flash_ioctl oper_flash_done_ioctl ioctl_oper_flash_def spidev_read_def
      spidev_write_def fpga_spi_write_k_def fpga_spi_read_k_def dpll_spi_write_k_def
      dpll_spi_read_k_def with_um_def)
qed

theorem flash_excludes_others_witness:
  "\<exists>s1 h1. spidev_ioctl demo_env (full_mem demo_request) SPI_IOC_OPER_FLASH 0x1000 spidev_demo 0 =
      Done (0, s1, full_mem demo_request, h1) \<and>
    spidev_read demo_env [] (full_mem demo_request) 0x1000 s1 0 = Blocked"
proof -
  have "access_ok 0x1000 1" by (simp add: access_ok_def TASK_SIZE_def)
  moreover obtain t k where "set_cs_setup demo_env 2 (spidev_demo\<lparr>sel_locked := True\<rparr>) 0 = (t, k)"
    by fastforce
  ultimately have c: "spidev_ioctl demo_env (full_mem demo_request) SPI_IOC_OPER_FLASH 0x1000
      spidev_demo 0 = Done (0, t\<lparr>gpio_flash := False, sel := FLASH_FPGA\<rparr>, full_mem demo_request, k)"
    by (simp add: oper_flash_ioctl spidev_demo_sel ioctl_oper_flash_def with_um_def)
  then show ?thesis using flash_excludes_others [OF c] by blast
qed

end
