(* ===== verification/Spidev_Msg_Proofs.thy ===== *)
theory Spidev_Msg_Proofs
  imports Spidev_Proofs
begin

text \<open>
  The message interface and the settings of the SPI character device, and the flash calls that
  reach the stack buffers of the flash driver.
\<close>

section \<open>Messages stay within the bounce buffer, unless their lengths wrap\<close>

definition lens :: "ioc_xfer list \<Rightarrow> nat" where
  "lens xs = sum_list (map (\<lambda>x. unat (x_len x)) xs)"

lemma lens_simps [simp]: "lens [] = 0" "lens (x # xs) = unat (x_len x) + lens xs"
  by (simp_all add: lens_def)

lemma unat_add_small: "unat a + unat b < 2 ^ 32 \<Longrightarrow> unat (a + b) = unat a + unat b" for a b :: u32
  using unat_add_lem [of a b] by simp

lemma msg_build_safe:
  assumes "length b = bufsiz" "unat tot \<le> bufsiz" "unat tot + lens xs < 2 ^ 32"
  shows "case msg_build um b tot xs of
      None \<Rightarrow> False
    | Some (Inl (e, b')) \<Rightarrow> e < 0 \<and> length b' = bufsiz
    | Some (Inr (b', ks, t)) \<Rightarrow> length b' = bufsiz \<and> unat t = unat tot + lens xs \<and> unat t \<le> bufsiz"
  using assms
proof (induction um b tot xs rule: msg_build.induct)
  case (2 um b tot x xs)
  let ?t = "tot + x_len x"
  from "2.prems"(3) have t: "unat ?t = unat tot + unat (x_len x)"
    by (intro unat_add_small) simp
  show ?case
  proof (cases "of_nat bufsiz < ?t \<or>
      x_rx_buf x \<noteq> 0 \<and> \<not> access_ok (ucast (x_rx_buf x)) (x_len x)")
    case True
    then show ?thesis using "2.prems"(1) by auto
  next
    case False
    then have le: "unat ?t \<le> bufsiz" by (simp add: word_less_nat_alt bufsiz_def)
    obtain left bs where lb: "(if x_tx_buf x = 0 then (0, [])
        else copy_from_user_k um (ucast (x_tx_buf x)) (x_len x)) = (left, bs)" by fastforce
    have "length bs \<le> unat (x_len x)"
    proof (cases "x_tx_buf x = 0")
      case False
      then have "length bs = copy_span (ucast (x_tx_buf x)) (x_len x)"
        using lb length_copy_from_user_k [of um "ucast (x_tx_buf x)" "x_len x"] by simp
      then show ?thesis using copy_span_le by simp
    qed (use lb in simp)
    then obtain b' where m: "memcpy_at b (unat tot) bs = Some b'" "length b' = bufsiz"
      using le t "2.prems"(1) by (auto simp: memcpy_at_def)
    show ?thesis
    proof (cases "left = 0")
      case True
      have IH: "case msg_build um b' ?t xs of
          None \<Rightarrow> False
        | Some (Inl (e, b')) \<Rightarrow> e < 0 \<and> length b' = bufsiz
        | Some (Inr (b', ks, t)) \<Rightarrow> length b' = bufsiz \<and> unat t = unat ?t + lens xs \<and> unat t \<le> bufsiz"
        using "2.IH" [OF _ _ lb [symmetric] _ m(1)] False True m(2) le t "2.prems"(3) by simp
      then show ?thesis using False lb m True t
        by (auto split: option.splits sum.splits prod.splits)
    qed (use False lb m in auto)
  qed
qed simp

lemma msg_copyout_safe:
  assumes "unat pos + lens xs \<le> length b" "length b < 2 ^ 32"
  shows "msg_copyout um b pos xs \<noteq> None"
  using assms
proof (induction um b pos xs rule: msg_copyout.induct)
  case (2 um b pos x xs)
  have t: "unat (pos + x_len x) = unat pos + unat (x_len x)"
    using "2.prems" by (intro unat_add_small) simp
  show ?case
    using 2 t by (auto simp: memread_at_def split: prod.splits)
qed simp



text \<open>
  The sum is kept in 32 bits. A first transfer of one byte and a second one of \<open>2 ^ 32 - 1\<close>
  bytes add up to 0, pass the size check, and the copy from user memory, which is only cut at the
  end of the address space, runs past the end of the 4096-byte bounce buffer: whatever the memory
  holds, for every source address at least 4096 bytes below the end.
\<close>

theorem spidev_message_wraps:
  assumes "sbuffer s = Some b" "length b = 4096" "e_kcalloc env 2"
    and "0 < a" "a \<le> TASK_SIZE - 4096"
    and "x_len x = 1" "x_tx_buf x = 0" "x_rx_buf x = 0"
    and "x_len y = 0xffffffff" "x_tx_buf y = ucast a" "x_rx_buf y = 0"
  shows "spidev_message env um [x, y] s h = Fault"
proof -
  have u: "unat a + 4096 \<le> unat TASK_SIZE"
    using assms(5) by (simp add: TASK_SIZE_def word_le_nat_alt)
  have "\<not> access_ok a 0xffffffff"
    using unsigned_less [of a] by (simp add: access_ok_unat TASK_SIZE_def)
  then have "length (snd (copy_from_user_k um a 0xffffffff)) = unat TASK_SIZE - unat a"
    by (simp add: length_copy_from_user_k copy_span_def)
  then have l: "4096 \<le> length (snd (copy_from_user_k um a 0xffffffff))" using u by simp
  have i: "ucast (ucast a :: 64 word) = a"
    by (rule bit_word_eqI) (simp add: bit_simps)
  moreover have "(ucast a :: 64 word) \<noteq> 0" using assms(4) i by (metis unsigned_0 less_irrefl)
  moreover obtain left bs where "copy_from_user_k um a 0xffffffff = (left, bs)" "4096 \<le> length bs"
    using l by (cases "copy_from_user_k um a 0xffffffff") simp
  ultimately have "msg_build um b 0 [x, y] = None"
    using assms by (simp add: bufsiz_def memcpy_at_def)
  then show ?thesis using assms(1,3) by (simp add: spidev_message_def numeral_2_eq_2 del: msg_build.simps)
qed

theorem spidev_message_wraps_witness:
  "spidev_message demo_env (full_mem demo_request)
     [\<lparr>x_tx_buf = 0, x_rx_buf = 0, x_len = 1, x_speed_hz = 0, x_delay_usecs = 0,
       x_bits_per_word = 0, x_cs_change = 0\<rparr>,
      \<lparr>x_tx_buf = 0x1000, x_rx_buf = 0, x_len = 0xffffffff, x_speed_hz = 0, x_delay_usecs = 0,
       x_bits_per_word = 0, x_cs_change = 0\<rparr>] spidev_demo 0 = Fault"
  by (rule spidev_message_wraps [of _ "replicate 4096 0" _ "0x1000"])
     (simp_all add: spidev_demo_sel demo_env_def TASK_SIZE_def)

section \<open>Settings\<close>

lemma wr_setting_failed:
  assumes "wr_setting env f keep s h = (r, s', h')" "r < 0"
    and "\<And>spi. kcs spi = kcs (f (spi_k s)) \<Longrightarrow> kmode spi = kmode (f (spi_k s)) \<Longrightarrow>
      kspeed spi = kspeed (f (spi_k s)) \<Longrightarrow>
      kbits (f (spi_k s)) \<noteq> 0 \<longrightarrow> kbits spi = kbits (f (spi_k s)) \<Longrightarrow> keep (spi_k s) spi = spi_k s"
  shows "s' = s"
proof -
  obtain spi where "spi_setup_k env (f (spi_k s)) h = (r, spi, h')"
      "s' = s\<lparr>spi_k := keep (spi_k s) spi\<rparr>"
    using assms(1,2) by (auto simp: wr_setting_def split: prod.splits)
  then show ?thesis using spi_setup_k_keeps [of env "f (spi_k s)" h r spi h'] assms(3) by simp
qed

lemma failed_keeps:
  assumes "r < 0" "kbits (spi_k s) \<noteq> 0"
  shows "wr_setting env (\<lambda>spi. spi\<lparr>kmode := g spi\<rparr>) keep_mode s h = (r, s', h') \<Longrightarrow> s' = s"
    and "wr_setting env (\<lambda>spi. spi\<lparr>kbits := x\<rparr>) keep_bits s h = (r, s', h') \<Longrightarrow> s' = s"
    and "wr_setting env (\<lambda>spi. spi\<lparr>kspeed := y\<rparr>) keep_speed s h = (r, s', h') \<Longrightarrow> s' = s"
  by (erule wr_setting_failed [OF _ assms(1)];
      use assms(2) in \<open>auto simp: keep_mode_def keep_bits_def keep_speed_def
        intro!: spi_dev_k.equality\<close>)+

lemma with_um_Done: "with_um um x = Done (r, s', um', h') \<longleftrightarrow> x = (r, s', h') \<and> um' = um"
  by (cases x) (auto simp: with_um_def)

text \<open>The four commands that write a setting.\<close>

definition wr_cmds :: "u32 list" where
  "wr_cmds = [SPI_IOC_WR_MODE, SPI_IOC_WR_LSB_FIRST, SPI_IOC_WR_BITS_PER_WORD,
     SPI_IOC_WR_MAX_SPEED_HZ]"

lemma wr_ioctl:
  "spidev_ioctl env um SPI_IOC_WR_MODE arg s h =
     (if \<not> access_ok arg 1 then Done (- EFAULT, s, um, h)
      else if \<not> bound s then Done (- ESHUTDOWN, s, um, h)
      else with_um um (ioctl_wr_mode env um arg s h))"
  "spidev_ioctl env um SPI_IOC_WR_LSB_FIRST arg s h =
     (if \<not> access_ok arg 1 then Done (- EFAULT, s, um, h)
      else if \<not> bound s then Done (- ESHUTDOWN, s, um, h)
      else with_um um (ioctl_wr_lsb_first env um arg s h))"
  "spidev_ioctl env um SPI_IOC_WR_BITS_PER_WORD arg s h =
     (if \<not> access_ok arg 1 then Done (- EFAULT, s, um, h)
      else if \<not> bound s then Done (- ESHUTDOWN, s, um, h)
      else with_um um (ioctl_wr_bits env um arg s h))"
  "spidev_ioctl env um SPI_IOC_WR_MAX_SPEED_HZ arg s h =
     (if \<not> access_ok arg 4 then Done (- EFAULT, s, um, h)
      else if \<not> bound s then Done (- ESHUTDOWN, s, um, h)
      else with_um um (ioctl_wr_speed env um arg s h))"
  by (simp_all add: spidev_ioctl_def spi_ioc_defs)

text \<open>
  A call that writes a setting and fails leaves the device's mode, word size, speed and chip
  select as they were, for each of the four settings; the word size is the exception when it was 0,
  which the set-up replaces by its default.
\<close>

theorem failed_setting_restored:
  assumes "cmd \<in> set wr_cmds" "spidev_ioctl env um cmd arg s h = Done (r, s', um', h')" "r < 0"
    and "kbits (spi_k s) \<noteq> 0"
  shows "s' = s \<and> um' = um"
proof -
  have "cmd = SPI_IOC_WR_MODE \<or> cmd = SPI_IOC_WR_LSB_FIRST \<or> cmd = SPI_IOC_WR_BITS_PER_WORD \<or>
      cmd = SPI_IOC_WR_MAX_SPEED_HZ"
    using assms(1) by (simp add: wr_cmds_def)
  then show ?thesis
    using assms(2-4)
    by (elim disjE)
       (auto simp: wr_ioctl with_um_Done ioctl_wr_mode_def ioctl_wr_lsb_first_def ioctl_wr_bits_def
          ioctl_wr_speed_def split: if_splits option.splits
          dest: failed_keeps [OF assms(3,4)])
qed

theorem failed_setting_restored_witness:
  "\<exists>r s' um' h'. spidev_ioctl demo_env (full_mem (\<lambda>a. 0)) SPI_IOC_WR_MAX_SPEED_HZ 0x1000 spidev_demo 0 =
     Done (r, s', um', h') \<and> r = - 22 \<and> s' = spidev_demo"
proof -
  have a: "access_ok 0x1000 4" by (simp add: access_ok_def TASK_SIZE_def)
  have g: "get_user32 (full_mem (\<lambda>a. 0)) 0x1000 = Some 0"
    by (simp add: get_user32_def copy_from_full_mem be32_at_def of_be32_def)
  obtain r s' h' where w: "ioctl_wr_speed demo_env (full_mem (\<lambda>a. 0)) 0x1000 spidev_demo 0 = (r, s', h')"
    by (metis surj_pair)
  have r: "r = - 22"
    using w g by (auto simp: ioctl_wr_speed_def wr_setting_def spi_setup_k_def spidev_demo_sel
      demo_env_def)
  have c: "spidev_ioctl demo_env (full_mem (\<lambda>a. 0)) SPI_IOC_WR_MAX_SPEED_HZ 0x1000 spidev_demo 0 =
      Done (r, s', full_mem (\<lambda>a. 0), h')"
    using w a by (simp add: wr_ioctl spidev_demo_sel with_um_def)
  have "s' = spidev_demo"
    using failed_setting_restored [OF _ c] r by (simp add: wr_cmds_def spidev_demo_sel)
  then show ?thesis using c r by blast
qed

lemma copy_to_user_4:
  assumes "\<And>i. i < 4 \<Longrightarrow> um_writable um (a + of_nat i)"
  shows "\<exists>um'. copy_to_user um a (be32 v) = (True, um') \<and> get_user32 um' a = Some v"
proof -
  obtain b0 b1 b2 b3 where b: "be32 v = [b0, b1, b2, b3]" by (simp add: be32_def)
  have w: "um_writable um a" "um_writable um (a + 1)" "um_writable um (a + 2)" "um_writable um (a + 3)"
    using assms [of 0] assms [of 1] assms [of 2] assms [of 3] by simp_all
  let ?um = "um\<lparr>um_byte := (um_byte um)(a \<mapsto> b0, a + 1 \<mapsto> b1, a + 2 \<mapsto> b2, a + 3 \<mapsto> b3)\<rparr>"
  have s: "a + 1 + 1 = a + 2" "a + 2 + 1 = a + 3" by (simp_all add: add.assoc)
  have c: "copy_to_user um a (be32 v) = (True, ?um)"
    unfolding b by (simp add: w s)
  have n: "a \<noteq> a + 1" "a \<noteq> a + 2" "a \<noteq> a + 3" "a + 1 \<noteq> a + 2" "a + 1 \<noteq> a + 3" "a + 2 \<noteq> a + 3"
    by simp_all
  have "copy_from_user ?um a (Suc (Suc (Suc (Suc 0)))) = Some [b0, b1, b2, b3]"
    by (simp only: copy_from_user.simps s) (simp add: n n [symmetric])
  moreover have "be32_at [b0, b1, b2, b3] 0 = v"
    using b be32_at_be32 [of v "[]"] by simp
  ultimately have "get_user32 ?um a = Some v"
    by (simp add: get_user32_def numeral_eq_Suc)
  then show ?thesis using c by blast
qed

text \<open>
  A speed that was written without an error is the speed the device reports: the call that
  reads it stores the four bytes of that value and returns 0.
\<close>

theorem speed_write_read:
  assumes "spidev_ioctl env um SPI_IOC_WR_MAX_SPEED_HZ arg s h = Done (r, s1, um1, h1)" "0 \<le> r"
    and "get_user32 um arg = Some v"
    and "access_ok arg2 4" "\<forall>i < 4. um_writable um2 (arg2 + of_nat i)"
  shows "\<exists>um3. spidev_ioctl env um2 SPI_IOC_RD_MAX_SPEED_HZ arg2 s1 h2 = Done (0, s1, um3, h2) \<and>
    get_user32 um3 arg2 = Some v"
proof -
  have w: "ioctl_wr_speed env um arg s h = (r, s1, h1)" and b: "bound s"
    using assms(1,2) by (auto simp: wr_ioctl with_um_Done split: if_splits)
  obtain spi where "spi_setup_k env ((spi_k s)\<lparr>kspeed := v\<rparr>) h = (r, spi, h1)" "s1 = s\<lparr>spi_k := spi\<rparr>"
    using w assms(2,3) by (auto simp: ioctl_wr_speed_def wr_setting_def split: prod.splits)
  then have v: "kspeed (spi_k s1) = v" "bound s1"
    using spi_setup_k_keeps [of env "(spi_k s)\<lparr>kspeed := v\<rparr>" h r spi h1] b by simp_all
  have rd: "spidev_ioctl env um2 SPI_IOC_RD_MAX_SPEED_HZ arg2 s1 h2 =
      with_mem s1 h2 (put_user_bytes um2 arg2 (be32 v))"
    using assms(4) v by (simp add: spidev_ioctl_def spi_ioc_defs)
  show ?thesis
    using copy_to_user_4 [of um2 arg2 v] assms(5) rd
    by (auto simp: put_user_bytes_def with_mem_def)
qed

theorem speed_write_read_witness:
  "\<exists>s1 h1 um3. spidev_ioctl demo_env (full_mem (\<lambda>a. 1)) SPI_IOC_WR_MAX_SPEED_HZ 0x1000 spidev_demo 0 =
      Done (0, s1, full_mem (\<lambda>a. 1), h1) \<and>
    spidev_ioctl demo_env (full_mem (\<lambda>a. 1)) SPI_IOC_RD_MAX_SPEED_HZ 0x2000 s1 0 =
      Done (0, s1, um3, 0) \<and> get_user32 um3 0x2000 = Some 0x01010101"
proof -
  have a: "access_ok 0x1000 4" "access_ok 0x2000 4" by (simp_all add: access_ok_def TASK_SIZE_def)
  have g: "get_user32 (full_mem (\<lambda>a. 1)) 0x1000 = Some 0x01010101"
    by (simp add: get_user32_def copy_from_full_mem be32_at_def of_be32_def)
  obtain r s' h' where w: "ioctl_wr_speed demo_env (full_mem (\<lambda>a. 1)) 0x1000 spidev_demo 0 = (r, s', h')"
    by (metis surj_pair)
  have r: "r = 0"
    using w g by (auto simp: ioctl_wr_speed_def wr_setting_def spi_setup_k_def spidev_demo_sel
      demo_env_def)
  have c: "spidev_ioctl demo_env (full_mem (\<lambda>a. 1)) SPI_IOC_WR_MAX_SPEED_HZ 0x1000 spidev_demo 0 =
      Done (r, s', full_mem (\<lambda>a. 1), h')"
    using w a by (simp add: wr_ioctl spidev_demo_sel with_um_def)
  have "\<forall>i < 4. um_writable (full_mem (\<lambda>a. 1)) (0x2000 + of_nat i)" by (simp add: full_mem_def)
  then show ?thesis
    using speed_write_read [OF c _ g a(2), of "full_mem (\<lambda>a. 1)" 0] c r by auto
qed

section \<open>The flash calls\<close>

text \<open>
  Reading the flash through the device file with a length above 252 runs past the stack buffers
  of the flash driver: nothing between the caller's structure and the copy limits the length to
  the buffers, only to the size of the chip.
\<close>

theorem flash_read_call_overruns:
  assumes "bound s" "access_ok arg 272" "copy_from_user um arg 272 = Some date"
    and "253 \<le> unat (be32_at date 8)" "be64_at date 0 + ucast (be32_at date 8) \<le> mtd_size (flash_k s)"
    and "fst (wait_till_ready (e_bus env (spi_k s)) (flash_now s) h) = 0"
    and "length (fst (e_stack env)) = 256"
  shows "spidev_ioctl env um W25P16_READ arg s h = Fault"
proof -
  have "access_ok arg 4" using assms(2) by (simp add: access_ok_unat)
  then have i: "spidev_ioctl env um W25P16_READ arg s h = ioctl_flash_read env um arg s h"
    using assms(1) by (simp add: spidev_ioctl_def spi_ioc_defs)
  have c: "copy_from_user_k um arg 272 = (0, date)"
    using copy_from_user_k_readable [of arg 272 um date] assms(2,3) by simp
  obtain h' where w: "wait_till_ready (e_bus env (spi_k s)) (flash_now s) h = (0, h')"
    using assms(6) by (cases "wait_till_ready (e_bus env (spi_k s)) (flash_now s) h") simp
  have n: "be32_at date 8 \<noteq> 0" using assms(4) by auto
  have z: "\<not> mtd_size (flash_now s) < be64_at date 0 + ucast (be32_at date 8)"
    using assms(5) by (simp add: flash_now_def)
  have "w25p16_read (e_bus env (spi_k s)) (fst (e_stack env)) rx0 (flash_now s) (be64_at date 0)
      (be32_at date 8) buf h = None" for rx0 buf
    using w n z assms(4,7)
    by (simp add: w25p16_read_def addr_bytes_def CMD_SIZE_def spi_sync_def memread_at_def)
  then show ?thesis using i c by (simp add: ioctl_flash_read_def sizeof_rw_date_def)
qed

definition ready_env :: "nat spi_env" where
  "ready_env = demo_env\<lparr>e_bus := (\<lambda>spi cs tx h. ((0, [], 0), h + 1))\<rparr>"

definition demo_flash_request :: "u32 \<Rightarrow> byte" where
  "demo_flash_request a = (if a = 0x100b then 253 else 0)"

theorem flash_read_call_overruns_witness:
  "spidev_ioctl ready_env (full_mem demo_flash_request) W25P16_READ 0x1000 spidev_demo 0 = Fault"
proof -
  let ?date = "map (\<lambda>i. demo_flash_request (0x1000 + of_nat i)) [0..<272]"
  have d: "be32_at ?date 0 = 0" "be32_at ?date 4 = 0" "be32_at ?date 8 = 253"
    by (simp_all add: be32_at_def of_be32_def demo_flash_request_def)
  have "read_sr (e_bus ready_env spi) flash h = (0, h + 1)" for spi flash h
    by (simp add: read_sr_def bus_io_def ready_env_def fit_def numeral_2_eq_2)
  then have "fst (wait_loop (e_bus ready_env spi) flash 100000 h) = 0" for spi flash h
    by (subst wait_loop_0_iff) (intro exI [of _ 0], simp)
  then have "fst (wait_till_ready (e_bus ready_env spi) flash h) = 0" for spi flash h
    by (simp add: wait_till_ready_def MAX_READY_WAIT_COUNT_def)
  moreover have "access_ok 0x1000 272" by (simp add: access_ok_def TASK_SIZE_def)
  moreover have "be64_at ?date 0 = 0" using d by (simp add: be64_at_def)
  moreover have "mtd_size (flash_k spidev_demo) = 0x7fffff" "length (fst (e_stack ready_env)) = 256"
    by (simp_all add: spidev_demo_def ready_env_def demo_env_def)
  ultimately show ?thesis
    using flash_read_call_overruns [of spidev_demo "0x1000" "full_mem demo_flash_request" ?date
      ready_env 0] d(3)
    by (simp add: spidev_demo_sel copy_from_full_mem)
qed

end
