(* ===== verification/Fpga_Update.thy ===== *)
theory Fpga_Update
  imports Spidev_Msg_Proofs
begin

text \<open>
  The program that updates the configuration flash of the FPGA (\<open>drivers/fpga_update/fpga_update.c\<close>), on the
  kernel's character device and flash driver. Its structure for the ioctls is at the address \<open>arg\<close> of its
  memory. The image is the content of the file it is given, or nothing when the file cannot be read; \<open>opened\<close> is
  whether the device could be opened. The padding at the end of the structure is read by nobody and is zero here.
\<close>

section \<open>The program\<close>

definition BLOCK_SIZE :: nat where "BLOCK_SIZE = 0x100"

text \<open>The structure with an address, a length and a block of data, and the program's own stores to its memory.\<close>

definition date_bytes :: "u32 \<Rightarrow> u32 \<Rightarrow> byte list \<Rightarrow> byte list" where
  "date_bytes faddr len buf = be32 0 @ be32 faddr @ be32 len @ buf @ replicate 4 0"

fun poke :: "user_mem \<Rightarrow> u32 \<Rightarrow> byte list \<Rightarrow> user_mem" where
  "poke um a [] = um"
| "poke um a (b # bs) = poke (um\<lparr>um_byte := (um_byte um)(a \<mapsto> b)\<rparr>) (a + 1) bs"

text \<open>What the C library makes of the result of a system call.\<close>

definition libc :: "int \<Rightarrow> int" where
  "libc r = (if r < 0 then - 1 else r)"

text \<open>The loop over the blocks of the image; \<open>buf\<close> is the buffer of the structure, \<open>ret\<close> the last result.\<close>

function write_blocks ::
  "'h spi_env \<Rightarrow> u32 \<Rightarrow> byte list \<Rightarrow> byte list \<Rightarrow> u32 \<Rightarrow> int \<Rightarrow> user_mem \<Rightarrow> spidev_state \<Rightarrow> 'h
     \<Rightarrow> (int \<times> spidev_state \<times> user_mem \<times> 'h) kres" where
  "write_blocks env arg img buf faddr ret um s h =
     (if img = [] then Done (ret, s, um, h)
      else
        (let blk = take BLOCK_SIZE img;
             buf = blk @ drop (length blk) buf;
             um = poke um arg (date_bytes faddr (of_nat (length blk)) buf)
         in case spidev_ioctl env um W25P16_WRITE arg s h of
              Done (r, s, um, h) \<Rightarrow>
                if libc r \<noteq> 0 then Done (libc r, s, um, h)
                else write_blocks env arg (drop BLOCK_SIZE img) buf (faddr + of_nat BLOCK_SIZE) (libc r) um s h
            | Blocked \<Rightarrow> Blocked
            | Fault \<Rightarrow> Fault))"
  by pat_completeness auto
termination
  by (relation "measure (\<lambda>(env, arg, img, buf, faddr, ret, um, s, h). length img)") (auto simp: BLOCK_SIZE_def)

declare write_blocks.simps [simp del]

text \<open>The end of the function: the flash is given back, whatever happened.\<close>

definition flash_end ::
  "'h spi_env \<Rightarrow> int \<times> spidev_state \<times> user_mem \<times> 'h \<Rightarrow> (int \<times> spidev_state \<times> user_mem \<times> 'h) kres" where
  "flash_end env = (\<lambda>(ret, s, um, h).
     case spidev_ioctl env um SPI_IOC_OPER_FLASH_DONE 0 s h of
       Done (r, s, um, h) \<Rightarrow> Done (ret, s, um, h) | Blocked \<Rightarrow> Blocked | Fault \<Rightarrow> Fault)"

definition fpga_flash_write ::
  "'h spi_env \<Rightarrow> bool \<Rightarrow> u32 \<Rightarrow> byte list \<Rightarrow> byte list option \<Rightarrow> user_mem \<Rightarrow> spidev_state \<Rightarrow> 'h
     \<Rightarrow> (int \<times> spidev_state \<times> user_mem \<times> 'h) kres" where
  "fpga_flash_write env opened arg buf img um s h =
     (if \<not> opened then Done (- 1, s, um, h)
      else
        (case spidev_ioctl env um SPI_IOC_OPER_FLASH 0 s h of
           Done (r, s, um, h) \<Rightarrow>
             if libc r < 0 then flash_end env (libc r, s, um, h)
             else
               (case spidev_ioctl env um W25_ERASE_CHIP 0 s h of
                  Done (e, s, um, h) \<Rightarrow>
                    if libc e < 0 then flash_end env (- 1, s, um, h)
                    else
                      (case img of
                         None \<Rightarrow> flash_end env (libc r, s, um, h)
                       | Some bs \<Rightarrow>
                           (case write_blocks env arg bs buf 0 (libc r) um s h of
                              Done x \<Rightarrow> flash_end env x | Blocked \<Rightarrow> Blocked | Fault \<Rightarrow> Fault))
                | Blocked \<Rightarrow> Blocked | Fault \<Rightarrow> Fault)
         | Blocked \<Rightarrow> Blocked | Fault \<Rightarrow> Fault))"

text \<open>What \<open>main\<close> tells its user: whether the update was a success.\<close>

definition update_reported :: "int \<Rightarrow> bool" where
  "update_reported ret \<longleftrightarrow> \<not> ret < 0"

section \<open>The structure in the program's memory\<close>

lemma poke_other: "um_byte (poke um a bs) x = um_byte um x" if "\<And>i. i < length bs \<Longrightarrow> x \<noteq> a + of_nat i"
  using that
proof (induction bs arbitrary: um a)
  case (Cons b bs)
  have "x \<noteq> a" using Cons.prems [of 0] by simp
  moreover have "x \<noteq> a + 1 + of_nat i" if "i < length bs" for i
    using Cons.prems [of "Suc i"] that by (simp add: add.assoc)
  ultimately show ?case using Cons.IH [of "a + 1" "um\<lparr>um_byte := (um_byte um)(a \<mapsto> b)\<rparr>"] by simp
qed simp

lemma poke_writable [simp]: "um_writable (poke um a bs) = um_writable um"
  by (induction um a bs rule: poke.induct) simp_all

lemma poke_read:
  assumes "length bs < 2 ^ 32"
  shows "copy_from_user (poke um a bs) a (length bs) = Some bs"
  using assms
proof (induction bs arbitrary: um a)
  case (Cons b bs)
  let ?um = "um\<lparr>um_byte := (um_byte um)(a \<mapsto> b)\<rparr>"
  have "a \<noteq> a + 1 + of_nat i" if "i < length bs" for i
  proof
    assume "a = a + 1 + of_nat i"
    then have "of_nat (Suc i) = (0 :: u32)" by (simp add: add.assoc)
    moreover have "unat (of_nat (Suc i) :: u32) = Suc i"
      using that Cons.prems by (subst unat_of_nat) (simp add: take_bit_nat_eq_self)
    ultimately show False by (metis Zero_not_Suc unat_0)
  qed
  then have "um_byte (poke ?um (a + 1) bs) a = Some b" by (subst poke_other) auto
  then show ?case using Cons by simp
qed simp

lemma tofrom_write_all:
  assumes "\<And>i. i < length bs \<Longrightarrow> um_writable um (a + of_nat i)"
  shows "\<exists>um'. tofrom_write um a bs = (0, um') \<and> um_writable um' = um_writable um"
  using assms
proof (induction bs arbitrary: um a)
  case (Cons b bs)
  have "um_writable um a" using Cons.prems [of 0] by simp
  moreover have "um_writable um (a + 1 + of_nat i)" if "i < length bs" for i
    using Cons.prems [of "Suc i"] that by (simp add: add.assoc)
  ultimately show ?case using Cons.IH [of "um\<lparr>um_byte := (um_byte um)(a \<mapsto> b)\<rparr>" "a + 1"] by simp
qed simp

lemma date_fields:
  assumes "length buf = 256"
  shows "length (date_bytes faddr len buf) = 272" "be64_at (date_bytes faddr len buf) 0 = ucast faddr"
    "be32_at (date_bytes faddr len buf) 8 = len" "take 256 (drop 12 (date_bytes faddr len buf)) = buf"
proof -
  show "length (date_bytes faddr len buf) = 272" "take 256 (drop 12 (date_bytes faddr len buf)) = buf"
    using assms by (simp_all add: date_bytes_def)
  have "be32_at (date_bytes faddr len buf) (4 + 0) = faddr" "be32_at (date_bytes faddr len buf) (4 + (4 + 0)) = len"
    by (simp_all only: date_bytes_def be32_at_skip be32_at_be32)
  then show "be64_at (date_bytes faddr len buf) 0 = ucast faddr" "be32_at (date_bytes faddr len buf) 8 = len"
    by (simp_all add: be64_at_def) (simp add: date_bytes_def)
qed

section \<open>The flash through the device\<close>

text \<open>
  A device whose transfers are recorded, whose set-up leaves the record alone and whose chip on select 2 is
  always ready.
\<close>

definition flash_env :: "('h \<times> (byte \<times> byte list) list) spi_env \<Rightarrow> (spi_dev_k \<Rightarrow> 'h spi_bus) \<Rightarrow> bool" where
  "flash_env env bus \<longleftrightarrow> e_bus env = (\<lambda>spi. logged (bus spi)) \<and> (\<forall>spi. always_ready (bus spi) 2) \<and>
     (\<forall>spi h. snd (snd (e_setup env spi h)) = snd h)"

lemma set_cs_setup_log:
  assumes "\<And>spi h. snd (snd (e_setup env spi h)) = snd h" "set_cs_setup env cs s h = (s', h')"
  shows "snd h' = snd h" "flash_k s' = flash_k s"
  using assms(2) assms(1) [of "if kbits (spi_k s) = 0 then (spi_k s)\<lparr>kcs := cs, kbits := 8\<rparr> else (spi_k s)\<lparr>kcs := cs\<rparr>" h]
  by (auto simp: set_cs_setup_def spi_setup_k_def Let_def split: if_splits prod.splits)

text \<open>The driver has the flash: it is selected, and the lock is held.\<close>

definition has_flash :: "spidev_state \<Rightarrow> bool" where
  "has_flash s \<longleftrightarrow> bound s \<and> sel_locked s \<and> kcs (spi_k s) = 2 \<and> length (flash_command (flash_k s)) = 4"

lemma oper_flash_log:
  assumes "\<And>spi h. snd (snd (e_setup env spi h)) = snd h" "bound s" "\<not> sel_locked s" "length (flash_command (flash_k s)) = 4"
  shows "\<exists>s' h'. spidev_ioctl env um SPI_IOC_OPER_FLASH 0 s h = Done (0, s', um, h') \<and> has_flash s' \<and>
    snd h' = snd h \<and> flash_k s' = flash_k s"
proof -
  obtain t h2 where t: "set_cs_setup env 2 (s\<lparr>sel_locked := True\<rparr>) h = (t, h2)" by (metis surj_pair)
  have "access_ok 0 1" by (simp add: access_ok_def TASK_SIZE_def)
  then have "spidev_ioctl env um SPI_IOC_OPER_FLASH 0 s h = Done (0, t\<lparr>gpio_flash := False, sel := FLASH_FPGA\<rparr>, um, h2)"
    using t assms(2,3) by (simp add: oper_flash_ioctl ioctl_oper_flash_def with_um_def)
  then show ?thesis
    using set_cs_setup_keeps [OF t] set_cs_setup_log [OF assms(1) t] assms by (simp add: has_flash_def)
qed

lemma flash_end_log:
  assumes "\<And>spi h. snd (snd (e_setup env spi h)) = snd h" "bound s"
  shows "\<exists>s' h'. flash_end env (ret, s, um, h) = Done (ret, s', um, h') \<and> \<not> sel_locked s' \<and> sel s' = FPGA_CHIP \<and> snd h' = snd h"
proof -
  obtain t h2 where t: "set_cs_setup env 0 s h = (t, h2)" by (metis surj_pair)
  have "access_ok 0 1" by (simp add: access_ok_def TASK_SIZE_def)
  then show ?thesis
    using t assms(2) set_cs_setup_log(1) [OF assms(1) t]
    by (simp add: flash_end_def oper_flash_done_ioctl ioctl_oper_flash_done_def with_um_def)
qed

lemma erase_chip_log:
  assumes "flash_env env bus" "has_flash s"
  shows "\<exists>s' h'. spidev_ioctl env um W25_ERASE_CHIP 0 s h = Done (0, s', um, h') \<and> has_flash s' \<and>
    snd h' = snd h @ [(2, [0x05, 0]), (2, [0x06]), (2, [0xc7])] \<and> mtd_size (flash_k s') = mtd_size (flash_k s)"
proof -
  let ?f = "flash_now s" and ?b = "bus (spi_k s)"
  have r: "always_ready ?b (flash_cs ?f)" using assms by (simp add: flash_env_def has_flash_def flash_now_def)
  have cs: "flash_cs ?f = 2" using assms(2) by (simp add: has_flash_def flash_now_def)
  obtain h0 l where h: "h = (h0, l)" by fastforce
  obtain h1 where w: "wait_till_ready (logged ?b) ?f (h0, l) = (0, (h1, l @ [rdsr_frame ?f]))"
    using wait_till_ready_always [OF r, of h0 l] by blast
  obtain x h2 where e: "write_enable (logged ?b) ?f (h1, l @ [rdsr_frame ?f]) = (x, (h2, l @ [rdsr_frame ?f, wren_frame ?f]))"
    using write_enable_logged [of ?b ?f h1 "l @ [rdsr_frame ?f]"] by auto
  obtain a b c d where c: "flash_command (flash_k s) = [a, b, c, d]"
    using assms(2) by (auto simp: has_flash_def numeral_eq_Suc length_Suc_conv)
  have i: "spidev_ioctl env um W25_ERASE_CHIP 0 s h =
      (case erase_chip (logged ?b) ?f h of (r, flash, h) \<Rightarrow> Done (r, s\<lparr>flash_k := flash\<rparr>, um, h))"
    using assms by (simp add: spidev_ioctl_def spi_ioc_defs access_ok_def TASK_SIZE_def flash_env_def has_flash_def)
  show ?thesis
    using i w e c cs assms(2)
    by (simp add: h erase_chip_def OPCODE_CHIP_ERASE_def bus_io_logged flash_now_def has_flash_def split_beta)
qed

lemma flash_command_now [simp]: "flash_command (flash_now s) = flash_command (flash_k s)"
  by (simp add: flash_now_def)

lemma write_call:
  assumes e: "flash_env env bus" and f: "has_flash s" and a: "access_ok arg 272" and l: "length buf = 256"
    and n: "0 < n" "n \<le> 256" and z: "of_nat n \<le> mtd_size (flash_k s)"
    and w: "\<And>i. i < 272 \<Longrightarrow> um_writable um (arg + of_nat i)"
  shows "if n \<le> 252
    then \<exists>s' um' h'. spidev_ioctl env (poke um arg (date_bytes 0 (of_nat n) buf)) W25P16_WRITE arg s h = Done (0, s', um', h') \<and>
      has_flash s' \<and> snd h' = snd h @ [(2, [0x05, 0]), (2, [0x06]), (2, [0x02, 0, 0, 0] @ take n buf)]
    else spidev_ioctl env (poke um arg (date_bytes 0 (of_nat n) buf)) W25P16_WRITE arg s h = Fault"
proof -
  let ?d = "date_bytes 0 (of_nat n) buf" and ?f = "flash_now s" and ?b = "bus (spi_k s)"
  let ?um = "poke um arg ?d"
  note d = date_fields [OF l, of 0 "of_nat n"]
  obtain h0 lg where h: "h = (h0, lg)" by (metis surj_pair)
  have un: "unat (of_nat n :: u32) = n" using n by (subst unat_of_nat) (simp add: take_bit_nat_eq_self)
  have c: "copy_from_user_k ?um arg 272 = (0, ?d)"
    using copy_from_user_k_readable [of arg 272 ?um ?d] a poke_read [of ?d um arg] d(1) by simp
  have "access_ok arg 4" using a by (simp add: access_ok_unat)
  then have i: "spidev_ioctl env ?um W25P16_WRITE arg s h =
      (case w25p16_write (logged ?b) ?f 0 (of_nat n) buf h of
         None \<Rightarrow> Fault
       | Some (retval, retlen, flash, h) \<Rightarrow>
           if retval \<noteq> 0 then Done (retval, s\<lparr>flash_k := flash\<rparr>, ?um, h)
           else (case copy_to_user_k ?um arg ?d of (left, um) \<Rightarrow> Done (uint left, s\<lparr>flash_k := flash\<rparr>, um, h)))"
    using e f c d by (simp add: spidev_ioctl_def spi_ioc_defs ioctl_flash_write_def sizeof_rw_date_def flash_env_def has_flash_def)
  obtain um' where "copy_to_user_k ?um arg ?d = (0, um')"
    using tofrom_write_all [of ?d ?um arg] w a d(1) by (auto simp: copy_to_user_k_def)
  moreover have "always_ready ?b (flash_cs ?f)" "flash_cs ?f = 2" "addr_bytes 0 = [0, 0, 0]"
    using e f by (simp_all add: flash_env_def has_flash_def flash_now_def addr_bytes_def)
  moreover have "(of_nat n :: u32) \<noteq> 0" using un n(1) by (metis less_irrefl unat_0)
  moreover have "(ucast (of_nat n :: u32) :: loff) = of_nat n"
    using n(2) by (simp add: unsigned_of_nat take_bit_nat_eq_self)
  then have "0 + ucast (of_nat n :: u32) \<le> mtd_size ?f" using z by (simp add: flash_now_def)
  moreover have "page_offset_of 0 + (of_nat n :: u32) \<le> 256"
    using un n(2) by (simp add: page_offset_of_def word_le_nat_alt)
  ultimately show ?thesis
    using w25p16_write_page [of ?b ?f "of_nat n" 0 buf h0 lg] i h un l n f
    by (auto simp: has_flash_def)
qed

text \<open>The loop ends with its first block: it is the whole image, or it does not fit the driver's buffer.\<close>

lemma write_first_block:
  assumes e: "flash_env env bus" and f: "has_flash s" and a: "access_ok arg 272" and b: "length buf = 256"
    and z: "256 \<le> mtd_size (flash_k s)" and w: "\<And>i. i < 272 \<Longrightarrow> um_writable um (arg + of_nat i)" and bs: "bs \<noteq> []"
  shows "if length bs \<le> 252
    then \<exists>s' um' h'. write_blocks env arg bs buf 0 0 um s h = Done (0, s', um', h') \<and> has_flash s' \<and>
      snd h' = snd h @ [(2, [0x05, 0]), (2, [0x06]), (2, [0x02, 0, 0, 0] @ bs)]
    else write_blocks env arg bs buf 0 0 um s h = Fault"
proof -
  let ?blk = "take 256 bs"
  let ?n = "length ?blk" and ?buf = "?blk @ drop (length ?blk) buf"
  have n: "0 < ?n" "?n \<le> 256" "length ?buf = 256" using bs b by simp_all
  have t: "take ?n ?buf = ?blk" by (metis append_eq_conv_conj)
  have "(of_nat ?n :: loff) \<le> 256" using n(2) by (simp add: word_le_nat_alt unat_of_nat take_bit_nat_eq_self)
  then have "of_nat ?n \<le> mtd_size (flash_k s)" using z by simp
  note wc = write_call [OF e f a n(3) n(1,2) this w, of h]
  show ?thesis
  proof (cases "length bs \<le> 252")
    case True
    then have blk: "?blk = bs" "drop 256 bs = []" by simp_all
    obtain s3 um3 h3 where r: "spidev_ioctl env (poke um arg (date_bytes 0 (of_nat ?n) ?buf)) W25P16_WRITE arg s h = Done (0, s3, um3, h3)"
        "has_flash s3" "snd h3 = snd h @ [(2, [0x05, 0]), (2, [0x06]), (2, [0x02, 0, 0, 0] @ take ?n ?buf)]"
      using wc True by (auto simp: blk)
    have "write_blocks env arg bs buf 0 0 um s h = Done (0, s3, um3, h3)"
      using r(1) blk bs by (subst write_blocks.simps) (simp add: BLOCK_SIZE_def libc_def Let_def write_blocks.simps)
    then show ?thesis using r(2,3) t blk(1) True by auto
  next
    case False
    then have "\<not> ?n \<le> 252" by simp
    then have "spidev_ioctl env (poke um arg (date_bytes 0 (of_nat ?n) ?buf)) W25P16_WRITE arg s h = Fault"
      using wc by (simp only: if_False)
    then show ?thesis using False bs by (subst write_blocks.simps) (simp add: BLOCK_SIZE_def Let_def)
  qed
qed

section \<open>What an update does\<close>

text \<open>
  C22. Updating the flash, with a chip that is always ready. An image that cannot be read, or is empty, erases the chip and
  is reported as a success. An image of up to 252 bytes is programmed after the erase, and reported as a success, with the FPGA selected
  again and the lock free. Every longer image, and so every real one, overruns the buffer of the flash driver on the kernel's stack with
  its first block.
\<close>

theorem fpga_update_outcome:
  assumes e: "flash_env env bus" and s: "bound s" "\<not> sel_locked s" "length (flash_command (flash_k s)) = 4"
      "256 \<le> mtd_size (flash_k s)"
    and a: "access_ok arg 272" and w: "\<And>i. i < 272 \<Longrightarrow> um_writable um (arg + of_nat i)" and b: "length buf = 256"
  shows "case img of
      Some (x # xs) \<Rightarrow>
        if length (x # xs) \<le> 252
        then \<exists>r s' um' h'. fpga_flash_write env True arg buf img um s h = Done (r, s', um', h') \<and> update_reported r \<and>
          \<not> sel_locked s' \<and> sel s' = FPGA_CHIP \<and>
          snd h' = snd h @ [(2, [0x05, 0]), (2, [0x06]), (2, [0xc7]), (2, [0x05, 0]), (2, [0x06]), (2, [0x02, 0, 0, 0] @ x # xs)]
        else fpga_flash_write env True arg buf img um s h = Fault
    | _ \<Rightarrow> \<exists>r s' um' h'. fpga_flash_write env True arg buf img um s h = Done (r, s', um', h') \<and> update_reported r \<and>
        \<not> sel_locked s' \<and> sel s' = FPGA_CHIP \<and> snd h' = snd h @ [(2, [0x05, 0]), (2, [0x06]), (2, [0xc7])]"
proof -
  have st: "\<And>spi h. snd (snd (e_setup env spi h)) = snd h" using e unfolding flash_env_def by blast
  obtain s1 h1 where o: "spidev_ioctl env um SPI_IOC_OPER_FLASH 0 s h = Done (0, s1, um, h1)" "has_flash s1"
      "snd h1 = snd h" "flash_k s1 = flash_k s"
    using oper_flash_log [OF st s(1-3)] by blast
  obtain s2 h2 where c: "spidev_ioctl env um W25_ERASE_CHIP 0 s1 h1 = Done (0, s2, um, h2)" "has_flash s2"
      "snd h2 = snd h @ [(2, [0x05, 0]), (2, [0x06]), (2, [0xc7])]" "mtd_size (flash_k s2) = mtd_size (flash_k s)"
    using erase_chip_log [OF e o(2), of um h1] o(3,4) by auto
  have empty: "\<exists>r s' um' h'. flash_end env (0, s2, um, h2) = Done (r, s', um', h') \<and> update_reported r \<and>
      \<not> sel_locked s' \<and> sel s' = FPGA_CHIP \<and> snd h' = snd h @ [(2, [0x05, 0]), (2, [0x06]), (2, [0xc7])]"
    using flash_end_log [OF st, of s2 0 um h2] c(2,3) by (auto simp: has_flash_def update_reported_def)
  show ?thesis
  proof (cases "img = None \<or> img = Some []")
    case True
    then show ?thesis using empty o(1) c(1) by (auto simp: fpga_flash_write_def libc_def write_blocks.simps)
  next
    case False
    then obtain x xs where i: "img = Some (x # xs)" by (metis list.exhaust option.exhaust)
    then have fw: "fpga_flash_write env True arg buf img um s h =
        (case write_blocks env arg (x # xs) buf 0 0 um s2 h2 of Done y \<Rightarrow> flash_end env y | Blocked \<Rightarrow> Blocked | Fault \<Rightarrow> Fault)"
      using o(1) c(1) by (simp add: fpga_flash_write_def libc_def)
    have "256 \<le> mtd_size (flash_k s2)" using s(4) c(4) by simp
    from write_first_block [OF e c(2) a b this w, of "x # xs" h2] show ?thesis
      using flash_end_log [OF st] c(3) fw i by (fastforce simp: has_flash_def update_reported_def)
  qed
qed

definition update_env :: "(nat \<times> (byte \<times> byte list) list) spi_env" where
  "update_env = \<lparr>e_bus = (\<lambda>spi. logged (\<lambda>cs tx h. ((0, replicate (length tx) 0, length tx), h + 1))),
     e_msg = (\<lambda>spi ks b h. Blocked), e_mode_bits = 0x07, e_setup = (\<lambda>spi h. (0, h)),
     e_kmalloc = (\<lambda>n. True), e_kcalloc = (\<lambda>n. True), e_stack = (replicate 256 0, replicate 256 0)\<rparr>"

lemma update_env_flash: "flash_env update_env (\<lambda>spi cs tx h. ((0, replicate (length tx) 0, length tx), h + 1))"
  by (simp add: flash_env_def update_env_def always_ready_def)

theorem fpga_update_outcome_witness:
  "fpga_flash_write update_env True 0x1000 (replicate 256 0) (Some (replicate 256 7)) (full_mem (\<lambda>a. 0)) spidev_demo (0, []) = Fault \<and>
   (\<exists>r s' um' h'. fpga_flash_write update_env True 0x1000 (replicate 256 0) None (full_mem (\<lambda>a. 0)) spidev_demo (0, []) =
      Done (r, s', um', h') \<and> update_reported r \<and> (2, [0xc7]) \<in> set (snd h'))"
proof -
  have d: "bound spidev_demo" "\<not> sel_locked spidev_demo" "length (flash_command (flash_k spidev_demo)) = 4"
      "256 \<le> mtd_size (flash_k spidev_demo)" "access_ok 0x1000 272" "um_writable (full_mem (\<lambda>a. 0)) x"
      "length (replicate 256 (0 :: byte)) = 256" for x
    by (simp_all add: spidev_demo_def access_ok_def TASK_SIZE_def full_mem_def)
  have i: "replicate 256 (7 :: byte) = 7 # replicate 255 7" by (simp add: numeral_eq_Suc)
  show ?thesis
    using fpga_update_outcome [OF update_env_flash d, of "Some (7 # replicate 255 7)" "(0, [])"]
      fpga_update_outcome [OF update_env_flash d, of None "(0, [])"]
    unfolding i by auto
qed

end
