(* ===== verification/Fsl_Espi.thy ===== *)
theory Fsl_Espi
  imports Espi Spi_Bus
begin

text \<open>
  The kernel's driver of the eSPI controller (\<open>drivers/spi/fsl_espi.c\<close>) and the queue that feeds it
  (\<open>drivers/spi/spi_bitbang.c\<close>, \<open>spi_async\<close> of \<open>drivers/spi/spi.c\<close>), over the same registers as the
  user-space driver. The buffers of a transfer are positions in one memory, since the character
  device lets them overlap. Waiting for the completion of a transfer is a number of interrupts,
  \<open>fuel\<close>; a transfer that is not complete by then is \<open>Blocked\<close>.
\<close>

section \<open>Driver state\<close>

record fsl_espi =
  f_mem :: "byte list"
  f_tx :: "nat option"
  f_rx :: "nat option"
  f_count :: int
  f_done :: bool

definition SPI_CS_HIGH :: byte where "SPI_CS_HIGH = 0x04"
definition SPI_3WIRE :: byte where "SPI_3WIRE = 0x10"
definition SPI_LOOP :: byte where "SPI_LOOP = 0x20"
definition MODEBITS :: byte where
  "MODEBITS = 0x02 OR 0x01 OR SPI_CS_HIGH OR 0x08 OR SPI_LOOP"
definition MAX_CS_NUM :: nat where "MAX_CS_NUM = 4"

abbreviation EREMOTEIO :: int where "EREMOTEIO \<equiv> 121"
abbreviation ENETDOWN :: int where "ENETDOWN \<equiv> 100"

definition SPIE_RXCNT :: "u32 \<Rightarrow> u32" where "SPIE_RXCNT reg = drop_bit 24 reg AND 0x3f"

definition fsl_espi_rx_buf :: "u32 \<Rightarrow> fsl_espi \<Rightarrow> fsl_espi option" where
  "fsl_espi_rx_buf data st =
     (case f_rx st of
        None \<Rightarrow> None
      | Some p \<Rightarrow> do {
          m \<leftarrow> memcpy_at (f_mem st) p (be32 data);
          Some (st\<lparr>f_mem := m, f_rx := Some (p + 4)\<rparr>)
        })"

definition fsl_espi_tx_buf :: "fsl_espi \<Rightarrow> (u32 \<times> fsl_espi) option" where
  "fsl_espi_tx_buf st =
     (case f_tx st of
        None \<Rightarrow> Some (0, st)
      | Some p \<Rightarrow> do {
          bs \<leftarrow> memread_at (f_mem st) p 4;
          Some (be32_at bs 0, st\<lparr>f_tx := Some (p + 4)\<rparr>)
        })"

section \<open>Set-up\<close>

text \<open>The divider of the bit clock for an input clock \<open>brg\<close>.\<close>

definition espi_clock :: "u32 \<Rightarrow> u32 \<Rightarrow> (u32 \<times> byte) option" where
  "espi_clock brg hz =
     (if hz = 0 then None
      else if 32 < brg div hz then
        (if hz * 32 = 0 then None
         else
           (let pm = ucast (brg div (hz * 32)) :: byte
            in Some (CSMODE_DIV16, if CSMODE_PM_MAX < pm then CSMODE_PM_MAX else pm)))
      else if hz * 2 = 0 then None
      else Some (0, ucast (brg div (hz * 2))))"

text \<open>
  \<open>fsl_espi_setup_transfer\<close>: \<open>t\<close> holds the word size and speed of a transfer, \<open>cs\<close> the saved mode
  word, which is there once the device has been set up.
\<close>

definition fsl_espi_setup_transfer ::
  "'h spi_hw \<Rightarrow> u32 \<Rightarrow> spi_dev_k \<Rightarrow> (byte \<times> u32) option \<Rightarrow> u32 option \<Rightarrow> 'h
     \<Rightarrow> (int \<times> u32 option \<times> 'h) option" where
  "fsl_espi_setup_transfer hw brg spi t cs h =
     (let (bits, hz) = (case t of Some x \<Rightarrow> x | None \<Rightarrow> (0, 0));
          bits = (if bits = 0 then kbits spi else bits)
      in if bits < 4 \<or> 16 < bits then Some (- EINVAL, cs, h)
         else
           (let hz = (if hz = 0 then kspeed spi else hz)
            in case cs of
                 None \<Rightarrow> None
               | Some hw_mode \<Rightarrow> do {
                   let m = hw_mode AND NOT (CSMODE_LEN 0xF OR CSMODE_DIV16 OR CSMODE_PM 0xF);
                   let m = m OR CSMODE_LEN (ucast (bits - 1));
                   (div16, pm) \<leftarrow> espi_clock brg hz;
                   let m = (m OR div16) OR CSMODE_PM (ucast pm);
                   if MAX_CS_NUM \<le> unat (kcs spi) then None
                   else
                     (let (regval, h) = reg_rd hw R_mode h;
                          h = reg_wr hw R_mode (regval AND NOT SPMODE_ENABLE) h;
                          h = reg_wr hw (R_csmode (unat (kcs spi))) m h;
                          h = reg_wr hw R_mode regval h
                      in Some (0, Some m, h))
                 }))"

definition fsl_espi_setup ::
  "'h spi_hw \<Rightarrow> u32 \<Rightarrow> bool \<Rightarrow> spi_dev_k \<Rightarrow> u32 option \<Rightarrow> 'h
     \<Rightarrow> (int \<times> spi_dev_k \<times> u32 option \<times> 'h) option" where
  "fsl_espi_setup hw brg kzalloc spi cs h =
     (if kmode spi AND NOT MODEBITS \<noteq> 0 then Some (- EINVAL, spi, cs, h)
      else if kspeed spi = 0 then Some (- EINVAL, spi, cs, h)
      else if cs = None \<and> \<not> kzalloc then Some (- ENOMEM, spi, cs, h)
      else
        (let hw_mode = (case cs of None \<Rightarrow> 0 | Some m \<Rightarrow> m);
             spi = (if kbits spi = 0 then spi\<lparr>kbits := 8\<rparr> else spi)
         in if MAX_CS_NUM \<le> unat (kcs spi) then None
            else
              (let (m, h) = reg_rd hw (R_csmode (unat (kcs spi))) h;
                   m = m AND NOT (CSMODE_CP_BEGIN_EDGECLK OR CSMODE_CI_INACTIVEHIGH OR CSMODE_REV);
                   m = (if kmode spi AND 0x01 \<noteq> 0 then m OR CSMODE_CP_BEGIN_EDGECLK else m);
                   m = (if kmode spi AND 0x02 \<noteq> 0 then m OR CSMODE_CI_INACTIVEHIGH else m);
                   m = (if kmode spi AND 0x08 = 0 then m OR CSMODE_REV else m)
               in do {
                    (retval, cs, h) \<leftarrow> fsl_espi_setup_transfer hw brg spi None (Some m) h;
                    if retval < 0 then Some (retval, spi, Some hw_mode, h)
                    else Some (0, spi, cs, h)
                  })))"

section \<open>Transfers\<close>

text \<open>Looking at the event register until a condition holds, for a limited time.\<close>

definition spin_event :: "'h spi_hw \<Rightarrow> nat \<Rightarrow> (u32 \<Rightarrow> bool) \<Rightarrow> 'h \<Rightarrow> u32 \<times> 'h" where
  "spin_event hw spins ok h = poll spins (reg_rd hw R_event) ok h"

text \<open>The interrupt handler; the flag of the result is \<open>IRQ_HANDLED\<close>.\<close>

definition fsl_espi_irq ::
  "'h spi_hw \<Rightarrow> nat \<Rightarrow> fsl_espi \<Rightarrow> 'h \<Rightarrow> (bool \<times> fsl_espi \<times> 'h) option" where
  "fsl_espi_irq hw spins st h =
     (let (event, h) = reg_rd hw R_event h
      in if event AND SPI_EV_NE = 0 then Some (True, st, reg_wr hw R_event event h)
         else
           (let limit = word_of_int (min 4 (f_count st));
                (event, h) = spin_event hw spins (\<lambda>ev. limit \<le> SPIE_RXCNT ev) h
            in if \<not> limit \<le> SPIE_RXCNT event then Some (False, st, h)
               else do {
                 let (rx_data, h) = reg_rd hw R_receive h;
                 st \<leftarrow> (if f_rx st = None then Some st else fsl_espi_rx_buf rx_data st);
                 let st = st\<lparr>f_count := f_count st - 4\<rparr>;
                 if 0 < f_count st then
                   (let (event, h) = (if event AND SPI_EV_NF = 0
                          then spin_event hw spins (\<lambda>ev. ev AND SPI_EV_NF \<noteq> 0) h else (event, h))
                    in if event AND SPI_EV_NF = 0 then Some (False, st, h)
                       else do {
                         (word, st) \<leftarrow> fsl_espi_tx_buf st;
                         Some (True, st, reg_wr hw R_transmit word h)
                       })
                 else
                   Some (True, st\<lparr>f_count := 0, f_done := True\<rparr>, reg_wr hw R_event event h)
               }))"

text \<open>Interrupts until the transfer is complete.\<close>

fun wait_for_completion ::
  "'h spi_hw \<Rightarrow> nat \<Rightarrow> nat \<Rightarrow> fsl_espi \<Rightarrow> 'h \<Rightarrow> (fsl_espi \<times> 'h) kres" where
  "wait_for_completion hw spins fuel st h =
     (if f_done st then Done (st, h)
      else
        (case fuel of
           0 \<Rightarrow> Blocked
         | Suc n \<Rightarrow>
             (case fsl_espi_irq hw spins st h of
                None \<Rightarrow> Fault
              | Some (handled, st, h) \<Rightarrow> wait_for_completion hw spins n st h)))"

definition fsl_espi_bufs ::
  "'h spi_hw \<Rightarrow> nat \<Rightarrow> nat \<Rightarrow> spi_dev_k \<Rightarrow> k_xfer \<Rightarrow> byte list \<Rightarrow> 'h
     \<Rightarrow> (int \<times> byte list \<times> 'h) kres" where
  "fsl_espi_bufs hw spins fuel spi t mem h =
     (let st = \<lparr>f_mem = mem, f_tx = map_option unat (k_tx t), f_rx = map_option unat (k_rx t),
                f_count = sint (k_len t), f_done = False\<rparr>;
          h = reg_wr hw R_command (push_bit 30 (ucast (kcs spi)) OR (k_len t - 1)) h;
          h = reg_wr hw R_mask SPIM_NE h
      in case fsl_espi_tx_buf st of
           None \<Rightarrow> Fault
         | Some (word, st) \<Rightarrow>
             kbind (wait_for_completion hw spins fuel st (reg_wr hw R_transmit word h))
               (\<lambda>(st, h). Done (sint (k_len t), f_mem st, reg_wr hw R_mask 0 h)))"

section \<open>The queue\<close>

text \<open>
  The loop over the transfers of a message: \<open>cs\<close> is the saved mode word, \<open>actual\<close> the number of bytes
  moved so far. The result has the status and whether the device was set up for a transfer. The
  chip select call of this controller driver is empty.
\<close>

fun bitbang_xfers ::
  "'h spi_hw \<Rightarrow> nat \<Rightarrow> nat \<Rightarrow> u32 \<Rightarrow> spi_dev_k \<Rightarrow> k_xfer list \<Rightarrow> byte list \<Rightarrow> u32 option \<Rightarrow> int \<Rightarrow> bool \<Rightarrow> 'h
     \<Rightarrow> (int \<times> int \<times> byte list \<times> u32 option \<times> bool \<times> 'h) kres" where
  "bitbang_xfers hw spins fuel brg spi [] mem cs actual done_setup h =
     Done (0, actual, mem, cs, done_setup, h)"
| "bitbang_xfers hw spins fuel brg spi (t # ts) mem cs actual done_setup h =
     (let do_setup = (k_speed t \<noteq> 0 \<or> k_bits t \<noteq> 0 \<or> kbits spi \<noteq> 0)
      in kbind (if do_setup
                then of_opt (fsl_espi_setup_transfer hw brg spi (Some (k_bits t, k_speed t)) cs h)
                else Done (0, cs, h))
           (\<lambda>(status, cs, h).
              if status < 0 then Done (status, actual, mem, cs, do_setup, h)
              else if k_tx t = None \<and> k_rx t = None \<and> k_len t \<noteq> 0
              then Done (- EINVAL, actual, mem, cs, do_setup, h)
              else
                kbind (if k_len t \<noteq> 0 then fsl_espi_bufs hw spins fuel spi t mem h
                       else Done (status, mem, h))
                  (\<lambda>(status, mem, h).
                     let actual = (if 0 < status then actual + status else actual)
                     in if word_of_int status \<noteq> k_len t
                        then Done (if 0 \<le> status then - EREMOTEIO else status, actual, mem, cs,
                                   do_setup, h)
                        else bitbang_xfers hw spins fuel brg spi ts mem cs actual do_setup h)))"

text \<open>One message of \<open>bitbang_work\<close>: its transfers, then the device's own settings again.\<close>

definition bitbang_message ::
  "'h spi_hw \<Rightarrow> nat \<Rightarrow> nat \<Rightarrow> u32 \<Rightarrow> spi_dev_k \<Rightarrow> k_xfer list \<Rightarrow> byte list \<Rightarrow> u32 option \<Rightarrow> 'h
     \<Rightarrow> (int \<times> int \<times> byte list \<times> u32 option \<times> 'h) kres" where
  "bitbang_message hw spins fuel brg spi ts mem cs h =
     kbind (bitbang_xfers hw spins fuel brg spi ts mem cs 0 False h)
       (\<lambda>(status, actual, mem, cs, do_setup, h).
          kbind (if do_setup then of_opt (fsl_espi_setup_transfer hw brg spi None cs h)
                 else Done (0, cs, h))
            (\<lambda>(r, cs, h). Done (status, actual, mem, cs, h)))"

definition spi_bitbang_transfer :: "spi_dev_k \<Rightarrow> int" where
  "spi_bitbang_transfer spi = (if kspeed spi = 0 then - ENETDOWN else 0)"

definition spi_async :: "spi_dev_k \<Rightarrow> k_xfer list \<Rightarrow> int" where
  "spi_async spi ts =
     (if kmode spi AND SPI_3WIRE \<noteq> 0 \<and> (\<exists>t \<in> set ts. k_rx t \<noteq> None \<and> k_tx t \<noteq> None)
      then - EINVAL else spi_bitbang_transfer spi)"

section \<open>Initialisation\<close>

text \<open>The register writes of \<open>fsl_espi_probe\<close>.\<close>

definition fsl_espi_init_regs :: "'h spi_hw \<Rightarrow> 'h \<Rightarrow> 'h" where
  "fsl_espi_init_regs hw h =
     (let h = reg_wr hw R_mode 0 h;
          h = reg_wr hw R_mask 0 h;
          h = reg_wr hw R_command 0 h;
          h = reg_wr hw R_event 0xffffffff h;
          h = reg_wr hw R_mode (SPMODE_INIT_VAL OR SPMODE_ENABLE) h
      in fold (\<lambda>i. reg_wr hw (R_csmode i) CSMODE_INIT_VAL) [0..<MAX_CS_NUM] h)"

end
