(* ===== verification/Fsl_Espi_Proofs.thy ===== *)
theory Fsl_Espi_Proofs
  imports Fsl_Espi
begin

text \<open>
  The kernel's interrupt-driven transfers move the same words as the user-space driver's polled
  ones, the two drivers program the same mode word, and what becomes of messages whose lengths are
  not multiples of four.
\<close>

section \<open>What a transfer does to memory and slave\<close>

text \<open>
  The reference: word by word, send what the memory holds at the transmit position, then store the
  answer at the receive position.
\<close>

definition fetch_word :: "nat option \<Rightarrow> byte list \<Rightarrow> u32 option" where
  "fetch_word tx mem =
     (case tx of None \<Rightarrow> Some 0 | Some p \<Rightarrow> map_option (\<lambda>bs. be32_at bs 0) (memread_at mem p 4))"

definition put_word :: "nat option \<Rightarrow> u32 \<Rightarrow> byte list \<Rightarrow> byte list option" where
  "put_word rx w mem = (case rx of None \<Rightarrow> Some mem | Some q \<Rightarrow> memcpy_at mem q (be32 w))"

definition next_pos :: "nat option \<Rightarrow> nat option" where
  "next_pos = map_option (\<lambda>p. p + 4)"

fun xfer_words ::
  "(u32 \<Rightarrow> 'd \<Rightarrow> u32 \<times> 'd) \<Rightarrow> nat \<Rightarrow> nat option \<Rightarrow> nat option \<Rightarrow> byte list \<Rightarrow> 'd
     \<Rightarrow> (byte list \<times> 'd) option" where
  "xfer_words xchg 0 tx rx mem d = Some (mem, d)"
| "xfer_words xchg (Suc n) tx rx mem d =
     (case fetch_word tx mem of
        None \<Rightarrow> None
      | Some w \<Rightarrow>
          (case xchg w d of
             (r, d) \<Rightarrow>
               (case put_word rx r mem of
                  None \<Rightarrow> None
                | Some mem \<Rightarrow> xfer_words xchg n (next_pos tx) (next_pos rx) mem d)))"

text \<open>
  The contract of the controller with the interrupt driver's one addition: clearing events does not
  touch the data.
\<close>

definition espi_irq_contract ::
  "'h spi_hw \<Rightarrow> ('h \<Rightarrow> 'd) \<Rightarrow> ('h \<Rightarrow> (u32 \<times> nat) option) \<Rightarrow> (u32 \<Rightarrow> 'd \<Rightarrow> u32 \<times> 'd) \<Rightarrow> bool" where
  "espi_irq_contract hw dev fifo xchg \<longleftrightarrow> espi_contract hw dev fifo xchg \<and>
     (\<forall>h v. dev (reg_wr hw R_event v h) = dev h \<and> fifo (reg_wr hw R_event v h) = fifo h)"

lemma irq_contractD:
  assumes "espi_irq_contract hw dev fifo xchg"
  shows "espi_contract hw dev fifo xchg"
    and "dev (reg_wr hw R_event v h) = dev h" "fifo (reg_wr hw R_event v h) = fifo h"
  using assms by (simp_all add: espi_irq_contract_def)

lemma demo_espi_irq_contract: "espi_irq_contract (demo_espi xchg) fst snd xchg"
  using demo_espi_contract [of xchg] unfolding espi_irq_contract_def
  by (auto simp: demo_espi_def split: prod.splits)

lemma tx_buf_fetch:
  "fsl_espi_tx_buf st =
     map_option (\<lambda>w. (w, st\<lparr>f_tx := next_pos (f_tx st)\<rparr>)) (fetch_word (f_tx st) (f_mem st))"
proof (cases "f_tx st")
  case None
  then have "st = st\<lparr>f_tx := None\<rparr>" by simp
  then show ?thesis using None by (simp add: fsl_espi_tx_buf_def fetch_word_def next_pos_def)
next
  case (Some p)
  then show ?thesis
    by (cases "memread_at (f_mem st) p 4")
       (simp_all add: fsl_espi_tx_buf_def fetch_word_def next_pos_def)
qed

lemma rx_buf_put:
  "(if f_rx st = None then Some st else fsl_espi_rx_buf w st) =
     map_option (\<lambda>m. st\<lparr>f_mem := m, f_rx := next_pos (f_rx st)\<rparr>) (put_word (f_rx st) w (f_mem st))"
proof (cases "f_rx st")
  case None
  then have "st = st\<lparr>f_mem := f_mem st, f_rx := None\<rparr>" by simp
  then show ?thesis using None by (simp add: put_word_def next_pos_def)
next
  case (Some p)
  then show ?thesis
    by (cases "memcpy_at (f_mem st) p (be32 w)")
       (simp_all add: fsl_espi_rx_buf_def put_word_def next_pos_def)
qed

lemma map_then_Some:
  "Option.bind (map_option (\<lambda>w. (w, f w)) x) (\<lambda>(w, st). Some (True, st, g w)) =
     map_option (\<lambda>w. (True, f w, g w)) x"
  by (cases x) simp_all

section \<open>One interrupt\<close>

lemma irq_early:
  assumes "espi_irq_contract hw dev fifo xchg" "fifo h = Some (r, Suc k)"
  shows "\<exists>h'. fsl_espi_irq hw spins st h = Some (True, st, h') \<and> fifo h' = Some (r, k) \<and>
    dev h' = dev h"
proof -
  note c = irq_contractD [OF assms(1)]
  obtain ev h1 where e: "reg_rd hw R_event h = (ev, h1)" by fastforce
  have "fifo h1 = Some (r, k)" "ev AND SPI_EV_NE = 0" "dev h1 = dev h"
    using contract_event [OF c(1) e] assms(2) by auto
  then show ?thesis using e c(2,3) by (simp add: fsl_espi_irq_def)
qed

definition after_word ::
  "'h spi_hw \<Rightarrow> u32 \<Rightarrow> u32 \<Rightarrow> fsl_espi \<Rightarrow> 'h \<Rightarrow> (bool \<times> fsl_espi \<times> 'h) option" where
  "after_word hw ev r st h1 =
     (case put_word (f_rx st) r (f_mem st) of
         None \<Rightarrow> None
       | Some m \<Rightarrow>
           (let st = st\<lparr>f_mem := m, f_rx := next_pos (f_rx st), f_count := f_count st - 4\<rparr>
            in if 0 < f_count st
               then map_option (\<lambda>w. (True, st\<lparr>f_tx := next_pos (f_tx st)\<rparr>, reg_wr hw R_transmit w h1))
                      (fetch_word (f_tx st) (f_mem st))
               else Some (True, st\<lparr>f_count := 0, f_done := True\<rparr>, reg_wr hw R_event ev h1)))"

text \<open>The word is there: it is stored, and the next one goes out or the transfer is complete.\<close>

lemma irq_word:
  assumes "espi_irq_contract hw dev fifo xchg" "fifo h = Some (r, 0)" "0 < f_count st"
  shows "\<exists>ev h1. fifo h1 = None \<and> dev h1 = dev h \<and>
    fsl_espi_irq hw spins st h = after_word hw ev r st h1"
proof -
  note c = irq_contractD [OF assms(1)]
  obtain e0 h0 where 0: "reg_rd hw R_event h = (e0, h0)" by fastforce
  have f0: "fifo h0 = Some (r, 0)" "e0 AND SPI_EV_NE \<noteq> 0" "dev h0 = dev h"
    using contract_event [OF c(1) 0] assms(2) by auto
  obtain e1 h1 where 1: "reg_rd hw R_event h0 = (e1, h1)" by fastforce
  have f1: "fifo h1 = Some (r, 0)" "4 \<le> SPIE_RXCNT e1" "dev h1 = dev h"
    using contract_event [OF c(1) 1] f0 by (auto simp: SPIE_RXCNT_def)
  let ?l = "word_of_int (min 4 (f_count st)) :: u32"
  have "?l \<le> 4"
  proof (cases "4 \<le> f_count st")
    case False
    then have "f_count st \<in> {1, 2, 3}" using assms(3) by auto
    then show ?thesis by auto
  qed simp
  then have l: "?l \<le> SPIE_RXCNT e1" using f1(2) by (rule order.trans)
  then have s: "spin_event hw spins (\<lambda>ev. ?l \<le> SPIE_RXCNT ev) h0 = (e1, h1)"
    using 1 poll_first_ok [of "\<lambda>ev. ?l \<le> SPIE_RXCNT ev" "reg_rd hw R_event" h0 spins]
    by (simp add: spin_event_def)
  obtain v h2 where 2: "reg_rd hw R_receive h1 = (v, h2)" by fastforce
  have f2: "v = r" "fifo h2 = None" "dev h2 = dev h"
    using contract_receive [OF c(1) f1(1) 2] f1(3) by simp_all
  obtain e3 h3 where 3: "reg_rd hw R_event h2 = (e3, h3)" by fastforce
  have f3: "e3 AND SPI_EV_NF \<noteq> 0" "fifo h3 = None" "dev h3 = dev h"
    using contract_event [OF c(1) 3] f2 by auto
  have n: "spin_event hw spins (\<lambda>ev. ev AND SPI_EV_NF \<noteq> 0) h2 = (e3, h3)"
    using 3 f3(1) poll_first_ok [of "\<lambda>ev. ev AND SPI_EV_NF \<noteq> 0" "reg_rd hw R_event" h2 spins]
    by (simp add: spin_event_def)
  show ?thesis
  proof (cases "0 < f_count st - 4 \<and> e1 AND SPI_EV_NF = 0")
    case True
    show ?thesis
      using True 0 f0(2) s l 2 f2(1) n f3
      by (intro exI [of _ e1] exI [of _ h3])
         (simp add: fsl_espi_irq_def after_word_def rx_buf_put tx_buf_fetch map_then_Some Let_def
            split: option.splits)
  next
    case False
    show ?thesis
      using False 0 f0(2) s l 2 f2
      by (intro exI [of _ e1] exI [of _ h2])
         (simp add: fsl_espi_irq_def after_word_def rx_buf_put tx_buf_fetch map_then_Some Let_def
            split: option.splits)
  qed
qed

section \<open>A whole transfer\<close>

lemma nwords_pos: "0 < nwords len"
  by (simp add: nwords_def pos_imp_zdiv_pos_iff)

lemma wait_unfold:
  "\<not> f_done st \<Longrightarrow> fsl_espi_irq hw spins st h = Some (b, st', h') \<Longrightarrow>
     wait_for_completion hw spins (Suc n) st h = wait_for_completion hw spins n st' h'"
  by (subst wait_for_completion.simps) simp

lemma wait_fault:
  "\<not> f_done st \<Longrightarrow> fsl_espi_irq hw spins st h = None \<Longrightarrow>
     wait_for_completion hw spins (Suc n) st h = Fault"
  by (subst wait_for_completion.simps) simp

lemma wait_done: "f_done st \<Longrightarrow> wait_for_completion hw spins n st h = Done (st, h)"
  by (subst wait_for_completion.simps) simp

declare wait_for_completion.simps [simp del]

text \<open>The interrupts before the answer is there change nothing.\<close>

lemma wait_early:
  assumes "espi_irq_contract hw dev fifo xchg" "\<not> f_done st"
  shows "fifo h = Some (r, k) \<Longrightarrow> \<exists>h'. fifo h' = Some (r, 0) \<and> dev h' = dev h \<and>
    wait_for_completion hw spins (n + k) st h = wait_for_completion hw spins n st h'"
proof (induction k arbitrary: h)
  case (Suc k)
  obtain h1 where i: "fsl_espi_irq hw spins st h = Some (True, st, h1)" "fifo h1 = Some (r, k)"
    "dev h1 = dev h"
    using irq_early [OF assms(1) Suc.prems] by blast
  then show ?case using Suc.IH [of h1] wait_unfold [OF assms(2) i(1), of "n + k"] by auto
qed auto

text \<open>What is left of a transfer once the answer \<open>r\<close> is on its way and \<open>n\<close> more words are to go.\<close>

definition rest_words ::
  "(u32 \<Rightarrow> 'd \<Rightarrow> u32 \<times> 'd) \<Rightarrow> nat \<Rightarrow> u32 \<Rightarrow> fsl_espi \<Rightarrow> 'd \<Rightarrow> (byte list \<times> 'd) option" where
  "rest_words xchg n r st d =
     (case put_word (f_rx st) r (f_mem st) of
        None \<Rightarrow> None
      | Some m \<Rightarrow> xfer_words xchg n (f_tx st) (next_pos (f_rx st)) m d)"

lemma wait_words:
  assumes c: "espi_irq_contract hw dev fifo xchg"
  shows "\<not> f_done st \<Longrightarrow> 0 < f_count st \<Longrightarrow> nwords (f_count st) = Suc n \<Longrightarrow>
    fifo h = Some (r, k) \<Longrightarrow> k < 1000 \<Longrightarrow> 1000 * Suc n \<le> fuel \<Longrightarrow>
    (case rest_words xchg n r st (dev h) of
       None \<Rightarrow> wait_for_completion hw spins fuel st h = Fault
     | Some (m, d) \<Rightarrow> \<exists>st' h'. wait_for_completion hw spins fuel st h = Done (st', h') \<and>
         f_mem st' = m \<and> dev h' = d \<and> fifo h' = None)"
proof (induction n arbitrary: st h r k fuel)
  case 0
  have "Suc k \<le> fuel" using "0.prems"(5,6) by simp
  then obtain f where f: "fuel = Suc f + k" using le_Suc_ex [of "Suc k" fuel] by auto
  obtain h1 where h1: "fifo h1 = Some (r, 0)" "dev h1 = dev h"
    "wait_for_completion hw spins fuel st h = wait_for_completion hw spins (Suc f) st h1"
    using wait_early [OF c "0.prems"(1,4), of spins "Suc f"] f by auto
  obtain ev h2 where h2: "fifo h2 = None" "dev h2 = dev h1"
    and i: "fsl_espi_irq hw spins st h1 = after_word hw ev r st h2"
    using irq_word [OF c h1(1) "0.prems"(2), of spins] by blast
  have le: "\<not> 4 < f_count st" using "0.prems"(3) nwords_Suc [of "f_count st"] nwords_pos [of "f_count st - 4"]
    by auto
  show ?case
  proof (cases "put_word (f_rx st) r (f_mem st)")
    case None
    then show ?thesis using i wait_fault [OF "0.prems"(1)] h1(3) by (simp add: rest_words_def after_word_def)
  next
    case (Some m)
    then have "fsl_espi_irq hw spins st h1 = Some (True, st\<lparr>f_mem := m, f_rx := next_pos (f_rx st),
        f_count := 0, f_done := True\<rparr>, reg_wr hw R_event ev h2)"
      using i le by (simp add: after_word_def)
    from wait_unfold [OF "0.prems"(1) this, of f]
    show ?thesis using Some h1(2,3) h2 irq_contractD(2,3) [OF c]
      by (simp add: rest_words_def wait_done)
  qed
next
  case (Suc n)
  have "Suc k \<le> fuel" using Suc.prems(5,6) by simp
  then obtain f where f: "fuel = Suc f + k" using le_Suc_ex [of "Suc k" fuel] by auto
  obtain h1 where h1: "fifo h1 = Some (r, 0)" "dev h1 = dev h"
    "wait_for_completion hw spins fuel st h = wait_for_completion hw spins (Suc f) st h1"
    using wait_early [OF c Suc.prems(1,4), of spins "Suc f"] f by auto
  obtain ev h2 where h2: "fifo h2 = None" "dev h2 = dev h1"
    and i: "fsl_espi_irq hw spins st h1 = after_word hw ev r st h2"
    using irq_word [OF c h1(1) Suc.prems(2), of spins] by blast
  have gt: "4 < f_count st" using Suc.prems(3) nwords_1 [of "f_count st"] by force
  have n: "nwords (f_count st - 4) = Suc n" using nwords_Suc [OF gt] Suc.prems(3) by simp
  show ?case
  proof (cases "put_word (f_rx st) r (f_mem st)")
    case None
    then show ?thesis using i wait_fault [OF Suc.prems(1)] h1(3) by (simp add: rest_words_def after_word_def)
  next
    case (Some m)
    show ?thesis
    proof (cases "fetch_word (f_tx st) m")
      case None
      then show ?thesis using Some i gt wait_fault [OF Suc.prems(1)] h1(3)
        by (simp add: rest_words_def after_word_def)
    next
      case w: (Some w)
      let ?st = "st\<lparr>f_mem := m, f_rx := next_pos (f_rx st), f_count := f_count st - 4,
        f_tx := next_pos (f_tx st)\<rparr>"
      let ?h = "reg_wr hw R_transmit w h2"
      have irq: "fsl_espi_irq hw spins st h1 = Some (True, ?st, ?h)"
        using Some w i gt by (simp add: after_word_def)
      obtain a d where x: "xchg w (dev h) = (a, d)" by fastforce
      obtain k' where k': "k' < 1000" "fifo ?h = Some (a, k')" "dev ?h = d"
        using contract_transmit [OF irq_contractD(1) [OF c] h2(1), of w] h2(2) h1(2) x by auto
      have "1000 * Suc n \<le> f" using Suc.prems(5,6) f by simp
      with Suc.IH [of ?st ?h a k' f] Suc.prems(1) gt n k'
      have IH: "case rest_words xchg n a ?st d of
          None \<Rightarrow> wait_for_completion hw spins f ?st ?h = Fault
        | Some (m, d) \<Rightarrow> \<exists>st' h'. wait_for_completion hw spins f ?st ?h = Done (st', h') \<and>
            f_mem st' = m \<and> dev h' = d \<and> fifo h' = None" by simp
      have r: "rest_words xchg (Suc n) r st (dev h) = rest_words xchg n a ?st d"
        using Some w x by (simp add: rest_words_def cong: option.case_cong)
      have e: "wait_for_completion hw spins fuel st h = wait_for_completion hw spins f ?st ?h"
        using wait_unfold [OF Suc.prems(1) irq, of f] h1(3) by simp
      show ?thesis unfolding r e by (rule IH)
    qed
  qed
qed

lemma bufs_exchange:
  assumes "espi_irq_contract hw dev fifo xchg" "fifo h = None" "0 < sint (k_len t)"
    and "1000 * nwords (sint (k_len t)) \<le> fuel"
  shows "case xfer_words xchg (nwords (sint (k_len t))) (map_option unat (k_tx t))
        (map_option unat (k_rx t)) mem (dev h) of
      None \<Rightarrow> fsl_espi_bufs hw spins fuel spi t mem h = Fault
    | Some (m, d) \<Rightarrow> \<exists>h'. fsl_espi_bufs hw spins fuel spi t mem h = Done (sint (k_len t), m, h') \<and>
        dev h' = d \<and> fifo h' = None"
proof -
  note c = irq_contractD [OF assms(1)]
  let ?st = "\<lparr>f_mem = mem, f_tx = map_option unat (k_tx t), f_rx = map_option unat (k_rx t),
    f_count = sint (k_len t), f_done = False\<rparr>"
  let ?h = "reg_wr hw R_mask SPIM_NE
    (reg_wr hw R_command (push_bit 30 (ucast (kcs spi)) OR (k_len t - 1)) h)"
  have i: "fifo ?h = None" "dev ?h = dev h"
    using assms(2) by (simp_all add: contract_control [OF c(1)])
  obtain n where n: "nwords (sint (k_len t)) = Suc n"
    using nwords_pos [of "sint (k_len t)"] by (cases "nwords (sint (k_len t))") auto
  show ?thesis
  proof (cases "fetch_word (f_tx ?st) mem")
    case None
    then show ?thesis using n by (simp add: fsl_espi_bufs_def tx_buf_fetch)
  next
    case (Some w)
    obtain r d where x: "xchg w (dev h) = (r, d)" by fastforce
    let ?st1 = "?st\<lparr>f_tx := next_pos (f_tx ?st)\<rparr>" and ?h1 = "reg_wr hw R_transmit w ?h"
    obtain k where k: "k < 1000" "fifo ?h1 = Some (r, k)" "dev ?h1 = d"
      using contract_transmit [OF c(1) i(1), of w] i(2) x by auto
    have b: "fsl_espi_bufs hw spins fuel spi t mem h =
        kbind (wait_for_completion hw spins fuel ?st1 ?h1)
          (\<lambda>(st, h). Done (sint (k_len t), f_mem st, reg_wr hw R_mask 0 h))"
      using Some by (simp add: fsl_espi_bufs_def tx_buf_fetch)
    have r: "xfer_words xchg (Suc n) (map_option unat (k_tx t)) (map_option unat (k_rx t)) mem
        (dev h) = rest_words xchg n r ?st1 d"
      using Some x by (simp add: rest_words_def cong: option.case_cong)
    have "case rest_words xchg n r ?st1 d of
        None \<Rightarrow> wait_for_completion hw spins fuel ?st1 ?h1 = Fault
      | Some (m, d) \<Rightarrow> \<exists>st' h'. wait_for_completion hw spins fuel ?st1 ?h1 = Done (st', h') \<and>
          f_mem st' = m \<and> dev h' = d \<and> fifo h' = None"
      using wait_words [OF assms(1), of ?st1 n ?h1 r k fuel spins] assms(3,4) n k by simp
    then show ?thesis unfolding n r b
      by (auto simp: contract_control [OF c(1)] split: option.splits)
  qed
qed

lemma xfer_words_disjoint:
  "run_list xchg (words_at txbuf p n) d = (rs, d') \<Longrightarrow>
   p + 4 * n \<le> length txbuf \<Longrightarrow> q + 4 * n \<le> length rxbuf \<Longrightarrow>
   xfer_words xchg n (Some p) (Some (length txbuf + q)) (txbuf @ rxbuf) d =
     Some (txbuf @ take q rxbuf @ concat (map be32 rs) @ drop (q + 4 * n) rxbuf, d')"
proof (induction n arbitrary: p q rxbuf d rs)
  case 0
  then show ?case by (simp add: words_at_def)
next
  case (Suc n)
  obtain a d1 where x: "xchg (be32_at txbuf p) d = (a, d1)" by fastforce
  obtain rs' where rs: "rs = a # rs'" "run_list xchg (words_at txbuf (p + 4) n) d1 = (rs', d')"
    using Suc.prems(1) x by (auto simp: words_at_Suc split: prod.splits)
  have "fetch_word (Some p) (txbuf @ rxbuf) = Some (be32_at txbuf p)"
    using Suc.prems(2) by (simp add: fetch_word_def memread_at_def be32_at_def nth_append)
  moreover let ?rx = "take q rxbuf @ be32 a @ drop (q + 4) rxbuf"
  have "put_word (Some (length txbuf + q)) a (txbuf @ rxbuf) = Some (txbuf @ ?rx)"
    using Suc.prems(3) by (simp add: put_word_def memcpy_at_def)
  ultimately have "xfer_words xchg (Suc n) (Some p) (Some (length txbuf + q)) (txbuf @ rxbuf) d =
      xfer_words xchg n (Some (p + 4)) (Some (length txbuf + (q + 4))) (txbuf @ ?rx) d1"
    using x by (simp add: next_pos_def add.assoc)
  also have "\<dots> = Some (txbuf @ take (q + 4) ?rx @ concat (map be32 rs') @ drop (q + 4 + 4 * n) ?rx, d')"
    by (rule Suc.IH [OF rs(2)]) (use Suc.prems in simp_all)
  finally show ?case using Suc.prems(3) rs(1) by (simp add: algebra_simps)
qed

text \<open>
  C7. The kernel's interrupt-driven transfer and the user-space driver's polled one are equivalent:
  over the same working controller and slave, with buffers that hold the length rounded up to whole
  words, both succeed, both leave the same bytes in the receive buffer and the slave in the same
  state; the kernel's takes at most 1000 interrupts per word.
\<close>

theorem kernel_user_transfer_equiv:
  assumes "espi_irq_contract hw dev fifo xchg" "fifo h = None" "0 < sint (k_len t)"
    and "4 * nwords (sint (k_len t)) \<le> length txbuf" "4 * nwords (sint (k_len t)) \<le> length rxbuf"
    and "k_tx t = Some 0" "k_rx t = Some (of_nat (length txbuf))" "length txbuf < 2 ^ 32"
    and "1000 * nwords (sint (k_len t)) \<le> fuel"
  shows "\<exists>rx h1 h2. spi_transfer hw spidev txbuf rxbuf (sint (k_len t)) h = Some (0, rx, h1) \<and>
    fsl_espi_bufs hw spins fuel spi t (txbuf @ rxbuf) h = Done (sint (k_len t), txbuf @ rx, h2) \<and>
    dev h1 = dev h2 \<and> fifo h1 = None \<and> fifo h2 = None"
proof -
  let ?n = "nwords (sint (k_len t))"
  obtain rs d where r: "run_list xchg (words_at txbuf 0 ?n) (dev h) = (rs, d)" by fastforce
  let ?rx = "concat (map be32 rs) @ drop (4 * ?n) rxbuf"
  obtain h1 where u: "spi_transfer hw spidev txbuf rxbuf (sint (k_len t)) h = Some (0, ?rx, h1)"
    "dev h1 = d" "fifo h1 = None"
    using spi_transfer_words [OF irq_contractD(1) [OF assms(1)] assms(2) r, of rxbuf spidev]
      assms(4,5) by auto
  have "unat (of_nat (length txbuf) :: u32) = length txbuf"
    using assms(8) by (simp add: unat_of_nat)
  then have "xfer_words xchg ?n (map_option unat (k_tx t)) (map_option unat (k_rx t)) (txbuf @ rxbuf)
      (dev h) = Some (txbuf @ ?rx, d)"
    using xfer_words_disjoint [OF r, of 0 rxbuf] assms(4,5,6,7) by simp
  then obtain h2 where "fsl_espi_bufs hw spins fuel spi t (txbuf @ rxbuf) h =
      Done (sint (k_len t), txbuf @ ?rx, h2)" "dev h2 = d" "fifo h2 = None"
    using bufs_exchange [OF assms(1-3) assms(9), where mem = "txbuf @ rxbuf" and spins = spins
      and spi = spi] by simp blast
  then show ?thesis using u by auto
qed

theorem kernel_user_transfer_equiv_witness:
  "\<exists>h2. fsl_espi_bufs (demo_espi (\<lambda>w d. (w + 1, d + 1))) 5 2000
      \<lparr>kcs = 1, kmode = 3, kbits = 8, kspeed = 6500000\<rparr>
      \<lparr>k_len = 6, k_tx = Some 0, k_rx = Some 8, k_cs_change = False, k_bits = 0, k_delay = 0,
        k_speed = 0\<rparr>
      ([0, 0, 0, 5, 0, 0, 0, 9] @ [7, 7, 7, 7, 7, 7, 7, 7, 7]) (0 :: nat, None) =
    Done (6, [0, 0, 0, 5, 0, 0, 0, 9] @ [0, 0, 0, 6, 0, 0, 0, 10, 7], h2)"
proof -
  let ?x = "\<lambda>w d. (w + 1 :: u32, d + 1 :: nat)"
  let ?t = "\<lparr>k_len = 6, k_tx = Some 0, k_rx = Some 8, k_cs_change = False, k_bits = 0, k_delay = 0,
        k_speed = 0\<rparr>"
  let ?dev = "\<lparr>chip_select = 1, max_speed_hz = 1, spi_mode = 0, bits_per_word = 8, spi_reg_addr = 0x1000\<rparr>"
  have n: "nwords 6 = 2" by (simp add: nwords_def)
  have "words_at [0, 0, 0, 5, 0, 0, 0, 9] 0 2 = [5, 9]"
    by (simp add: words_at_def upt_rec be32_at_def of_be32_def)
  then obtain h1 where u: "spi_transfer (demo_espi ?x) ?dev [0, 0, 0, 5, 0, 0, 0, 9]
      [7, 7, 7, 7, 7, 7, 7, 7, 7] 6 (0, None) = Some (0, [0, 0, 0, 6, 0, 0, 0, 10, 7], h1)"
    using spi_transfer_words [OF demo_espi_contract, of "(0, None)" ?x "[0, 0, 0, 5, 0, 0, 0, 9]" 6
      "[6, 10]" 2 "[7, 7, 7, 7, 7, 7, 7, 7, 7]" ?dev] n
    by (auto simp: be32_def)
  have "sint (6 :: u32) = 6" by simp
  then show ?thesis
    using kernel_user_transfer_equiv [OF demo_espi_irq_contract, of "(0, None)" ?t
      "[0, 0, 0, 5, 0, 0, 0, 9]" "[7, 7, 7, 7, 7, 7, 7, 7, 7]" 2000 ?x ?dev 5
      "\<lparr>kcs = 1, kmode = 3, kbits = 8, kspeed = 6500000\<rparr>"] u n
    by auto
qed

section \<open>A controller that does not answer\<close>

lemma irq_silent:
  assumes "\<forall>h. fst (reg_rd hw R_event h) AND SPI_EV_NE = 0"
  shows "\<exists>h'. fsl_espi_irq hw spins st h = Some (True, st, h')"
  using assms by (auto simp: fsl_espi_irq_def split: prod.splits) (metis fst_conv)

lemma wait_silent:
  assumes "\<forall>h. fst (reg_rd hw R_event h) AND SPI_EV_NE = 0" "\<not> f_done st"
  shows "wait_for_completion hw spins fuel st h = Blocked"
proof (induction fuel arbitrary: h)
  case 0
  then show ?case using assms(2) by (subst wait_for_completion.simps) simp
next
  case (Suc fuel)
  obtain h' where "fsl_espi_irq hw spins st h = Some (True, st, h')"
    using irq_silent [OF assms(1)] by blast
  then show ?case using wait_unfold [OF assms(2), of hw spins h True st h' fuel] Suc.IH [of h'] by simp
qed

text \<open>
  C32. A controller that never reports a received word keeps the kernel's transfer waiting for ever:
  no number of interrupts completes it, where the user-space driver gives up after its limit and
  returns \<open>-1\<close>.
\<close>

theorem silent_controller_hangs:
  assumes "\<forall>h. fst (reg_rd hw R_event h) AND SPI_EV_NE = 0" "k_tx t = Some 0" "4 \<le> length mem"
  shows "fsl_espi_bufs hw spins fuel spi t mem h = Blocked"
proof -
  obtain w where "fetch_word (map_option unat (k_tx t)) mem = Some w"
    using assms(2,3) by (auto simp: fetch_word_def memread_at_def)
  then show ?thesis using wait_silent [OF assms(1)] by (simp add: fsl_espi_bufs_def tx_buf_fetch)
qed

definition silent_espi :: "unit spi_hw" where
  "silent_espi = \<lparr>reg_rd = (\<lambda>r h. (0, h)), reg_wr = (\<lambda>r v h. h)\<rparr>"

theorem silent_controller_hangs_witness:
  "fsl_espi_bufs silent_espi 5 1000 \<lparr>kcs = 1, kmode = 3, kbits = 8, kspeed = 6500000\<rparr>
      \<lparr>k_len = 4, k_tx = Some 0, k_rx = None, k_cs_change = False, k_bits = 0, k_delay = 0,
        k_speed = 0\<rparr> [1, 2, 3, 4] () = Blocked"
  by (rule silent_controller_hangs) (simp_all add: silent_espi_def)

section \<open>The two drivers program the same mode word\<close>

lemma espi_clock_user: "espi_clock spibrg hz = spi_clock hz"
proof -
  have "hz * 32 \<noteq> 0" if "hz \<noteq> 0" "32 < spibrg div hz"
  proof -
    have "unat hz \<le> 6000000" using that spibrg_div_gt by blast
    then have "unat (hz * 32) = unat hz * 32" by (simp add: unat_word_ariths)
    then show ?thesis using that(1) by (metis mult_eq_0_iff unsigned_0 unat_eq_0 zero_neq_numeral)
  qed
  then show ?thesis by (auto simp: espi_clock_def spi_clock_def Let_def)
qed

lemma unat_ucast_byte: "unat (ucast m :: u32) = unat m" for m :: byte
  using unsigned_less [of m, where 'a = nat] by (simp add: unsigned_ucast_eq take_bit_nat_eq_self)

lemma ucast_byte_0: "(ucast m :: u32) = 0 \<longleftrightarrow> m = 0" for m :: byte
  by (metis unat_ucast_byte unat_eq_0)

lemma ucast_and_1: "(ucast m :: u32) AND 1 = 0 \<longleftrightarrow> m AND 1 = 0"
  "(ucast m :: u32) AND 2 = 0 \<longleftrightarrow> m AND 2 = 0" "(ucast m :: u32) AND 8 = 0 \<longleftrightarrow> m AND 8 = 0"
  for m :: byte
proof -
  have c: "(ucast m :: u32) AND ucast k = 0 \<longleftrightarrow> m AND k = 0" for k :: byte
    by (simp add: ucast_byte_0 flip: unsigned_and_eq)
  show "(ucast m :: u32) AND 1 = 0 \<longleftrightarrow> m AND 1 = 0"
    "(ucast m :: u32) AND 2 = 0 \<longleftrightarrow> m AND 2 = 0" "(ucast m :: u32) AND 8 = 0 \<longleftrightarrow> m AND 8 = 0"
    using c [of 1] c [of 2] c [of 8] by simp_all
qed

definition user_dev :: "u32 \<Rightarrow> spi_dev_k \<Rightarrow> spi_device" where
  "user_dev base spi =
     \<lparr>chip_select = ucast (kcs spi), max_speed_hz = kspeed spi, spi_mode = ucast (kmode spi),
      bits_per_word = ucast (kbits spi), spi_reg_addr = base\<rparr>"

lemma ucast_pred: "b \<noteq> 0 \<Longrightarrow> (ucast (b - 1 :: byte) :: u32) = ucast b - 1"
  by (simp add: word_unat_eq_iff unat_minus_one unat_ucast_byte ucast_byte_0)

text \<open>
  C19. The two drivers of the controller program it alike: for a device on one of the four chip
  selects with an accepted mode, word size and non-zero speed, the kernel's set-up and the
  user-space set-up leave the controller in the same state and return 0, or divide by zero
  together, when the input clock is the one the user-space driver assumes.
\<close>

theorem kernel_user_setup_equiv:
  assumes "kmode spi AND NOT MODEBITS = 0" "kspeed spi \<noteq> 0" "unat (kcs spi) < MAX_CS_NUM"
    "kbits spi = 0 \<or> 4 \<le> kbits spi \<and> kbits spi \<le> 16" "cs \<noteq> None \<or> kzalloc"
  shows "map_option (\<lambda>(r, dev, cs, h). (r, user_dev base dev, h)) (fsl_espi_setup hw spibrg kzalloc spi cs h) =
    spi_setup hw (user_dev base spi) h"
proof -
  define spi1 where "spi1 = (if kbits spi = 0 then spi\<lparr>kbits := 8\<rparr> else spi)"
  have e: "kmode spi1 = kmode spi" "kspeed spi1 = kspeed spi" "kcs spi1 = kcs spi"
    by (simp_all add: spi1_def)
  have b: "\<not> kbits spi1 < 4" "\<not> 16 < kbits spi1" "kbits spi1 \<noteq> 0"
    using assms(4) by (auto simp: spi1_def not_less)
  have u: "(if bits_per_word (user_dev base spi) = 0 then (user_dev base spi)\<lparr>bits_per_word := 8\<rparr>
      else user_dev base spi) = user_dev base spi1"
    by (simp add: user_dev_def spi1_def ucast_byte_0)
  obtain m0 h0 where r: "reg_rd hw (R_csmode (unat (kcs spi))) h = (m0, h0)" by fastforce
  have f: "fsl_espi_setup hw spibrg kzalloc spi cs h =
      (case csmode_of (user_dev base spi1) m0 of
         None \<Rightarrow> None
       | Some m \<Rightarrow>
           (let (regval, h) = reg_rd hw R_mode h0;
                h = reg_wr hw R_mode (regval AND NOT SPMODE_ENABLE) h;
                h = reg_wr hw (R_csmode (unat (kcs spi))) m h;
                h = reg_wr hw R_mode regval h
            in Some (0, spi1, Some m, h)))"
  proof (cases "spi_clock (kspeed spi)")
    case None
    then show ?thesis using assms b
      by (simp add: fsl_espi_setup_def spi1_def [symmetric] e r fsl_espi_setup_transfer_def
        csmode_of_def user_dev_def espi_clock_user Let_def)
  next
    case (Some dp)
    obtain div16 pm where dp: "dp = (div16, pm)" by fastforce
    obtain regval h1 where m: "reg_rd hw R_mode h0 = (regval, h1)" by fastforce
    show ?thesis using assms b
      by (simp add: fsl_espi_setup_def spi1_def [symmetric] e r m dp Some fsl_espi_setup_transfer_def
        csmode_of_def user_dev_def espi_clock_user ucast_and_1 ucast_pred SPI_CPHA_def SPI_CPOL_def
        SPI_LSB_FIRST_def Let_def)
  qed
  have v: "unat (chip_select (user_dev base spi1)) = unat (kcs spi)" "\<not> 4 \<le> unat (kcs spi)"
      "max_speed_hz (user_dev base spi) \<noteq> 0"
    using assms(2,3) by (simp_all add: user_dev_def e MAX_CS_NUM_def unat_ucast_byte)
  show ?thesis
    using v by (simp add: f spi_setup_def u r Let_def split: option.split prod.split)
qed

theorem kernel_user_setup_equiv_witness:
  "map_option (\<lambda>(r, dev, cs, h). (r, user_dev 0 dev, h))
     (fsl_espi_setup \<lparr>reg_rd = \<lambda>r h. (h r, h), reg_wr = \<lambda>r v h. h(r := v)\<rparr> spibrg True
        \<lparr>kcs = 0, kmode = 3, kbits = 8, kspeed = 4000000\<rparr> None (\<lambda>_. 0)) =
   Some (0, user_dev 0 \<lparr>kcs = 0, kmode = 3, kbits = 8, kspeed = 4000000\<rparr>,
     (\<lambda>_. 0)(R_mode := 0, R_csmode 0 := 0xf1070000))"
proof -
  let ?spi = "\<lparr>kcs = 0, kmode = 3, kbits = 8, kspeed = 4000000\<rparr>"
  let ?hw = "\<lparr>reg_rd = \<lambda>r h. (h r, h), reg_wr = \<lambda>r v h. h(r := v)\<rparr>"
  have "map_option (\<lambda>(r, dev, cs, h). (r, user_dev 0 dev, h))
     (fsl_espi_setup ?hw spibrg True ?spi None (\<lambda>_. 0)) = spi_setup ?hw (user_dev 0 ?spi) (\<lambda>_. 0)"
    by (rule kernel_user_setup_equiv)
      (simp_all add: MODEBITS_def SPI_CS_HIGH_def SPI_LOOP_def MAX_CS_NUM_def)
  also have "\<dots> = Some (0, user_dev 0 ?spi, (\<lambda>_. 0)(R_mode := 0, R_csmode 0 := 0xf1070000))"
    by (simp add: spi_setup_def user_dev_def csmode_of_def spi_clock_def spibrg_def Let_def
        SPI_CPHA_def SPI_CPOL_def SPI_LSB_FIRST_def CSMODE_DIV16_def CSMODE_LEN_def CSMODE_PM_def
        CSMODE_CP_BEGIN_EDGECLK_def CSMODE_CI_INACTIVEHIGH_def CSMODE_REV_def CSMODE_PM_MAX_def
        SPMODE_ENABLE_def fun_upd_twist [of R_mode "R_csmode 0"])
  finally show ?thesis .
qed

end
