(* ===== verification/Espi_Stack.thy ===== *)
theory Espi_Stack
  imports Fsl_Espi_Proofs Spidev_Msg_Proofs
begin

text \<open>
  The SPI messages of user space down to the wire: the character device's message call over the
  kernel's queue and the interrupt driver of the controller. The specification \<open>msg_words\<close> runs
  the words of the transfers one after the other on the shared buffer.
\<close>

section \<open>Messages on the queue\<close>

fun msg_words ::
  "(u32 \<Rightarrow> 'd \<Rightarrow> u32 \<times> 'd) \<Rightarrow> k_xfer list \<Rightarrow> byte list \<Rightarrow> 'd \<Rightarrow> (byte list \<times> 'd) option" where
  "msg_words xchg [] mem d = Some (mem, d)"
| "msg_words xchg (t # ts) mem d =
     (if k_len t = 0 then msg_words xchg ts mem d
      else
        (case xfer_words xchg (nwords (sint (k_len t))) (map_option unat (k_tx t))
                (map_option unat (k_rx t)) mem d of
           None \<Rightarrow> None
         | Some (mem, d) \<Rightarrow> msg_words xchg ts mem d))"

text \<open>A transfer the driver accepts, for a device and an input clock.\<close>

definition xfer_ok :: "u32 \<Rightarrow> spi_dev_k \<Rightarrow> nat \<Rightarrow> k_xfer \<Rightarrow> bool" where
  "xfer_ok brg spi fuel t \<longleftrightarrow>
     0 \<le> sint (k_len t) \<and> 1000 * nwords (sint (k_len t)) \<le> fuel \<and>
     (k_len t = 0 \<or> k_tx t \<noteq> None \<or> k_rx t \<noteq> None) \<and>
     (k_bits t = 0 \<or> 4 \<le> k_bits t \<and> k_bits t \<le> 16) \<and>
     espi_clock brg (if k_speed t = 0 then kspeed spi else k_speed t) \<noteq> None"

definition dev_ok :: "u32 \<Rightarrow> spi_dev_k \<Rightarrow> bool" where
  "dev_ok brg spi \<longleftrightarrow> 4 \<le> kbits spi \<and> kbits spi \<le> 16 \<and> unat (kcs spi) < MAX_CS_NUM \<and>
     espi_clock brg (kspeed spi) \<noteq> None"

lemma setup_transfer_keeps:
  assumes "espi_contract hw dev fifo xchg" "dev_ok brg spi" "cs \<noteq> None"
    and "case t of None \<Rightarrow> True | Some (b, hz) \<Rightarrow> (b = 0 \<or> 4 \<le> b \<and> b \<le> 16) \<and>
      espi_clock brg (if hz = 0 then kspeed spi else hz) \<noteq> None"
  shows "\<exists>cs' h'. fsl_espi_setup_transfer hw brg spi t cs h = Some (0, cs', h') \<and> cs' \<noteq> None \<and>
    dev h' = dev h \<and> fifo h' = fifo h"
proof -
  note c = contract_control [OF assms(1)]
  obtain b hz where t: "(case t of Some x \<Rightarrow> x | None \<Rightarrow> (0, 0)) = (b, hz)" by fastforce
  have k: "\<not> (if b = 0 then kbits spi else b) < 4" "\<not> 16 < (if b = 0 then kbits spi else b)"
      "espi_clock brg (if hz = 0 then kspeed spi else hz) \<noteq> None"
    using assms(2,4) t by (auto simp: dev_ok_def not_less split: option.splits)
  then obtain div16 pm where p: "espi_clock brg (if hz = 0 then kspeed spi else hz) = Some (div16, pm)"
    by fastforce
  obtain regval h1 where m: "reg_rd hw R_mode h = (regval, h1)" by fastforce
  have "dev h1 = dev h" "fifo h1 = fifo h" using c(3,4) [of R_mode _ h] m by simp_all
  moreover have "\<not> MAX_CS_NUM \<le> unat (kcs spi)" using assms(2) by (simp add: dev_ok_def)
  moreover obtain v where "cs = Some v" using assms(3) by blast
  ultimately show ?thesis
    using k(1,2) by (simp add: fsl_espi_setup_transfer_def t p m Let_def c)
qed

lemma bitbang_xfers_words:
  assumes c: "espi_irq_contract hw dev fifo xchg" and d: "dev_ok brg spi"
  shows "fifo h = None \<Longrightarrow> cs \<noteq> None \<Longrightarrow> list_all (xfer_ok brg spi fuel) ts \<Longrightarrow>
    case msg_words xchg ts mem (dev h) of
      None \<Rightarrow> bitbang_xfers hw spins fuel brg spi ts mem cs act ds h = Fault
    | Some (m, d) \<Rightarrow> \<exists>cs' h'. bitbang_xfers hw spins fuel brg spi ts mem cs act ds h =
          Done (0, act + (\<Sum>t\<leftarrow>ts. sint (k_len t)), m, cs', ds \<or> ts \<noteq> [], h') \<and>
        cs' \<noteq> None \<and> dev h' = d \<and> fifo h' = None"
proof (induction ts arbitrary: mem cs act ds h)
  case (Cons t ts)
  have t: "xfer_ok brg spi fuel t" "list_all (xfer_ok brg spi fuel) ts" using Cons.prems(3) by simp_all
  have kb: "kbits spi \<noteq> 0" using d by (auto simp: dev_ok_def)
  obtain cs1 h1 where s: "fsl_espi_setup_transfer hw brg spi (Some (k_bits t, k_speed t)) cs h =
      Some (0, cs1, h1)" "cs1 \<noteq> None" "dev h1 = dev h" "fifo h1 = None"
    using setup_transfer_keeps [OF irq_contractD(1) [OF c] d Cons.prems(2),
        of "Some (k_bits t, k_speed t)" h] t(1) Cons.prems(1)
    by (auto simp: xfer_ok_def)
  show ?case
  proof (cases "k_len t = 0")
    case True
    then show ?thesis
      using Cons.IH [OF s(4,2) t(2), of mem act True] s(1,3) kb
      by (auto simp: split: option.splits prod.splits)
  next
    case False
    then have l: "0 < sint (k_len t)" using t(1)
      by (metis xfer_ok_def order_le_less signed_eq_0_iff)
    have g: "\<not> (k_tx t = None \<and> k_rx t = None)" "1000 * nwords (sint (k_len t)) \<le> fuel"
      using False t(1) by (auto simp: xfer_ok_def)
    note e = bufs_exchange [OF c s(4) l g(2), where mem = mem and spins = spins and spi = spi]
    let ?x = "xfer_words xchg (nwords (sint (k_len t))) (map_option unat (k_tx t))
      (map_option unat (k_rx t)) mem (dev h)"
    show ?thesis
    proof (cases ?x)
      case None
      then show ?thesis using e g(1) False s kb by simp
    next
      case (Some md)
      obtain m d1 where md: "md = (m, d1)" by fastforce
      obtain h2 where h2: "fsl_espi_bufs hw spins fuel spi t mem h1 = Done (sint (k_len t), m, h2)"
          "dev h2 = d1" "fifo h2 = None"
        using e Some md s(3) by auto
      show ?thesis
        using Cons.IH [OF h2(3) s(2) t(2), of m "act + sint (k_len t)" True] Some md h2(1,2) s(1) g(1)
          kb False l
        by (simp add: Let_def add.assoc split: option.splits prod.splits)
    qed
  qed
qed simp

lemma bitbang_message_words:
  assumes "espi_irq_contract hw dev fifo xchg" "fifo h = None"
    and "dev_ok brg spi" "cs \<noteq> None" "list_all (xfer_ok brg spi fuel) ts"
  shows "case msg_words xchg ts mem (dev h) of
      None \<Rightarrow> bitbang_message hw spins fuel brg spi ts mem cs h = Fault
    | Some (m, d) \<Rightarrow> \<exists>cs' h'. bitbang_message hw spins fuel brg spi ts mem cs h =
          Done (0, \<Sum>t\<leftarrow>ts. sint (k_len t), m, cs', h') \<and> cs' \<noteq> None \<and> dev h' = d \<and> fifo h' = None"
proof -
  note x = bitbang_xfers_words [OF assms(1,3,2,4,5), where mem = mem and spins = spins and act = 0
      and ds = False]
  show ?thesis
  proof (cases "msg_words xchg ts mem (dev h)")
    case None
    then show ?thesis using x by (simp add: bitbang_message_def)
  next
    case (Some md)
    obtain m d where md: "md = (m, d)" by fastforce
    obtain cs1 h1 where h1: "bitbang_xfers hw spins fuel brg spi ts mem cs 0 False h =
        Done (0, \<Sum>t\<leftarrow>ts. sint (k_len t), m, cs1, ts \<noteq> [], h1)" "cs1 \<noteq> None" "dev h1 = d" "fifo h1 = None"
      using x Some md by auto
    obtain cs2 h2 where "fsl_espi_setup_transfer hw brg spi None cs1 h1 = Some (0, cs2, h2)"
        "cs2 \<noteq> None" "dev h2 = d" "fifo h2 = None"
      using setup_transfer_keeps [OF irq_contractD(1) [OF assms(1)] assms(3) h1(2), of None h1] h1(3,4)
      by auto
    then show ?thesis using Some md h1 by (cases "ts = []") (simp_all add: bitbang_message_def)
  qed
qed

text \<open>
  C6. The message queue over the interrupt driver implements the word-by-word specification: for a
  device and transfers the driver accepts, on a working controller, a message ends with status 0,
  the sum of its lengths as the number of bytes moved, and the buffer and the slave exactly as
  \<open>msg_words\<close> says; when a transfer's words leave the buffer, so does the driver.
\<close>

theorem bitbang_message_refines:
  assumes "espi_irq_contract hw dev fifo xchg" "fifo h = None"
    and "dev_ok brg spi" "cs \<noteq> None" "list_all (xfer_ok brg spi fuel) ts"
  shows "case msg_words xchg ts mem (dev h) of
      None \<Rightarrow> bitbang_message hw spins fuel brg spi ts mem cs h = Fault
    | Some (m, d) \<Rightarrow> \<exists>cs' h'. bitbang_message hw spins fuel brg spi ts mem cs h =
          Done (0, \<Sum>t\<leftarrow>ts. sint (k_len t), m, cs', h') \<and> cs' \<noteq> None \<and> dev h' = d \<and> fifo h' = None"
  by (rule bitbang_message_words [OF assms])

theorem bitbang_message_refines_witness:
  "\<exists>cs' h'. bitbang_message (demo_espi (\<lambda>w d. (w + 1, d + 1))) 5 2000 198000000
      \<lparr>kcs = 1, kmode = 3, kbits = 8, kspeed = 4000000\<rparr>
      [\<lparr>k_len = 4, k_tx = Some 0, k_rx = Some 0, k_cs_change = False, k_bits = 0, k_delay = 0, k_speed = 0\<rparr>]
      [0, 0, 0, 5] (Some 0) (0 :: nat, None) =
    Done (0, 4, [0, 0, 0, 6], cs', h')"
proof -
  let ?x = "\<lambda>w :: u32. \<lambda>d :: nat. (w + 1, d + 1)"
  let ?spi = "\<lparr>kcs = 1, kmode = 3, kbits = 8, kspeed = 4000000\<rparr>"
  let ?t = "\<lparr>k_len = 4, k_tx = Some 0, k_rx = Some 0, k_cs_change = False, k_bits = 0, k_delay = 0,
    k_speed = 0\<rparr>"
  have "dev_ok 198000000 ?spi" "list_all (xfer_ok 198000000 ?spi 2000) [?t]"
    by (simp_all add: dev_ok_def xfer_ok_def espi_clock_def nwords_def MAX_CS_NUM_def)
  moreover have "msg_words ?x [?t] [0, 0, 0, 5] 0 = Some ([0, 0, 0, 6], 1)"
    by (simp add: nwords_def fetch_word_def put_word_def memread_at_def memcpy_at_def be32_at_def
        of_be32_def be32_def)
  ultimately show ?thesis
    using bitbang_message_refines [OF demo_espi_irq_contract, of "(0, None)" 198000000 ?spi "Some 0" 2000
        "[?t]" ?x, where mem = "[0, 0, 0, 5]" and spins = 5] by auto
qed

section \<open>Transfers in place\<close>

lemma xfer_words_in_place:
  "run_list xchg (words_at mem p n) d = (rs, d') \<Longrightarrow> p + 4 * n \<le> length mem \<Longrightarrow>
   xfer_words xchg n (Some p) (Some p) mem d =
     Some (take p mem @ concat (map be32 rs) @ drop (p + 4 * n) mem, d')"
proof (induction n arbitrary: p mem d rs)
  case 0
  then show ?case by (simp add: words_at_def)
next
  case (Suc n)
  obtain a d1 where x: "xchg (be32_at mem p) d = (a, d1)" by fastforce
  let ?m = "take p mem @ be32 a @ drop (p + 4) mem"
  have w: "words_at ?m (p + 4) n = words_at mem (p + 4) n"
    using Suc.prems(2) by (simp add: words_at_def be32_at_def nth_append)
  obtain rs' where rs: "rs = a # rs'" "run_list xchg (words_at ?m (p + 4) n) d1 = (rs', d')"
    using Suc.prems(1) x unfolding w by (auto simp: words_at_Suc split: prod.splits)
  have "fetch_word (Some p) mem = Some (be32_at mem p)" "put_word (Some p) a mem = Some ?m"
    using Suc.prems(2) by (simp_all add: fetch_word_def put_word_def memread_at_def memcpy_at_def be32_at_def)
  then have "xfer_words xchg (Suc n) (Some p) (Some p) mem d =
      xfer_words xchg n (Some (p + 4)) (Some (p + 4)) ?m d1"
    using x by (simp add: next_pos_def)
  also have "\<dots> = Some (take (p + 4) ?m @ concat (map be32 rs') @ drop (p + 4 + 4 * n) ?m, d')"
    by (rule Suc.IH [OF rs(2)]) (use Suc.prems(2) in simp)
  finally show ?case using Suc.prems(2) rs(1) by (simp add: algebra_simps)
qed

lemma next_pos_add: "next_pos (map_option (\<lambda>p. p + k) tx) = map_option (\<lambda>p. p + k) (next_pos tx)"
  by (cases tx) (simp_all add: next_pos_def)

lemma xfer_words_add:
  "xfer_words xchg (n + m) tx rx mem d =
     (case xfer_words xchg n tx rx mem d of
        None \<Rightarrow> None
      | Some (mem, d) \<Rightarrow> xfer_words xchg m (map_option (\<lambda>p. p + 4 * n) tx) (map_option (\<lambda>p. p + 4 * n) rx) mem d)"
proof (induction n arbitrary: tx rx mem d)
  case (Suc n)
  have "map_option (\<lambda>p. p + 4 * n) (next_pos t) = map_option (\<lambda>p. p + 4 * Suc n) t" for t
    by (cases t) (simp_all add: next_pos_def)
  then show ?case
    by (cases "fetch_word tx mem"; cases "xchg (the (fetch_word tx mem)) d";
        cases "put_word rx (fst (xchg (the (fetch_word tx mem)) d)) mem") (simp_all add: Suc.IH split: option.split)
qed (simp add: option.map_ident)

text \<open>The transfers of a message at consecutive places of the bounce buffer.\<close>

fun k_xfers :: "u32 \<Rightarrow> ioc_xfer list \<Rightarrow> k_xfer list" where
  "k_xfers tot [] = []"
| "k_xfers tot (x # xs) =
     \<lparr>k_len = x_len x, k_tx = (if x_tx_buf x = 0 then None else Some tot),
      k_rx = (if x_rx_buf x = 0 then None else Some tot), k_cs_change = (x_cs_change x \<noteq> 0),
      k_bits = x_bits_per_word x, k_delay = x_delay_usecs x, k_speed = x_speed_hz x\<rparr>
     # k_xfers (tot + x_len x) xs"

lemma sint_small:
  fixes w :: u32
  assumes "unat w \<le> bufsiz"
  shows "sint w = int (unat w)"
proof -
  have "int (unat w) \<le> 4096" using assms by (simp add: bufsiz_def del: of_nat_unat)
  then have "uint w \<le> 4096" by simp
  moreover have "- (2 ^ 31) \<le> uint w" by (rule order_trans [of _ 0]) simp_all
  ultimately show ?thesis by (simp add: sint_uint signed_take_bit_int_eq_self [of 31 "uint w"])
qed

lemma msg_words_in_place:
  "unat tot + lens xs \<le> bufsiz \<Longrightarrow>
   list_all (\<lambda>x. x_tx_buf x \<noteq> 0 \<and> x_rx_buf x \<noteq> 0 \<and> 4 dvd unat (x_len x)) xs \<Longrightarrow>
   msg_words xchg (k_xfers tot xs) mem d =
     xfer_words xchg (lens xs div 4) (Some (unat tot)) (Some (unat tot)) mem d"
proof (induction xs arbitrary: tot mem d)
  case (Cons x xs)
  obtain k where k: "unat (x_len x) = 4 * k" using Cons.prems(2) by auto
  have s: "sint (x_len x) = 4 * int k" "unat (tot + x_len x) = unat tot + 4 * k"
    using Cons.prems(1) k sint_small [of "x_len x"] unat_add_small [of tot "x_len x"]
    by (simp_all add: bufsiz_def)
  have d: "lens (x # xs) div 4 = k + lens xs div 4" using k by simp
  have r: "msg_words xchg (k_xfers (tot + x_len x) xs) m e =
      xfer_words xchg (lens xs div 4) (Some (unat tot + 4 * k)) (Some (unat tot + 4 * k)) m e" for m e
    using Cons.IH [of "tot + x_len x" m e] Cons.prems s(2) k by simp
  show ?case
  proof (cases "k = 0")
    case True
    then have "x_len x = 0" using k unat_eq_0 by auto
    then show ?thesis using r True by (simp add: d)
  next
    case False
    then have "nwords (sint (x_len x)) = k" "x_len x \<noteq> 0" using s(1) k by (auto simp: nwords_def)
    then show ?thesis using Cons.prems(2) r
      by (simp add: d xfer_words_add split: option.split del: lens_simps)
  qed
qed simp

section \<open>Messages from user space\<close>

text \<open>
  A message given to \<open>spi_async\<close> and handled by the queue; the driver's saved mode word is part of
  the state.
\<close>

definition espi_msg ::
  "'h spi_hw \<Rightarrow> nat \<Rightarrow> nat \<Rightarrow> u32 \<Rightarrow> spi_dev_k \<Rightarrow> k_xfer list \<Rightarrow> byte list \<Rightarrow> 'h \<times> u32 option
     \<Rightarrow> ((int \<times> int \<times> int \<times> byte list) \<times> 'h \<times> u32 option) kres" where
  "espi_msg hw spins fuel brg spi ts mem s =
     (case s of
        (h, cs) \<Rightarrow>
          if spi_async spi ts \<noteq> 0 then Done ((spi_async spi ts, 0, 0, mem), h, cs)
          else
            kbind (bitbang_message hw spins fuel brg spi ts mem cs h)
              (\<lambda>(status, actual, mem, cs, h). Done ((0, status, actual, mem), h, cs)))"

text \<open>A transfer in both directions whose user buffers are in range and whose data are \<open>bs\<close>.\<close>

definition reads :: "user_mem \<Rightarrow> ioc_xfer \<Rightarrow> byte list \<Rightarrow> bool" where
  "reads um x bs \<longleftrightarrow> x_tx_buf x \<noteq> 0 \<and> x_rx_buf x \<noteq> 0 \<and> access_ok (ucast (x_tx_buf x)) (x_len x) \<and>
     access_ok (ucast (x_rx_buf x)) (x_len x) \<and>
     copy_from_user um (ucast (x_tx_buf x)) (unat (x_len x)) = Some bs"

lemma readsD:
  assumes "reads um x bs"
  shows "x_tx_buf x \<noteq> 0" "x_rx_buf x \<noteq> 0" "access_ok (ucast (x_rx_buf x)) (x_len x)"
    and "copy_from_user_k um (ucast (x_tx_buf x)) (x_len x) = (0, bs)" "length bs = unat (x_len x)"
  using assms copy_from_user_k_readable [of "ucast (x_tx_buf x)" "x_len x" um bs] length_copy_from_user
  by (auto simp: reads_def)

lemma reads_lens: "list_all2 (reads um) xs bss \<Longrightarrow> length (concat bss) = lens xs"
  by (induction xs bss rule: list_all2_induct) (simp_all add: readsD(5))

lemma msg_build_exact:
  "list_all2 (reads um) xs bss \<Longrightarrow> unat tot + lens xs \<le> bufsiz \<Longrightarrow> length b = bufsiz \<Longrightarrow>
   msg_build um b tot xs =
     Some (Inr (take (unat tot) b @ concat bss @ drop (unat tot + lens xs) b, k_xfers tot xs,
                tot + of_nat (lens xs)))"
proof (induction xs bss arbitrary: tot b rule: list_all2_induct)
  case (Cons x xs bs bss)
  note r = readsD [OF Cons.hyps(1)]
  let ?b = "take (unat tot) b @ bs @ drop (unat tot + unat (x_len x)) b"
  have t: "unat (tot + x_len x) = unat tot + unat (x_len x)"
    using Cons.prems(1) by (intro unat_add_small) (simp add: bufsiz_def)
  have g: "\<not> of_nat bufsiz < tot + x_len x"
    using Cons.prems(1) t by (simp add: word_less_nat_alt bufsiz_def)
  have m: "memcpy_at b (unat tot) bs = Some ?b"
    using Cons.prems r(5) by (simp add: memcpy_at_def)
  have "msg_build um ?b (tot + x_len x) xs =
      Some (Inr (take (unat tot + unat (x_len x)) ?b @ concat bss @
        drop (unat tot + unat (x_len x) + lens xs) ?b, k_xfers (tot + x_len x) xs,
        tot + x_len x + of_nat (lens xs)))"
    using Cons.IH [of "tot + x_len x" ?b] Cons.prems t r(5) by simp
  then show ?case using Cons.prems r g m by (simp add: ac_simps)
qed simp

text \<open>
  The stack is ready: the character device's messages go to the queue over the controller, the
  device is bound and set up, memory is there, and the fuel covers 1000 interrupts for each word of
  the bounce buffer.
\<close>

definition stack_ready ::
  "('h \<times> u32 option) spi_env \<Rightarrow> 'h spi_hw \<Rightarrow> nat \<Rightarrow> nat \<Rightarrow> u32 \<Rightarrow> spidev_state \<Rightarrow> bool" where
  "stack_ready env hw spins fuel brg s \<longleftrightarrow>
     e_msg env = espi_msg hw spins fuel brg \<and> (\<forall>n. e_kcalloc env n) \<and> 1024000 \<le> fuel \<and>
     bound s \<and> dev_ok brg (spi_k s) \<and> kmode (spi_k s) AND SPI_3WIRE = 0"

definition settings_ok :: "u32 \<Rightarrow> spi_dev_k \<Rightarrow> ioc_xfer \<Rightarrow> bool" where
  "settings_ok brg spi x \<longleftrightarrow>
     (x_bits_per_word x = 0 \<or> 4 \<le> x_bits_per_word x \<and> x_bits_per_word x \<le> 16) \<and>
     espi_clock brg (if x_speed_hz x = 0 then kspeed spi else x_speed_hz x) \<noteq> None"

lemma xfer_ok_head:
  assumes "0 \<le> sint (x_len x)" "1000 * nwords (sint (x_len x)) \<le> fuel" "x_tx_buf x \<noteq> 0"
    "settings_ok brg spi x"
  shows "xfer_ok brg spi fuel (hd (k_xfers tot (x # xs)))"
  using assms by (simp add: xfer_ok_def settings_ok_def split: if_splits)

lemma k_xfers_ok:
  "list_all2 (reads um) xs bss \<Longrightarrow> list_all (settings_ok brg spi) xs \<Longrightarrow> lens xs \<le> bufsiz \<Longrightarrow>
   1024000 \<le> fuel \<Longrightarrow> list_all (xfer_ok brg spi fuel) (k_xfers tot xs)"
proof (induction xs bss arbitrary: tot rule: list_all2_induct)
  case (Cons x xs bs bss)
  have s: "sint (x_len x) = int (unat (x_len x))" "unat (x_len x) \<le> 4096"
    using Cons.prems(2) sint_small [of "x_len x"] by (simp_all add: bufsiz_def)
  then have "nwords (sint (x_len x)) \<le> 1024" by (auto simp: nwords_def simp del: of_nat_unat)
  then have "1000 * nwords (sint (x_len x)) \<le> fuel" "0 \<le> sint (x_len x)"
    using Cons.prems(3) s(1) by simp_all
  moreover have "list_all (xfer_ok brg spi fuel) (k_xfers (tot + x_len x) xs)"
    using Cons.IH Cons.prems by simp
  moreover have "settings_ok brg spi x" using Cons.prems(1) by simp
  ultimately show ?case
    using readsD(1) [OF Cons.hyps(1)] xfer_ok_head [of x fuel brg spi tot xs] by simp
qed simp

lemma sum_k_xfers:
  "lens xs \<le> bufsiz \<Longrightarrow> (\<Sum>t\<leftarrow>k_xfers tot xs. sint (k_len t)) = int (lens xs)"
proof (induction xs arbitrary: tot)
  case (Cons x xs)
  then show ?case using sint_small [of "x_len x"] by simp
qed simp

lemma spi_async_ok: "dev_ok brg spi \<Longrightarrow> kmode spi AND SPI_3WIRE = 0 \<Longrightarrow> spi_async spi ts = 0"
  by (auto simp: spi_async_def spi_bitbang_transfer_def dev_ok_def espi_clock_def)

lemma stack_ready_ok:
  assumes "stack_ready env hw spins fuel brg s" "list_all (settings_ok brg (spi_k s)) xs"
    "lens xs \<le> bufsiz" "list_all2 (reads um) xs bss"
  shows "list_all (xfer_ok brg (spi_k s) fuel) (k_xfers 0 xs)" "dev_ok brg (spi_k s)"
  using k_xfers_ok [OF assms(4,2,3)] assms(1) unfolding stack_ready_def by blast+

lemma spidev_message_queue:
  assumes r: "stack_ready env hw spins fuel brg s" "list_all (settings_ok brg (spi_k s)) xs"
    and b: "sbuffer s = Some b" "length b = bufsiz" "lens xs \<le> bufsiz" "list_all2 (reads um) xs bss"
  shows "spidev_message env um xs s (h, cs) =
      kbind (bitbang_message hw spins fuel brg (spi_k s) (k_xfers 0 xs) (concat bss @ drop (lens xs) b) cs h)
        (\<lambda>(mstatus, actual, m, cs, h).
           let status = (if mstatus = 0 then actual else mstatus); m = fit bufsiz m
           in if status < 0 then Done (status, s\<lparr>sbuffer := Some m\<rparr>, um, h, cs)
              else
                (case msg_copyout um m 0 xs of
                   None \<Rightarrow> Fault
                 | Some (ok, um) \<Rightarrow>
                     Done (if ok then int (lens xs) else - EFAULT, s\<lparr>sbuffer := Some m\<rparr>, um, h, cs)))"
proof -
  note rd = r(1) [unfolded stack_ready_def]
  have "msg_build um b 0 xs =
      Some (Inr (concat bss @ drop (lens xs) b, k_xfers 0 xs, of_nat (lens xs)))"
    using msg_build_exact [OF b(4), of 0 b] b(2,3) by simp
  moreover have "uint (of_nat (lens xs) :: u32) = int (lens xs)"
    using b(3) by (simp add: bufsiz_def uint_nat unat_of_nat)
  moreover have "length (concat bss @ drop (lens xs) b) = bufsiz"
    using reads_lens [OF b(4)] b(2,3) by simp
  ultimately show ?thesis
    using rd b(1) spi_async_ok [of brg "spi_k s"]
    by (cases "bitbang_message hw spins fuel brg (spi_k s) (k_xfers 0 xs) (concat bss @ drop (lens xs) b) cs h")
      (auto simp: spidev_message_def spidev_sync_def espi_msg_def Let_def split: option.split)
qed

lemma spidev_message_runs:
  assumes c: "espi_irq_contract hw dev fifo xchg" "fifo h = None" "cs \<noteq> None"
    and r: "stack_ready env hw spins fuel brg s" "list_all (settings_ok brg (spi_k s)) xs"
    and b: "sbuffer s = Some b" "length b = bufsiz" "lens xs \<le> bufsiz" "list_all2 (reads um) xs bss"
    and m: "msg_words xchg (k_xfers 0 xs) (concat bss @ drop (lens xs) b) (dev h) = Some (m, d)"
      "length m = bufsiz"
  shows "\<exists>ok um' h' cs'. spidev_message env um xs s (h, cs) =
        Done (if ok then int (lens xs) else - EFAULT, s\<lparr>sbuffer := Some m\<rparr>, um', h', cs') \<and>
      msg_copyout um m 0 xs = Some (ok, um') \<and> dev h' = d"
proof -
  note q = spidev_message_queue [OF r b] and k = stack_ready_ok [OF r b(3,4)]
  obtain cs' h' where "bitbang_message hw spins fuel brg (spi_k s) (k_xfers 0 xs)
      (concat bss @ drop (lens xs) b) cs h = Done (0, int (lens xs), m, cs', h')" "dev h' = d"
    using bitbang_message_words [OF c(1,2) k(2) c(3) k(1), where spins = spins
        and mem = "concat bss @ drop (lens xs) b"] m(1) sum_k_xfers [OF b(3)] by auto
  moreover obtain ok um' where "msg_copyout um m 0 xs = Some (ok, um')"
    using msg_copyout_safe [of 0 xs m um] m(2) b(3) by (auto simp: bufsiz_def)
  ultimately show ?thesis using q m(2) by (simp add: fit_id)
qed

text \<open>The stack over the example controller, for the examples below.\<close>

definition stack_env :: "(u32 \<Rightarrow> 'd \<Rightarrow> u32 \<times> 'd) \<Rightarrow> (('d \<times> (u32 \<times> nat) option) \<times> u32 option) spi_env" where
  "stack_env xchg =
     \<lparr>e_bus = (\<lambda>spi cs tx h. ((0, [], 0), h)), e_msg = espi_msg (demo_espi xchg) 5 1024000 198000000,
      e_mode_bits = 0x07, e_setup = (\<lambda>spi h. (0, h)), e_kmalloc = (\<lambda>n. True), e_kcalloc = (\<lambda>n. True),
      e_stack = ([], [])\<rparr>"

definition demo_xfer :: "u32 \<Rightarrow> ioc_xfer" where
  "demo_xfer n = \<lparr>x_tx_buf = 0x1000, x_rx_buf = 0x3000, x_len = n, x_speed_hz = 0, x_delay_usecs = 0,
     x_bits_per_word = 0, x_cs_change = 0\<rparr>"

lemma demo_clock: "espi_clock 198000000 6500000 \<noteq> None"
  by (simp add: espi_clock_def)

lemma stack_demo:
  "stack_ready (stack_env xchg) (demo_espi xchg) 5 1024000 198000000 spidev_demo"
  "settings_ok 198000000 (spi_k spidev_demo) (demo_xfer n)" "x_len (demo_xfer n) = n"
  using demo_clock
  by (simp_all add: stack_ready_def stack_env_def spidev_demo_sel dev_ok_def MAX_CS_NUM_def SPI_3WIRE_def
      settings_ok_def demo_xfer_def)

lemma reads_demo:
  assumes "unat n \<le> 4096"
  shows "reads (full_mem f) (demo_xfer n) (map (\<lambda>i. f (0x1000 + of_nat i)) [0..<unat n])"
  using assms by (simp add: reads_def demo_xfer_def access_ok_unat copy_from_full_mem TASK_SIZE_def)

lemma words_at_prefix: "4 * n \<le> length bs \<Longrightarrow> words_at (bs @ cs) 0 n = words_at bs 0 n"
  by (simp add: words_at_def be32_at_def nth_append)

text \<open>
  C5. From the system call to the wire: a message of transfers in both directions whose lengths are
  multiples of four and fit the bounce buffer shows the slave exactly the words of the callers'
  buffers, in order and one transfer after the other; the slave's answers are what is copied back
  to the receive buffers, and the call returns the sum of the lengths, or \<open>EFAULT\<close> when a receive
  buffer cannot be written.
\<close>

theorem spidev_message_exchange:
  assumes "espi_irq_contract hw dev fifo xchg" "fifo h = None" "cs \<noteq> None"
    and "stack_ready env hw spins fuel brg s" "list_all (settings_ok brg (spi_k s)) xs"
    and "sbuffer s = Some b" "length b = bufsiz" "lens xs \<le> bufsiz" "list_all2 (reads um) xs bss"
    and "list_all (\<lambda>x. 4 dvd unat (x_len x)) xs"
    and "run_list xchg (words_at (concat bss) 0 (lens xs div 4)) (dev h) = (rs, d)"
  shows "\<exists>ok um' h' cs'. spidev_message env um xs s (h, cs) =
        Done (if ok then int (lens xs) else - EFAULT,
          s\<lparr>sbuffer := Some (concat (map be32 rs) @ drop (lens xs) b)\<rparr>, um', h', cs') \<and>
      msg_copyout um (concat (map be32 rs) @ drop (lens xs) b) 0 xs = Some (ok, um') \<and> dev h' = d"
proof (rule spidev_message_runs [OF assms(1-9)])
  have "4 dvd lens xs" using assms(10) by (induction xs) simp_all
  then have l: "4 * (lens xs div 4) = lens xs" by simp
  have e: "length (concat bss) = lens xs" by (rule reads_lens [OF assms(9)])
  have r: "run_list xchg (words_at (concat bss @ drop (lens xs) b) 0 (lens xs div 4)) (dev h) = (rs, d)"
    using assms(11) words_at_prefix [of "lens xs div 4" "concat bss"] l e by simp
  have "list_all (\<lambda>x. x_tx_buf x \<noteq> 0 \<and> x_rx_buf x \<noteq> 0) xs"
    using assms(9) by (induction xs bss rule: list_all2_induct) (auto simp: reads_def)
  then have "list_all (\<lambda>x. x_tx_buf x \<noteq> 0 \<and> x_rx_buf x \<noteq> 0 \<and> 4 dvd unat (x_len x)) xs"
    using assms(10) by (simp add: list_all_iff)
  then show "msg_words xchg (k_xfers 0 xs) (concat bss @ drop (lens xs) b) (dev h) =
      Some (concat (map be32 rs) @ drop (lens xs) b, d)"
    using msg_words_in_place [of 0 xs xchg] xfer_words_in_place [OF r] assms(7,8) l e by simp
  have "length rs = lens xs div 4"
    using length_run_list [of xchg "words_at (concat bss) 0 (lens xs div 4)" "dev h"] assms(11)
    by (simp add: words_at_def)
  then have "length (concat (map be32 rs)) = lens xs"
    using l by simp
  then show "length (concat (map be32 rs) @ drop (lens xs) b) = bufsiz" using assms(7,8) by simp
qed

theorem spidev_message_exchange_witness:
  "\<exists>ok um' h' cs'. spidev_message (stack_env (\<lambda>w d. (w + 1, d + 1))) (full_mem (\<lambda>a. 5)) [demo_xfer 4]
      spidev_demo ((0 :: nat, None), Some 0) =
    Done (if ok then 4 else - EFAULT, spidev_demo\<lparr>sbuffer := Some ([5, 5, 5, 6] @ replicate 4092 0)\<rparr>,
      um', h', cs') \<and> fst h' = 1"
proof -
  let ?x = "\<lambda>w :: u32. \<lambda>d :: nat. (w + 1, d + 1)"
  have r: "reads (full_mem (\<lambda>a. 5)) (demo_xfer 4) [5, 5, 5, 5]"
    using reads_demo [of 4 "\<lambda>a. 5"] by (simp add: upt_rec)
  have w: "words_at [5, 5, 5, 5] 0 1 = [0x05050505]"
    by (simp add: words_at_def be32_at_def of_be32_def)
  have b: "be32 0x05050506 = [5, 5, 5, 6]"
    using be32_of_be32 [of 5 5 5 6] by (simp add: of_be32_def)
  have l: "lens [demo_xfer 4] = 4" by (simp add: stack_demo(3))
  obtain ok um' h' cs' where "spidev_message (stack_env ?x) (full_mem (\<lambda>a. 5)) [demo_xfer 4] spidev_demo
        ((0, None), Some 0) =
      Done (if ok then int (lens [demo_xfer 4]) else - EFAULT,
        spidev_demo\<lparr>sbuffer := Some (concat (map be32 [0x05050506]) @ drop (lens [demo_xfer 4]) (replicate 4096 0))\<rparr>,
        um', h', cs')" "fst h' = 1"
    using spidev_message_exchange [OF demo_espi_irq_contract [of ?x] _ _ stack_demo(1), of "(0, None)" "Some 0"
        "[demo_xfer 4]" "replicate 4096 0" "full_mem (\<lambda>a. 5)" "[[5, 5, 5, 5]]" "[0x05050506]" 1]
      r w l stack_demo(2,3)
    by (auto simp: spidev_demo_sel(1-3) bufsiz_def simp del: lens_simps msg_copyout.simps)
  then show ?thesis by (auto simp: b l simp del: lens_simps)
qed

section \<open>Lengths that are not multiples of four\<close>

lemma length_xfer_words: "xfer_words xchg n tx rx mem d = Some (m, d') \<Longrightarrow> length m = length mem"
  by (induction n arbitrary: tx rx mem d)
     (auto simp: put_word_def dest: length_memcpy_at split: option.splits prod.splits)

lemma xfer_words_overrun: "length mem < p + 4 * n \<Longrightarrow> 0 < n \<Longrightarrow> xfer_words xchg n (Some p) rx mem d = None"
proof (induction n arbitrary: p rx mem d)
  case (Suc n)
  show ?case
  proof (cases "length mem < p + 4")
    case True
    then show ?thesis by (simp add: fetch_word_def memread_at_def)
  next
    case False
    then have "0 < n" using Suc.prems(1) by (cases n) simp_all
    then show ?thesis using Suc.IH [of _ "p + 4"] Suc.prems(1)
      by (auto simp: next_pos_def put_word_def dest: length_memcpy_at split: option.splits prod.splits)
  qed
qed simp

lemma msg_words_overrun:
  "unat tot + lens (us @ [y]) \<le> bufsiz \<Longrightarrow> x_tx_buf y \<noteq> 0 \<Longrightarrow> x_len y \<noteq> 0 \<Longrightarrow>
   length mem < unat tot + lens us + 4 * nwords (sint (x_len y)) \<Longrightarrow>
   msg_words xchg (k_xfers tot (us @ [y])) mem d = None"
proof (induction us arbitrary: tot mem d)
  case Nil
  then show ?case by (simp add: xfer_words_overrun nwords_pos)
next
  case (Cons x us)
  have t: "unat (tot + x_len x) = unat tot + unat (x_len x)"
    using Cons.prems(1) by (intro unat_add_small) (simp add: bufsiz_def)
  have "msg_words xchg (k_xfers (tot + x_len x) (us @ [y])) m e = None" if "length m = length mem" for m e
    using Cons.IH [of "tot + x_len x" m e] Cons.prems t that by simp
  then show ?case by (auto dest: length_xfer_words split: option.splits)
qed

text \<open>
  The driver moves whole words. When the last transfer of a message, at its place in the bounce
  buffer and with its length rounded up, ends after byte 4096, the driver leaves the buffer,
  although the message passed the size check of the call: for example 3 bytes followed by 4093.
\<close>

theorem spidev_message_overruns:
  assumes "espi_irq_contract hw dev fifo xchg" "fifo h = None" "cs \<noteq> None"
    and "stack_ready env hw spins fuel brg s" "list_all (settings_ok brg (spi_k s)) (us @ [y])"
    and "sbuffer s = Some b" "length b = bufsiz" "list_all2 (reads um) (us @ [y]) bss"
    and "lens (us @ [y]) \<le> bufsiz" "bufsiz < lens us + 4 * nwords (int (unat (x_len y)))" "x_len y \<noteq> 0"
  shows "spidev_message env um (us @ [y]) s (h, cs) = Fault"
proof -
  note q = spidev_message_queue [OF assms(4-7,9,8)] and k = stack_ready_ok [OF assms(4,5,9,8)]
  have y: "x_tx_buf y \<noteq> 0" using assms(8) by (auto simp: list_all2_append1 list_all2_Cons1 reads_def)
  have "lens (us @ [y]) = lens us + unat (x_len y)" by (simp add: lens_def)
  then have "sint (x_len y) = int (unat (x_len y))" using assms(9) sint_small by simp
  then have "msg_words xchg (k_xfers 0 (us @ [y])) (concat bss @ drop (lens (us @ [y])) b) (dev h) = None"
    using msg_words_overrun [of 0 us y "concat bss @ drop (lens (us @ [y])) b" xchg "dev h"] y
      assms(7,9-11) reads_lens [OF assms(8)] by simp
  then have "bitbang_message hw spins fuel brg (spi_k s) (k_xfers 0 (us @ [y]))
      (concat bss @ drop (lens (us @ [y])) b) cs h = Fault"
    using bitbang_message_words [OF assms(1,2) k(2) assms(3) k(1), where spins = spins
        and mem = "concat bss @ drop (lens (us @ [y])) b"] by simp
  then show ?thesis using q by simp
qed

theorem spidev_message_overruns_witness:
  "spidev_message (stack_env (\<lambda>w d. (w + 1, d + 1))) (full_mem (\<lambda>a. 5)) ([demo_xfer 3] @ [demo_xfer 4093])
     spidev_demo ((0 :: nat, None), Some 0) = Fault"
proof -
  have "reads (full_mem (\<lambda>a. 5)) (demo_xfer 3) (map (\<lambda>i. 5) [0..<3])"
      "reads (full_mem (\<lambda>a. 5)) (demo_xfer 4093) (map (\<lambda>i. 5) [0..<4093])"
    using reads_demo [of 3 "\<lambda>a. 5"] reads_demo [of 4093 "\<lambda>a. 5"] by simp_all
  then show ?thesis
    by (intro spidev_message_overruns [OF demo_espi_irq_contract _ _ stack_demo(1),
          where b = "replicate 4096 0" and bss = "[map (\<lambda>i. 5) [0..<3], map (\<lambda>i. 5) [0..<4093]]"])
      (simp_all add: spidev_demo_sel(1-3) bufsiz_def stack_demo nwords_def del: map_replicate_const)
qed

text \<open>
  C37. Two transfers of three bytes in one message disturb each other: the first one already sends
  the first byte of the second, and its answer overwrites that byte in the bounce buffer, so that
  the slave gets its own answer back as the first byte of the second transfer.
\<close>

theorem spidev_message_corrupts:
  assumes "espi_irq_contract hw dev fifo xchg" "fifo h = None" "cs \<noteq> None"
    and "stack_ready env hw spins fuel brg s" "list_all (settings_ok brg (spi_k s)) [x, y]"
    and "sbuffer s = Some b" "length b = bufsiz" "x_len x = 3" "x_len y = 3"
    and "reads um x [a1, a2, a3]" "reads um y [b1, b2, b3]"
    and "xchg (of_be32 a1 a2 a3 b1) (dev h) = (of_be32 r0 r1 r2 r3, d1)"
    and "xchg (of_be32 r3 b2 b3 (b ! 6)) d1 = (w, d2)"
  shows "\<exists>r s' um' h' cs'. spidev_message env um [x, y] s (h, cs) = Done (r, s', um', h', cs') \<and> dev h' = d2"
proof -
  let ?m = "[a1, a2, a3, b1, b2, b3] @ drop 6 b"
  let ?m1 = "[r0, r1, r2, r3, b2, b3] @ drop 6 b" and ?m2 = "[r0, r1, r2] @ be32 w @ drop 7 b"
  have l: "lens [x, y] = 6" "lens [x, y] \<le> bufsiz" using assms(8,9) by (simp_all add: bufsiz_def)
  have b6: "drop 6 b = b ! 6 # drop 7 b" using assms(7) Cons_nth_drop_Suc [of 6 b] by (simp add: bufsiz_def)
  have nz: "x_tx_buf x \<noteq> 0" "x_rx_buf x \<noteq> 0" "x_tx_buf y \<noteq> 0" "x_rx_buf y \<noteq> 0"
    using assms(10,11) by (simp_all add: reads_def)
  have "xfer_words xchg 1 (Some 0) (Some 0) ?m (dev h) = Some (?m1, d1)"
    using assms(12) by (simp add: fetch_word_def put_word_def memread_at_def memcpy_at_def be32_at_def
        be32_of_be32)
  moreover have "xfer_words xchg 1 (Some 3) (Some 3) ?m1 d1 = Some (?m2, d2)"
    using assms(13) by (simp add: b6 fetch_word_def put_word_def memread_at_def memcpy_at_def be32_at_def)
  moreover have "nwords (sint (3 :: u32)) = 1" by (simp add: nwords_def)
  ultimately have "msg_words xchg (k_xfers 0 [x, y]) (concat [[a1, a2, a3], [b1, b2, b3]] @ drop (lens [x, y]) b)
      (dev h) = Some (?m2, d2)"
    using assms(8,9) nz l(1) by simp
  moreover have "list_all2 (reads um) [x, y] [[a1, a2, a3], [b1, b2, b3]]" using assms(10,11) by simp
  moreover have "length ?m2 = bufsiz" using assms(7) by (simp add: bufsiz_def)
  ultimately show ?thesis
    using spidev_message_runs [OF assms(1-7) l(2), where bss = "[[a1, a2, a3], [b1, b2, b3]]"] by blast
qed

theorem spidev_message_corrupts_witness:
  "\<exists>r s' um' h' cs'. spidev_message (stack_env (\<lambda>w d. (0x01020304, w # d))) (full_mem (\<lambda>a. 9))
      [demo_xfer 3, demo_xfer 3] spidev_demo (([], None), Some 0) = Done (r, s', um', h', cs') \<and>
    fst h' = [0x04090900, 0x09090909]"
proof -
  let ?x = "\<lambda>w :: u32. \<lambda>d. (0x01020304 :: u32, w # d)"
  have r: "reads (full_mem (\<lambda>a. 9)) (demo_xfer 3) [9, 9, 9]"
    using reads_demo [of 3 "\<lambda>a. 9"] by (simp add: upt_rec)
  have w: "of_be32 9 9 9 9 = 0x09090909" "of_be32 4 9 9 0 = 0x04090900" "of_be32 1 2 3 4 = 0x01020304"
    by (simp_all add: of_be32_def)
  show ?thesis
    by (rule spidev_message_corrupts [OF demo_espi_irq_contract [of ?x] _ _ stack_demo(1) _ _ _ _ _ r r,
          where b = "replicate 4096 0" and ?r0.0 = 1 and ?r1.0 = 2 and ?r2.0 = 3 and ?r3.0 = 4])
      (simp_all add: spidev_demo_sel(1-3) bufsiz_def stack_demo w)
qed

end
