(* ===== verification/Fsl_Espi_Probe.thy ===== *)
theory Fsl_Espi_Probe
  imports Fsl_Espi
begin

text \<open>
  The life of the kernel's eSPI driver: \<open>fsl_espi_probe\<close> and \<open>fsl_espi_remove\<close> of
  \<open>drivers/spi/fsl_espi.c\<close>, with the queue they start and stop (\<open>drivers/spi/spi_bitbang.c\<close>) and the
  reference-counted master object (\<open>drivers/spi/spi.c\<close>). What the platform answers to a probe is a
  record of results; using the master after it was freed is \<open>None\<close>.
\<close>

section \<open>The master object\<close>

record spi_master =
  m_refs :: nat
  m_alive :: bool
  m_bus_num :: int
  m_num_cs :: u32
  m_mode_bits :: byte
  m_wq :: bool
  m_added :: bool

definition spi_alloc_master :: spi_master where
  "spi_alloc_master =
     \<lparr>m_refs = 1, m_alive = True, m_bus_num = 0, m_num_cs = 0, m_mode_bits = 0, m_wq = False,
      m_added = False\<rparr>"

definition spi_master_get :: "spi_master \<Rightarrow> spi_master" where
  "spi_master_get m = m\<lparr>m_refs := m_refs m + 1\<rparr>"

definition spi_master_put :: "spi_master \<Rightarrow> spi_master option" where
  "spi_master_put m =
     (if \<not> m_alive m \<or> m_refs m = 0 then None
      else Some (m\<lparr>m_refs := m_refs m - 1, m_alive := (m_refs m \<noteq> 1)\<rparr>))"

definition kfree_master :: "spi_master \<Rightarrow> spi_master option" where
  "kfree_master m = (if m_alive m then Some (m\<lparr>m_alive := False\<rparr>) else None)"

text \<open>\<open>added\<close> is the result of \<open>device_add\<close>, \<open>dyn\<close> the counter of dynamic bus numbers.\<close>

definition spi_register_master :: "int \<Rightarrow> spi_master \<Rightarrow> int \<Rightarrow> int \<times> spi_master \<times> int" where
  "spi_register_master added m dyn =
     (if m_num_cs m = 0 then (- EINVAL, m, dyn)
      else
        (let (m, dyn) = (if m_bus_num m < 0 then (m\<lparr>m_bus_num := dyn - 1\<rparr>, dyn - 1) else (m, dyn))
         in if added < 0 then (added, m, dyn) else (0, m\<lparr>m_added := True\<rparr>, dyn)))"

definition spi_unregister_master :: "spi_master \<Rightarrow> spi_master option" where
  "spi_unregister_master m = (if m_added m then spi_master_put (m\<lparr>m_added := False\<rparr>) else None)"

definition spi_bitbang_start :: "bool \<Rightarrow> int \<Rightarrow> spi_master \<Rightarrow> int \<Rightarrow> int \<times> spi_master \<times> int" where
  "spi_bitbang_start wq added m dyn =
     (let m = (if m_mode_bits m = 0 then m\<lparr>m_mode_bits := 0x02 OR 0x01\<rparr> else m)
      in if \<not> wq then (- EBUSY, m, dyn)
         else
           (case spi_register_master added (m\<lparr>m_wq := True\<rparr>) dyn of
              (status, m, dyn) \<Rightarrow>
                if status < 0 then (status, m\<lparr>m_wq := False\<rparr>, dyn) else (status, m, dyn)))"

definition spi_bitbang_stop :: "spi_master \<Rightarrow> spi_master option" where
  "spi_bitbang_stop m = do {
     m \<leftarrow> spi_unregister_master m;
     if m_alive m \<and> m_wq m then Some (m\<lparr>m_wq := False\<rparr>) else None
   }"

section \<open>Board start-up\<close>

record 'h board_io =
  gpio_request :: "nat \<Rightarrow> 'h \<Rightarrow> int \<times> 'h"
  gpio_direction_output :: "nat \<Rightarrow> bool \<Rightarrow> 'h \<Rightarrow> int \<times> 'h"
  clrbits32 :: "u32 \<Rightarrow> u32 \<Rightarrow> 'h \<Rightarrow> 'h"
  register_children :: "'h \<Rightarrow> 'h"

definition mpc8xxx_gpio2mask :: "nat \<Rightarrow> u32" where
  "mpc8xxx_gpio2mask gpio = push_bit (32 - 1 - gpio) 1"

text \<open>The clears of the two reset bits; addresses are relative to the internal registers.\<close>

definition reset_system :: "'h board_io \<Rightarrow> 'h \<Rightarrow> 'h" where
  "reset_system io h =
     (let h = clrbits32 io (0xf000 + 8) 0x10000000 h in clrbits32 io 0xf000 0x40000000 h)"

text \<open>The first part of the probe; errors are only printed.\<close>

definition probe_gpios :: "'h board_io \<Rightarrow> 'h \<Rightarrow> 'h" where
  "probe_gpios io h =
     (let h = snd (gpio_request io 12 h);
          h = snd (gpio_request io 6 h);
          h = snd (gpio_direction_output io 6 True h);
          h = clrbits32 io 0xe0060 (mpc8xxx_gpio2mask 1) h;
          h = snd (gpio_request io 8 h)
      in snd (gpio_direction_output io 8 False h))"

section \<open>Probe and remove\<close>

text \<open>What a probe is answered; the number of chip selects is absent when the property is.\<close>

record probe_in =
  p_alloc :: bool
  p_mem :: int
  p_irq :: int
  p_region :: bool
  p_map :: bool
  p_request_irq :: int
  p_num_ss :: "u32 option"
  p_wq :: bool
  p_added :: int

text \<open>The driver's resources: the pointer kept for the device, the object behind it, and the rest.\<close>

record espi_res =
  r_drvdata :: bool
  r_master :: "spi_master option"
  r_region :: bool
  r_mapped :: bool
  r_irq :: bool
  r_dyn :: int

definition with_master :: "(spi_master \<Rightarrow> spi_master option) \<Rightarrow> espi_res \<Rightarrow> espi_res option" where
  "with_master f b = do { m \<leftarrow> r_master b; m \<leftarrow> f m; Some (b\<lparr>r_master := Some m\<rparr>) }"

text \<open>The exits of the probe, from the last to the first.\<close>

definition free_master :: "espi_res \<Rightarrow> espi_res option" where
  "free_master b = with_master kfree_master b"

definition put_master :: "espi_res \<Rightarrow> espi_res option" where
  "put_master b = do { b \<leftarrow> with_master spi_master_put b; free_master b }"

definition unmap_io :: "espi_res \<Rightarrow> espi_res option" where
  "unmap_io b = put_master (b\<lparr>r_mapped := False\<rparr>)"

definition free_irq :: "espi_res \<Rightarrow> espi_res option" where
  "free_irq b = unmap_io (b\<lparr>r_irq := False\<rparr>)"

definition fail :: "int \<Rightarrow> espi_res option \<Rightarrow> 'h \<Rightarrow> (int \<times> espi_res \<times> 'h) option" where
  "fail ret b h = map_option (\<lambda>b. (ret, b, h)) b"

definition fsl_espi_probe ::
  "'h spi_hw \<Rightarrow> 'h board_io \<Rightarrow> probe_in \<Rightarrow> espi_res \<Rightarrow> 'h \<Rightarrow> (int \<times> espi_res \<times> 'h) option" where
  "fsl_espi_probe hw io p b h =
     (let h = probe_gpios io h
      in if \<not> p_alloc p then Some (- ENOMEM, b, h)
         else
           (let m = spi_alloc_master; b = b\<lparr>r_master := Some m, r_drvdata := True\<rparr>
            in if p_mem p \<noteq> 0 then fail (p_mem p) (free_master b) h
               else if p_irq p = 0 then fail (p_irq p) (free_master b) h
               else
                 (let m = spi_master_get (m\<lparr>m_mode_bits := 0x02 OR 0x01 OR SPI_CS_HIGH\<rparr>);
                      b = b\<lparr>r_master := Some m\<rparr>
                  in if r_region b \<or> \<not> p_region p then fail (- ENXIO) (free_master b) h
                     else
                       (let b = b\<lparr>r_region := True\<rparr>
                        in if \<not> p_map p then fail (- ENOMEM) (put_master b) h
                           else
                             (let b = b\<lparr>r_mapped := True\<rparr>
                              in if p_irq p < 0 then fail (- ENXIO) (unmap_io b) h
                                 else if p_request_irq p \<noteq> 0 then fail (p_request_irq p) (unmap_io b) h
                                 else
                                   (let b = b\<lparr>r_irq := True\<rparr>; m = m\<lparr>m_bus_num := - 1\<rparr>
                                    in case p_num_ss p of
                                         None \<Rightarrow> fail (p_request_irq p) (free_irq (b\<lparr>r_master := Some m\<rparr>)) h
                                       | Some n \<Rightarrow>
                                           (let h = fsl_espi_init_regs hw h;
                                                (ret, m, dyn) = spi_bitbang_start (p_wq p) (p_added p)
                                                  (m\<lparr>m_num_cs := n\<rparr>) (r_dyn b);
                                                b = b\<lparr>r_master := Some m, r_dyn := dyn\<rparr>
                                            in if ret \<noteq> 0 then fail ret (free_irq b) h
                                               else Some (ret, b, register_children io h))))))))"

text \<open>\<open>mem\<close> is the result of \<open>of_address_to_resource\<close>.\<close>

definition fsl_espi_remove :: "int \<Rightarrow> espi_res \<Rightarrow> (int \<times> espi_res) option" where
  "fsl_espi_remove mem b =
     (if \<not> r_drvdata b then None
      else do {
        b \<leftarrow> with_master (\<lambda>m. if m_alive m then spi_bitbang_stop m else None) b;
        let b = b\<lparr>r_irq := False, r_mapped := False\<rparr>;
        let b = (if mem = 0 then b\<lparr>r_region := False\<rparr> else b);
        let b = b\<lparr>r_drvdata := False\<rparr>;
        b \<leftarrow> with_master spi_master_put b;
        Some (0, b)
      })"

end
