(* ===== verification/Fsl_Espi_Life.thy ===== *)
theory Fsl_Espi_Life
  imports Fsl_Espi_Probe
begin

text \<open>
  Binding and unbinding the eSPI driver: when its resources are safe, and what goes wrong when the
  device tree lacks a property or a probe fails half-way.
\<close>

section \<open>Sequences of binding and unbinding\<close>

text \<open>
  The driver core calls the probe of an unbound device, which is bound when the result is 0, and the
  remove function of a bound one.
\<close>

datatype bind_op = Bind probe_in | Unbind int

fun drv_step ::
  "'h spi_hw \<Rightarrow> 'h board_io \<Rightarrow> bind_op \<Rightarrow> bool \<times> espi_res \<times> 'h \<Rightarrow> (bool \<times> espi_res \<times> 'h) option" where
  "drv_step hw io (Bind p) (bnd, b, h) =
     (if bnd then Some (bnd, b, h)
      else map_option (\<lambda>(ret, b, h). (ret = 0, b, h)) (fsl_espi_probe hw io p b h))"
| "drv_step hw io (Unbind mem) (bnd, b, h) =
     (if bnd then map_option (\<lambda>(ret, b). (False, b, h)) (fsl_espi_remove mem b)
      else Some (bnd, b, h))"

fun drv_run ::
  "'h spi_hw \<Rightarrow> 'h board_io \<Rightarrow> bind_op list \<Rightarrow> bool \<times> espi_res \<times> 'h \<Rightarrow> (bool \<times> espi_res \<times> 'h) option" where
  "drv_run hw io [] s = Some s"
| "drv_run hw io (op # ops) s =
     (case drv_step hw io op s of None \<Rightarrow> None | Some s \<Rightarrow> drv_run hw io ops s)"

definition no_res :: espi_res where
  "no_res = \<lparr>r_drvdata = False, r_master = None, r_region = False, r_mapped = False, r_irq = False,
     r_dyn = 32767\<rparr>"

text \<open>A bound driver holds everything; an unbound one nothing that can still be used.\<close>

definition res_inv :: "bool \<Rightarrow> espi_res \<Rightarrow> bool" where
  "res_inv bnd b \<longleftrightarrow>
     (case r_master b of
        None \<Rightarrow> \<not> bnd \<and> \<not> r_mapped b \<and> \<not> r_irq b
      | Some m \<Rightarrow>
          if bnd then r_drvdata b \<and> r_region b \<and> r_mapped b \<and> r_irq b \<and> m_alive m \<and> m_refs m = 2 \<and>
            m_added m \<and> m_wq m \<and> m_num_cs m \<noteq> 0
          else \<not> r_mapped b \<and> \<not> r_irq b \<and> \<not> m_alive m)"

fun op_ok :: "bind_op \<Rightarrow> bool" where
  "op_ok (Bind p) \<longleftrightarrow> p_irq p \<noteq> 0 \<and> p_num_ss p \<noteq> None"
| "op_ok (Unbind mem) \<longleftrightarrow> True"

lemmas exit_defs = fail_def free_irq_def unmap_io_def put_master_def free_master_def with_master_def
  kfree_master_def spi_master_put_def

text \<open>Whether the platform lets a probe get to its end.\<close>

definition probe_full :: "probe_in \<Rightarrow> bool" where
  "probe_full p \<longleftrightarrow> p_alloc p \<and> p_mem p = 0 \<and> 0 < p_irq p \<and> p_region p \<and> p_map p \<and> p_request_irq p = 0 \<and>
     (\<exists>n. p_num_ss p = Some n \<and> n \<noteq> 0) \<and> p_wq p \<and> 0 \<le> p_added p"

lemma bitbang_start_cases:
  "m_mode_bits m \<noteq> 0 \<Longrightarrow> \<exists>m' dyn'. spi_bitbang_start wq added m dyn =
     (if \<not> wq then - EBUSY else if m_num_cs m = 0 then - EINVAL else if added < 0 then added else 0, m', dyn') \<and>
     m_refs m' = m_refs m \<and> m_alive m' = m_alive m \<and> m_num_cs m' = m_num_cs m \<and>
     (wq \<and> m_num_cs m \<noteq> 0 \<and> 0 \<le> added \<longrightarrow> m_added m' \<and> m_wq m')"
  by (auto simp: spi_bitbang_start_def spi_register_master_def Let_def)

lemma probe_result:
  assumes "\<not> r_mapped b" "\<not> r_irq b" "p_irq p \<noteq> 0" "p_num_ss p \<noteq> None" "res_inv False b"
  shows "\<exists>ret b' h'. fsl_espi_probe hw io p b h = Some (ret, b', h') \<and>
    (ret = 0 \<longleftrightarrow> probe_full p \<and> \<not> r_region b) \<and> res_inv (ret = 0) b' \<and>
    (r_region b' \<longleftrightarrow> r_region b \<or> p_alloc p \<and> p_mem p = 0 \<and> p_region p)"
proof -
  obtain n where n: "p_num_ss p = Some n" using assms(4) by blast
  let ?m = "(spi_master_get (spi_alloc_master\<lparr>m_mode_bits := 0x02 OR 0x01 OR SPI_CS_HIGH\<rparr>))
    \<lparr>m_bus_num := - 1, m_num_cs := n\<rparr>"
  have "m_mode_bits ?m \<noteq> 0" by (simp add: spi_master_get_def SPI_CS_HIGH_def)
  then obtain m' dyn' where st: "spi_bitbang_start (p_wq p) (p_added p) ?m (r_dyn b) =
      (if \<not> p_wq p then - EBUSY else if m_num_cs ?m = 0 then - EINVAL
       else if p_added p < 0 then p_added p else 0, m', dyn')"
     "m_refs m' = m_refs ?m" "m_alive m' = m_alive ?m" "m_num_cs m' = m_num_cs ?m"
     "p_wq p \<and> m_num_cs ?m \<noteq> 0 \<and> 0 \<le> p_added p \<longrightarrow> m_added m' \<and> m_wq m'"
    using bitbang_start_cases [of ?m "p_wq p" "p_added p" "r_dyn b"] by blast
  have r: "m_refs ?m = 2" "m_alive ?m" "m_num_cs ?m = n" "m_refs spi_alloc_master = 1" "m_alive spi_alloc_master"
    by (simp_all add: spi_master_get_def spi_alloc_master_def)
  note d = fsl_espi_probe_def Let_def n exit_defs res_inv_def probe_full_def
  consider "\<not> p_alloc p" | "p_alloc p" "p_mem p \<noteq> 0" | "p_alloc p" "p_mem p = 0" "r_region b \<or> \<not> p_region p"
    | "p_alloc p" "p_mem p = 0" "\<not> r_region b" "p_region p" "\<not> p_map p"
    | "p_alloc p" "p_mem p = 0" "\<not> r_region b" "p_region p" "p_map p" "p_irq p < 0 \<or> p_request_irq p \<noteq> 0"
    | "p_alloc p" "p_mem p = 0" "\<not> r_region b" "p_region p" "p_map p" "0 < p_irq p" "p_request_irq p = 0"
    using assms(3) by linarith
  then show ?thesis
  proof cases
    case 1
    then show ?thesis using assms by (simp add: fsl_espi_probe_def probe_full_def Let_def res_inv_def split: option.splits)
  next
    case 6
    then show ?thesis using assms(1,2,3) st r by (auto simp: d)
  qed (use assms(1,2,3) r in \<open>auto simp: d\<close>)
qed

lemma remove_result:
  assumes "res_inv True b"
  shows "\<exists>b'. fsl_espi_remove mem b = Some (0, b') \<and> res_inv False b' \<and>
    (r_region b' \<longleftrightarrow> mem \<noteq> 0) \<and> \<not> r_drvdata b' \<and> map_option m_refs (r_master b') = Some 0"
proof -
  obtain m where "r_master b = Some m" "r_drvdata b" "m_alive m" "m_refs m = 2" "m_added m" "m_wq m"
      "r_region b"
    using assms by (auto simp: res_inv_def split: option.splits)
  then show ?thesis
    by (simp add: fsl_espi_remove_def with_master_def spi_bitbang_stop_def spi_unregister_master_def
        spi_master_put_def res_inv_def Let_def)
qed

lemma drv_step_inv:
  assumes "res_inv bnd b" "op_ok op"
  shows "\<exists>bnd' b' h'. drv_step hw io op (bnd, b, h) = Some (bnd', b', h') \<and> res_inv bnd' b'"
proof (cases op)
  case (Bind p)
  have u: "\<not> r_mapped b" "\<not> r_irq b" if "\<not> bnd"
    using assms(1) that by (simp_all add: res_inv_def split: option.splits)
  show ?thesis
    using probe_result [of b p hw io h] assms Bind u by (cases bnd) auto
next
  case (Unbind mem)
  then show ?thesis using remove_result [of b mem] assms(1) by (cases bnd) auto
qed

lemma drv_run_inv:
  "res_inv bnd b \<Longrightarrow> list_all op_ok ops \<Longrightarrow>
   \<exists>bnd' b' h'. drv_run hw io ops (bnd, b, h) = Some (bnd', b', h') \<and> res_inv bnd' b'"
proof (induction ops arbitrary: bnd b h)
  case (Cons op ops)
  obtain bnd1 b1 h1 where "drv_step hw io op (bnd, b, h) = Some (bnd1, b1, h1)" "res_inv bnd1 b1"
    using drv_step_inv [of bnd b op hw io h] Cons.prems by auto
  then show ?case using Cons.IH [of bnd1 b1 h1] Cons.prems(2) by simp
qed simp

lemma res_inv_no_res: "res_inv False no_res"
  by (simp add: res_inv_def no_res_def)


definition good_probe :: probe_in where
  "good_probe = \<lparr>p_alloc = True, p_mem = 0, p_irq = 59, p_region = True, p_map = True,
     p_request_irq = 0, p_num_ss = Some 4, p_wq = True, p_added = 0\<rparr>"

definition count_hw :: "nat spi_hw" where
  "count_hw = \<lparr>reg_rd = \<lambda>r h. (0, h), reg_wr = \<lambda>r v h. h + 1\<rparr>"

definition quiet_board :: "nat board_io" where
  "quiet_board = \<lparr>gpio_request = \<lambda>n h. (0, h), gpio_direction_output = \<lambda>n v h. (0, h),
     clrbits32 = \<lambda>a m h. h, register_children = \<lambda>h. h\<rparr>"


text \<open>
  C36. Without an interrupt or without the property for the number of chip selects in the device tree
  the probe frees its master but reports success, so the device counts as bound and the next
  removal uses the freed object.
\<close>

theorem espi_probe_false_success:
  assumes "p_alloc p" "p_mem p = 0"
    and "p_irq p = 0 \<or> 0 < p_irq p \<and> p_region p \<and> p_map p \<and> p_request_irq p = 0 \<and> p_num_ss p = None"
  shows "\<exists>b' h'. drv_run hw io [Bind p] (False, no_res, h) = Some (True, b', h') \<and>
    map_option m_alive (r_master b') = Some False \<and>
    drv_run hw io [Bind p, Unbind mem] (False, no_res, h) = None"
proof -
  obtain b' h' where b: "fsl_espi_probe hw io p no_res h = Some (0, b', h')"
      "map_option m_alive (r_master b') = Some False"
    using assms
    by (auto simp: fsl_espi_probe_def Let_def exit_defs no_res_def spi_alloc_master_def spi_master_get_def)
  then have "fsl_espi_remove mem b' = None"
    by (auto simp: fsl_espi_remove_def with_master_def)
  then show ?thesis using b by simp
qed

theorem espi_probe_false_success_witness:
  "\<exists>b' h'. drv_run count_hw quiet_board [Bind (good_probe\<lparr>p_num_ss := None\<rparr>)] (False, no_res, 0) = Some (True, b', h') \<and>
    map_option m_alive (r_master b') = Some False \<and>
    drv_run count_hw quiet_board [Bind (good_probe\<lparr>p_num_ss := None\<rparr>), Unbind 0] (False, no_res, 0) = None"
  by (rule espi_probe_false_success) (simp_all add: good_probe_def)

lemma leaked_region_stays:
  "res_inv False b \<Longrightarrow> r_region b \<Longrightarrow> list_all op_ok ops \<Longrightarrow>
   \<exists>b' h'. drv_run hw io ops (False, b, h) = Some (False, b', h') \<and> r_region b'"
proof (induction ops arbitrary: b h)
  case (Cons op ops)
  have u: "\<not> r_mapped b" "\<not> r_irq b"
    using Cons.prems(1) by (simp_all add: res_inv_def split: option.splits)
  have "\<exists>b1 h1. drv_step hw io op (False, b, h) = Some (False, b1, h1) \<and> res_inv False b1 \<and> r_region b1"
    using probe_result [of b _ hw io h] Cons.prems u by (cases op) fastforce+
  then show ?case using Cons.IH Cons.prems(3) by fastforce
qed simp

text \<open>
  A probe that fails after it has claimed the register region keeps the region, so that no later
  probe succeeds, whatever the platform answers and whatever is bound and unbound in between.
\<close>

theorem espi_probe_no_retry:
  assumes "p_alloc p" "p_mem p = 0" "p_region p" "\<not> probe_full p" "list_all op_ok (Bind p # ops)"
  shows "\<exists>b' h'. drv_run hw io (Bind p # ops) (False, no_res, h) = Some (False, b', h')"
proof -
  obtain ret b h1 where b: "fsl_espi_probe hw io p no_res h = Some (ret, b, h1)" "ret \<noteq> 0"
      "res_inv False b" "r_region b"
    using probe_result [of no_res p hw io h] assms res_inv_no_res by (fastforce simp: no_res_def)
  then show ?thesis using leaked_region_stays [of b ops hw io h1] assms(5) by auto
qed

theorem espi_probe_no_retry_witness:
  "\<exists>b' h'. drv_run count_hw quiet_board [Bind (good_probe\<lparr>p_wq := False\<rparr>), Bind good_probe] (False, no_res, 0) = Some (False, b', h')"
  by (rule espi_probe_no_retry) (simp_all add: good_probe_def probe_full_def)

end
