(* ===== verification/Pxm_Fpga.thy ===== *)
theory Pxm_Fpga
  imports Spi_Bus
begin

text \<open>
  The library for the FPGA registers of the local card (\<open>drivers/remotefpga/newApi/pxm_drv_fpga.c\<close>).
  The device file is a record of its calls over a state \<open>'h\<close>; a buffer on the stack that the code
  does not initialise has the bytes \<open>cd_stack\<close>. Pointer arguments are options, and an access outside
  a caller's array is \<open>None\<close>.
\<close>

section \<open>The device file\<close>

record 'h chardev =
  cd_open :: "'h \<Rightarrow> int \<times> 'h"
  cd_close :: "int \<Rightarrow> 'h \<Rightarrow> 'h"
  cd_ioctl :: "int \<Rightarrow> u32 \<Rightarrow> 'h \<Rightarrow> int \<times> 'h"
  cd_lseek :: "int \<Rightarrow> u32 \<Rightarrow> 'h \<Rightarrow> 'h"
  cd_read :: "int \<Rightarrow> byte list \<Rightarrow> 'h \<Rightarrow> (int \<times> byte list) \<times> 'h"
  cd_write :: "int \<Rightarrow> byte list \<Rightarrow> 'h \<Rightarrow> int \<times> 'h"
  cd_stack :: "byte list"

text \<open>A read fills the buffer it is given and does not change its size.\<close>

definition read_fd :: "'h chardev \<Rightarrow> int \<Rightarrow> byte list \<Rightarrow> 'h \<Rightarrow> (int \<times> byte list) \<times> 'h" where
  "read_fd dev fd buf h =
     (case cd_read dev fd buf h of ((n, bs), h) \<Rightarrow> ((n, fit (length buf) bs), h))"

definition SPI_IOC_OPER_FPGA :: u32 where "SPI_IOC_OPER_FPGA = IOW_nr 0x6b 5 1"
definition SPI_IOC_OPER_FPGA_DONE :: u32 where "SPI_IOC_OPER_FPGA_DONE = IOW_nr 0x6b 6 1"

definition ERR_NONE :: int where "ERR_NONE = 0"
definition ERR_FPGA_DRV_OPEN :: int where "ERR_FPGA_DRV_OPEN = - 1"
definition ERR_FPGA_DRV_ARGV :: int where "ERR_FPGA_DRV_ARGV = - 5"

lemmas err_codes [register_consts] = ERR_NONE_def ERR_FPGA_DRV_OPEN_def ERR_FPGA_DRV_ARGV_def

section \<open>Opening and closing\<close>

text \<open>The descriptor \<open>g_fpga_fd\<close> is negative before the first call.\<close>

definition pxm_fpga_init :: "'h chardev \<Rightarrow> int \<Rightarrow> 'h \<Rightarrow> int \<times> int \<times> 'h" where
  "pxm_fpga_init dev fd h =
     (let (fd, h) = (if fd < 0 then cd_open dev h else (fd, h))
      in if fd < 0 then (ERR_FPGA_DRV_OPEN, fd, h) else (ERR_NONE, fd, h))"

definition pxm_fpga_close :: "'h chardev \<Rightarrow> int \<Rightarrow> 'h \<Rightarrow> int \<times> int \<times> 'h" where
  "pxm_fpga_close dev fd h = (ERR_NONE, fd, if 0 < fd then cd_close dev fd h else h)"

section \<open>Registers\<close>

definition pxm_fpga_lc_rd ::
  "'h chardev \<Rightarrow> int \<Rightarrow> u16 \<Rightarrow> u32 option \<Rightarrow> 'h \<Rightarrow> (int \<times> u32 option) \<times> 'h" where
  "pxm_fpga_lc_rd dev fd addr data h =
     (if fd < 0 then ((ERR_FPGA_DRV_OPEN, data), h)
      else if data = None then ((ERR_FPGA_DRV_ARGV, data), h)
      else
        (let h = snd (cd_ioctl dev fd SPI_IOC_OPER_FPGA h);
             h = cd_lseek dev fd (ucast addr) h;
             ((n, buff), h) = read_fd dev fd (fit 4 (cd_stack dev)) h;
             h = snd (cd_ioctl dev fd SPI_IOC_OPER_FPGA_DONE h)
         in ((ERR_NONE, Some (be32_at buff 0)), h)))"

text \<open>The loop that assembles the words, from word \<open>i\<close> on.\<close>

fun words_into :: "byte list \<Rightarrow> nat \<Rightarrow> nat \<Rightarrow> u32 list \<Rightarrow> u32 list option" where
  "words_into rddata i 0 data = Some data"
| "words_into rddata i (Suc n) data =
     (if length data \<le> i then None
      else words_into rddata (i + 1) n (data[i := be32_at rddata (4 * i)]))"

definition pxm_fpga_lc_rd_len ::
  "'h chardev \<Rightarrow> int \<Rightarrow> u16 \<Rightarrow> u32 list option \<Rightarrow> u16 \<Rightarrow> 'h \<Rightarrow> ((int \<times> u32 list option) \<times> 'h) option" where
  "pxm_fpga_lc_rd_len dev fd addr data len h =
     (if fd < 0 then Some ((ERR_FPGA_DRV_OPEN, data), h)
      else
        (case data of
           None \<Rightarrow> Some ((ERR_FPGA_DRV_ARGV, data), h)
         | Some ws \<Rightarrow>
             if 64 < len \<or> len mod 4 \<noteq> 0 then Some ((ERR_FPGA_DRV_ARGV, data), h)
             else
               (let h = snd (cd_ioctl dev fd SPI_IOC_OPER_FPGA h);
                    h = cd_lseek dev fd (ucast addr) h;
                    ((n, bs), h) = read_fd dev fd (replicate (unat len) 0) h;
                    rddata = bs @ replicate (64 - unat len) 0;
                    h = snd (cd_ioctl dev fd SPI_IOC_OPER_FPGA_DONE h);
                    h = snd (pxm_fpga_lc_rd dev fd 0 (Some 0) h)
                in map_option (\<lambda>ws. ((ERR_NONE, Some ws), h)) (words_into rddata 0 (unat len div 4) ws))))"

definition pxm_fpga_lc_wr :: "'h chardev \<Rightarrow> int \<Rightarrow> u16 \<Rightarrow> u32 \<Rightarrow> 'h \<Rightarrow> int \<times> 'h" where
  "pxm_fpga_lc_wr dev fd addr data h =
     (if fd < 0 then (ERR_FPGA_DRV_OPEN, h)
      else
        (let h = snd (cd_ioctl dev fd SPI_IOC_OPER_FPGA h);
             h = cd_lseek dev fd (ucast addr) h;
             h = snd (cd_write dev fd (be32 data) h);
             h = snd (cd_ioctl dev fd SPI_IOC_OPER_FPGA_DONE h)
         in (ERR_NONE, h)))"

section \<open>The registers behind the file\<close>

text \<open>
  What the library expects of the device file: a seek chooses a register, a read of \<open>4 k\<close> bytes
  delivers \<open>k\<close> registers from there on, most significant byte first, a write of four bytes sets
  one, and the two control calls leave the registers alone. \<open>rd\<close> and \<open>wr\<close> are what the FPGA does
  on a read and on a write; reading may change its state.
\<close>

definition fpga_file ::
  "'h chardev \<Rightarrow> int \<Rightarrow> ('h \<Rightarrow> u32) \<Rightarrow> ('h \<Rightarrow> 'r) \<Rightarrow> (u32 \<Rightarrow> nat \<Rightarrow> 'r \<Rightarrow> u32 list \<times> 'r) \<Rightarrow>
     (u32 \<Rightarrow> u32 \<Rightarrow> 'r \<Rightarrow> 'r) \<Rightarrow> bool" where
  "fpga_file dev fd pos regs rd wr \<longleftrightarrow> 0 \<le> fd \<and>
     (\<forall>a k r. length (fst (rd a k r)) = k) \<and>
     (\<forall>cmd h. regs (snd (cd_ioctl dev fd cmd h)) = regs h \<and> pos (snd (cd_ioctl dev fd cmd h)) = pos h) \<and>
     (\<forall>a h. regs (cd_lseek dev fd a h) = regs h \<and> pos (cd_lseek dev fd a h) = a) \<and>
     (\<forall>buf k h. length buf = 4 * k \<longrightarrow>
        snd (fst (cd_read dev fd buf h)) = concat (map be32 (fst (rd (pos h) k (regs h)))) \<and>
        regs (snd (cd_read dev fd buf h)) = snd (rd (pos h) k (regs h))) \<and>
     (\<forall>w h. regs (snd (cd_write dev fd (be32 w) h)) = wr (pos h) w (regs h))"

lemma be32_at_concat:
  "i < length ws \<Longrightarrow> be32_at (concat (map be32 ws) @ bs) (4 * i) = ws ! i"
proof (induction ws arbitrary: i)
  case (Cons w ws)
  then show ?case using be32_at_skip [of w "concat (map be32 ws) @ bs"] by (cases i) simp_all
qed simp

lemma lc_rd_regs:
  assumes "fpga_file dev fd pos regs rd wr"
  shows "\<exists>h'. pxm_fpga_lc_rd dev fd addr (Some v) h =
      ((ERR_NONE, Some (fst (rd (ucast addr) 1 (regs h)) ! 0)), h') \<and>
    regs h' = snd (rd (ucast addr) 1 (regs h))"
proof -
  let ?h = "cd_lseek dev fd (ucast addr) (snd (cd_ioctl dev fd SPI_IOC_OPER_FPGA h))"
  obtain n bs h2 where r: "cd_read dev fd (fit 4 (cd_stack dev)) ?h = ((n, bs), h2)"
    by (metis prod.collapse)
  have c: "bs = concat (map be32 (fst (rd (ucast addr) 1 (regs h))))"
      "regs h2 = snd (rd (ucast addr) 1 (regs h))" "length (fst (rd (ucast addr) 1 (regs h))) = 1"
    using assms r unfolding fpga_file_def
    by (metis length_fit fst_conv snd_conv mult.right_neutral)+
  then have "be32_at bs 0 = fst (rd (ucast addr) 1 (regs h)) ! 0" "length bs = 4"
    using be32_at_concat [of 0 "fst (rd (ucast addr) 1 (regs h))" "[]"] by simp_all
  moreover have "\<not> fd < 0" "regs (snd (cd_ioctl dev fd c h3)) = regs h3" for c h3
    using assms by (simp_all add: fpga_file_def)
  ultimately show ?thesis
    using r c by (simp add: pxm_fpga_lc_rd_def read_fd_def fit_id Let_def)
qed

lemma lc_wr_regs:
  assumes "fpga_file dev fd pos regs rd wr"
  shows "fst (pxm_fpga_lc_wr dev fd addr data h) = ERR_NONE"
    and "regs (snd (pxm_fpga_lc_wr dev fd addr data h)) = wr (ucast addr) data (regs h)"
  using assms by (simp_all add: pxm_fpga_lc_wr_def fpga_file_def Let_def)

lemma words_into_eq:
  "words_into rddata i n data =
     (if i + n \<le> length data \<or> n = 0
      then Some (take i data @ map (\<lambda>j. be32_at rddata (4 * j)) [i..<i + n] @ drop (i + n) data)
      else None)"
proof (induction n arbitrary: i data)
  case (Suc n)
  show ?case
  proof (cases "i < length data")
    case True
    then show ?thesis
      using Suc.IH [of "i + 1" "data[i := be32_at rddata (4 * i)]"]
      by (cases "n = 0") (auto simp: take_Suc_conv_app_nth upt_conv_Cons)
  qed simp
qed simp

lemma lc_rd_len_regs:
  assumes "fpga_file dev fd pos regs rd wr" "len \<le> 64" "unat len = 4 * k" "k \<le> length ws"
  shows "\<exists>h'. pxm_fpga_lc_rd_len dev fd addr (Some ws) len h =
      Some ((ERR_NONE, Some (fst (rd (ucast addr) k (regs h)) @ drop k ws)), h') \<and>
    regs h' = snd (rd 0 1 (snd (rd (ucast addr) k (regs h))))"
proof -
  let ?h = "cd_lseek dev fd (ucast addr) (snd (cd_ioctl dev fd SPI_IOC_OPER_FPGA h))"
  let ?vs = "fst (rd (ucast addr) k (regs h))"
  obtain n bs h2 where r: "cd_read dev fd (replicate (unat len) 0) ?h = ((n, bs), h2)"
    by (metis prod.collapse)
  have p: "pos ?h = ucast addr" "regs ?h = regs h" "length ?vs = k" "\<not> fd < 0"
      "regs (snd (cd_ioctl dev fd c h3)) = regs h3" for c h3
    using assms(1) by (simp_all add: fpga_file_def)
  have c: "bs = concat (map be32 ?vs)" "regs h2 = snd (rd (ucast addr) k (regs h))"
    using assms(1,3) r p(1,2) unfolding fpga_file_def
    by (metis length_replicate fst_conv snd_conv)+
  then have b: "length bs = unat len" using p(3) assms(3) by simp
  have m: "unat len mod 4 = 0" "unat len \<le> 64" using assms(2,3) by (simp_all add: word_le_nat_alt)
  then have g: "\<not> 64 < len" "len mod 4 = 0" using assms(2)
    by (simp_all add: word_arith_nat_mod)
  obtain h4 where h4: "pxm_fpga_lc_rd dev fd 0 (Some 0) (snd (cd_ioctl dev fd SPI_IOC_OPER_FPGA_DONE h2)) =
      ((ERR_NONE, Some (fst (rd 0 1 (regs h2)) ! 0)), h4)" "regs h4 = snd (rd 0 1 (regs h2))"
    using lc_rd_regs [OF assms(1), of 0 0 "snd (cd_ioctl dev fd SPI_IOC_OPER_FPGA_DONE h2)"] p(5) by auto
  have "map (\<lambda>j. be32_at (concat (map be32 ?vs) @ zs) (4 * j)) [0..<k] = ?vs" for zs
    using p(3) by (intro nth_equalityI) (simp_all add: be32_at_concat)
  then have "words_into (bs @ replicate (64 - unat len) 0) 0 (unat len div 4) ws = Some (?vs @ drop k ws)"
    using assms(3,4) c(1) by (simp add: words_into_eq)
  then show ?thesis
    using r c(2) b g p(4) h4 by (simp add: pxm_fpga_lc_rd_len_def read_fd_def fit_id Let_def)
qed

end
