(* ===== verification/Pxm_Remote.thy ===== *)
theory Pxm_Remote
  imports Pxm_Fpga "HOL-Library.Signed_Division"
begin

text \<open>
  The library for the registers of the tributary cards (\<open>drivers/remotefpga/newApi/
  pxm_drv_fpga_remote.c\<close>). The local FPGA reaches them for the library: a \<^emph>\<open>clause\<close> is a command that
  makes it copy up to 32 registers of a card into a buffer of its own. Circle-read clauses are
  kept in a table, real-time clauses are issued at once.
\<close>

section \<open>Addresses and the clause table\<close>

definition FPGA_RT_CLAU_ADDR :: int where "FPGA_RT_CLAU_ADDR = 0x2020"
definition FPGA_RT_BUFF_ADDR :: int where "FPGA_RT_BUFF_ADDR = 0x2200"
definition FPGA_RT_CMD_BUFF_ADDR :: int where "FPGA_RT_CMD_BUFF_ADDR = 0x0400"
definition FPGA_RT_CLAU_UNIT_SIZE :: int where "FPGA_RT_CLAU_UNIT_SIZE = 0x0020"
definition FPGA_RT_RD_OVER_FLGA :: u16 where "FPGA_RT_RD_OVER_FLGA = 0x2002"
definition FPGA_RT_WR_ADDR :: u16 where "FPGA_RT_WR_ADDR = 0x2010"
definition FPGA_CR_CLAU_ADDR :: int where "FPGA_CR_CLAU_ADDR = 0x2100"
definition FPGA_CR_BUFF_ADDR :: int where "FPGA_CR_BUFF_ADDR = 0x2400"
definition FPGA_CR_CMD_BUFF_ADDR :: int where "FPGA_CR_CMD_BUFF_ADDR = 0x0800"
definition FPGA_CR_CLAU_UNIT_SIZE :: int where "FPGA_CR_CLAU_UNIT_SIZE = 0x0020"
definition FPGA_CR_EN_ADDR :: int where "FPGA_CR_EN_ADDR = 0x2040"
definition FPGA_RT_CLAU :: int where "FPGA_RT_CLAU = 32"
definition FPGA_CR_CLAU :: int where "FPGA_CR_CLAU = 128"

lemmas fpga_addrs [register_consts] = FPGA_RT_CLAU_ADDR_def FPGA_RT_BUFF_ADDR_def FPGA_RT_CMD_BUFF_ADDR_def
  FPGA_RT_CLAU_UNIT_SIZE_def FPGA_RT_RD_OVER_FLGA_def FPGA_RT_WR_ADDR_def FPGA_CR_CLAU_ADDR_def
  FPGA_CR_BUFF_ADDR_def FPGA_CR_CMD_BUFF_ADDR_def FPGA_CR_CLAU_UNIT_SIZE_def FPGA_CR_EN_ADDR_def
  FPGA_RT_CLAU_def FPGA_CR_CLAU_def

record clause =
  c_slot :: byte
  c_addr :: u16
  c_size :: u32

type_synonym clause_table = "clause list"

definition clausCrMap_init :: clause_table where
  "clausCrMap_init = replicate (nat FPGA_CR_CLAU) \<lparr>c_slot = 0, c_addr = 0, c_size = 0\<rparr>"

section \<open>Circle reads\<close>

text \<open>The four bytes of a command, as the word they are in memory.\<close>

definition clause_word :: "byte \<Rightarrow> u16 \<Rightarrow> u32 \<Rightarrow> u32" where
  "clause_word slot addr bufaddr =
     of_be32 (push_bit 4 (slot AND 0x0f) OR ucast (drop_bit 8 (addr AND 0xf00)))
       (ucast (addr AND 0xff))
       (push_bit 5 0x5 OR ucast (drop_bit 8 (bufaddr AND 0x1f00)))
       (ucast ((bufaddr AND 0xe0) OR 0x1f))"

definition pxm_fpga_rm_cr_rd_set ::
  "'h chardev \<Rightarrow> int \<Rightarrow> int \<Rightarrow> byte \<Rightarrow> u16 \<Rightarrow> u32 \<Rightarrow> clause_table \<Rightarrow> 'h \<Rightarrow> int \<times> clause_table \<times> 'h" where
  "pxm_fpga_rm_cr_rd_set dev fd clause slot addr sz tab h =
     (if clause < 0 \<or> FPGA_CR_CLAU \<le> clause then (ERR_FPGA_DRV_ARGV, tab, h)
      else if word_of_int FPGA_CR_CLAU_UNIT_SIZE < sz then (ERR_FPGA_DRV_ARGV, tab, h)
      else
        (let tab = tab[nat clause := \<lparr>c_slot = slot, c_addr = addr, c_size = sz\<rparr>];
             bufaddr = word_of_int (FPGA_CR_CMD_BUFF_ADDR + clause * FPGA_CR_CLAU_UNIT_SIZE);
             read_reg = word_of_int (FPGA_CR_CLAU_ADDR + clause);
             (r, h) = pxm_fpga_lc_wr dev fd read_reg (clause_word slot addr bufaddr) h
         in (r, tab, h)))"

definition pxm_fpga_rm_cr_rd_inf :: "int \<Rightarrow> clause_table \<Rightarrow> int \<times> clause option" where
  "pxm_fpga_rm_cr_rd_inf clause tab =
     (if clause < 0 \<or> FPGA_CR_CLAU \<le> clause then (- 1, None) else (0, Some (tab ! nat clause)))"

text \<open>
  Reading a register until a condition holds, as long as the counter lasts. The result has what is
  left of the counter. \<open>v\<close> is the variable before, which a failing read leaves as it is.
\<close>

definition read_var :: "'h chardev \<Rightarrow> int \<Rightarrow> u16 \<Rightarrow> u32 \<Rightarrow> 'h \<Rightarrow> u32 \<times> 'h" where
  "read_var dev fd addr v h =
     (case pxm_fpga_lc_rd dev fd addr (Some v) h of ((r, w), h) \<Rightarrow> (case w of None \<Rightarrow> v | Some w \<Rightarrow> w, h))"

fun wait_reg ::
  "'h chardev \<Rightarrow> int \<Rightarrow> u16 \<Rightarrow> (u32 \<Rightarrow> bool) \<Rightarrow> nat \<Rightarrow> u32 \<Rightarrow> 'h \<Rightarrow> (nat \<times> u32) \<times> 'h" where
  "wait_reg dev fd addr ok 0 v h = (case read_var dev fd addr v h of (v, h) \<Rightarrow> ((0, v), h))"
| "wait_reg dev fd addr ok (Suc n) v h =
     (case read_var dev fd addr v h of
        (v, h) \<Rightarrow> if ok v then ((Suc n, v), h) else wait_reg dev fd addr ok n v h)"

text \<open>An uninitialised variable on the stack.\<close>

definition junk :: "'h chardev \<Rightarrow> u32" where
  "junk dev = be32_at (fit 4 (cd_stack dev)) 0"

definition pxm_fpga_rm_cr_en :: "'h chardev \<Rightarrow> int \<Rightarrow> int \<Rightarrow> 'h \<Rightarrow> (int \<times> 'h) option" where
  "pxm_fpga_rm_cr_en dev fd clause h =
     (if FPGA_CR_CLAU < clause then Some (ERR_FPGA_DRV_ARGV, h)
      else
        (let en_addr = word_of_int (FPGA_CR_EN_ADDR + clause sdiv 16);
             en_bit = clause smod 16;
             (_, h) = wait_reg dev fd en_addr (\<lambda>d. d AND 0xffff = 0) 1000 (junk dev) h
         in if en_bit < 0 then None
            else Some (pxm_fpga_lc_wr dev fd en_addr (push_bit (nat en_bit) 1) h)))"

text \<open>The loop over the enable registers, with the counter they share.\<close>

fun en_blk_loop ::
  "'h chardev \<Rightarrow> int \<Rightarrow> u16 list \<Rightarrow> nat \<Rightarrow> nat \<Rightarrow> nat \<Rightarrow> u32 \<Rightarrow> 'h \<Rightarrow> 'h option" where
  "en_blk_loop dev fd enbuf i 0 delay v h = Some h"
| "en_blk_loop dev fd enbuf i (Suc n) delay v h =
     (if length enbuf \<le> i then None
      else
        (let en_addr = word_of_int (FPGA_CR_EN_ADDR + int i);
             ((delay, v), h) = wait_reg dev fd en_addr (\<lambda>d. d AND 0xffff = 0) delay v h;
             v = ucast (enbuf ! i);
             h = snd (pxm_fpga_lc_wr dev fd en_addr v h)
         in en_blk_loop dev fd enbuf (i + 1) n delay v h))"

definition pxm_fpga_rm_cr_en_blk :: "'h chardev \<Rightarrow> int \<Rightarrow> u16 list option \<Rightarrow> u32 \<Rightarrow> 'h \<Rightarrow> (int \<times> 'h) option" where
  "pxm_fpga_rm_cr_en_blk dev fd enbuf sz h =
     (case enbuf of
        None \<Rightarrow> Some (ERR_FPGA_DRV_ARGV, h)
      | Some es \<Rightarrow>
          if 8 \<le> sz then Some (ERR_FPGA_DRV_ARGV, h)
          else map_option (Pair 0) (en_blk_loop dev fd es 0 (unat sz) 1000 (junk dev) h))"

text \<open>The loop that takes the words of the buffer apart.\<close>

definition half :: "u32 list \<Rightarrow> nat \<Rightarrow> u16" where
  "half data i = (if i mod 2 \<noteq> 0 then ucast (drop_bit 16 (data ! (i div 2)) AND 0xffff)
                  else ucast (data ! (i div 2) AND 0xffff))"

fun unpack :: "u32 list \<Rightarrow> nat \<Rightarrow> nat \<Rightarrow> u16 list \<Rightarrow> u16 list option" where
  "unpack data i 0 pbuf = Some pbuf"
| "unpack data i (Suc n) pbuf =
     (if length data \<le> i div 2 \<or> length pbuf \<le> i then None
      else unpack data (i + 1) n (pbuf[i := half data i]))"

definition pxm_fpga_rm_cr_rd ::
  "'h chardev \<Rightarrow> int \<Rightarrow> int \<Rightarrow> byte \<Rightarrow> u16 \<Rightarrow> u16 list option \<Rightarrow> u32 \<Rightarrow> clause_table \<Rightarrow> 'h
     \<Rightarrow> (int \<times> u16 list option \<times> 'h) option" where
  "pxm_fpga_rm_cr_rd dev fd clause slot addr pbuf sz tab h =
     (if clause < 0 \<or> FPGA_CR_CLAU \<le> clause then Some (ERR_FPGA_DRV_ARGV, pbuf, h)
      else
        (case pbuf of
           None \<Rightarrow> Some (ERR_FPGA_DRV_ARGV, pbuf, h)
         | Some ps \<Rightarrow>
             if tab ! nat clause \<noteq> \<lparr>c_slot = slot, c_addr = addr, c_size = sz\<rparr>
             then Some (ERR_FPGA_DRV_ARGV, pbuf, h)
             else
               (let en_addr = word_of_int (FPGA_CR_EN_ADDR + clause div 16);
                    en_bit = nat (clause mod 16);
                    (_, h) = wait_reg dev fd en_addr (\<lambda>v. v AND push_bit en_bit 1 = 0) 1000 (junk dev) h;
                    reg_addr = word_of_int (FPGA_CR_BUFF_ADDR + clause * FPGA_CR_CLAU_UNIT_SIZE div 2)
                in do {
                     ((_, data), h) \<leftarrow> pxm_fpga_lc_rd_len dev fd reg_addr (Some (replicate 16 0)) 64 h;
                     data \<leftarrow> data;
                     ps \<leftarrow> unpack data 0 (unat sz) ps;
                     Some (0, Some ps, h)
                   })))"

section \<open>Real-time accesses\<close>

definition pxm_fpga_rm_rt_rd ::
  "'h chardev \<Rightarrow> int \<Rightarrow> int \<Rightarrow> byte \<Rightarrow> u16 \<Rightarrow> u16 list option \<Rightarrow> u32 \<Rightarrow> bool \<Rightarrow> 'h
     \<Rightarrow> (int \<times> u16 list option \<times> 'h) option" where
  "pxm_fpga_rm_rt_rd dev fd clause slot addr pbuf sz nocheck h =
     (if clause < 0 \<or> FPGA_RT_CLAU \<le> clause then Some (ERR_FPGA_DRV_ARGV, pbuf, h)
      else
        (let bufaddr = word_of_int (FPGA_RT_CMD_BUFF_ADDR + clause * FPGA_RT_CLAU_UNIT_SIZE);
             read_reg = word_of_int (FPGA_RT_CLAU_ADDR + clause);
             h = snd (pxm_fpga_lc_wr dev fd read_reg (clause_word slot addr bufaddr) h);
             h = (if nocheck then h
                  else snd (wait_reg dev fd FPGA_RT_RD_OVER_FLGA (\<lambda>v. v = 0) 1000 (junk dev) h));
             reg_addr = word_of_int (FPGA_RT_BUFF_ADDR + clause * FPGA_RT_CLAU_UNIT_SIZE div 2)
         in do {
              ((_, data), h) \<leftarrow> pxm_fpga_lc_rd_len dev fd reg_addr (Some (replicate 16 0)) 64 h;
              data \<leftarrow> data;
              ps \<leftarrow> unpack data 0 (unat sz) (case pbuf of None \<Rightarrow> [] | Some ps \<Rightarrow> ps);
              Some (0, if pbuf = None then None else Some ps, h)
            }))"

fun rm_wr_loop :: "'h chardev \<Rightarrow> int \<Rightarrow> byte \<Rightarrow> u16 \<Rightarrow> u16 list \<Rightarrow> 'h \<Rightarrow> 'h" where
  "rm_wr_loop dev fd slot addr [] h = h"
| "rm_wr_loop dev fd slot addr (v # vs) h =
     rm_wr_loop dev fd slot (addr + 1) vs
       (snd (pxm_fpga_lc_wr dev fd FPGA_RT_WR_ADDR
          (of_be32 (push_bit 4 (slot AND 0x0f) OR ucast (drop_bit 8 (addr AND 0xf00)))
             (ucast (addr AND 0xff)) (ucast (drop_bit 8 (v AND 0xff00))) (ucast (v AND 0xff))) h))"

definition pxm_fpga_rm_wr ::
  "'h chardev \<Rightarrow> int \<Rightarrow> byte \<Rightarrow> u16 \<Rightarrow> u16 list option \<Rightarrow> u32 \<Rightarrow> 'h \<Rightarrow> (int \<times> 'h) option" where
  "pxm_fpga_rm_wr dev fd slot addr pbuf sz h =
     (case pbuf of
        None \<Rightarrow> Some (ERR_FPGA_DRV_ARGV, h)
      | Some ps \<Rightarrow>
          if length ps < unat sz then None
          else Some (0, rm_wr_loop dev fd slot addr (take (unat sz) ps) h))"

end
