(* ===== verification/Pxm_Proofs.thy ===== *)
theory Pxm_Proofs
  imports Pxm_Remote
begin

text \<open>
  The clause table is well formed at all times, which is what keeps circle reads inside their
  buffers; commands carry what the caller gave, name the buffer that is read back later, and the
  buffers of different clauses are disjoint.
\<close>

section \<open>The clause table\<close>

definition typed_table :: "clause_table \<Rightarrow> bool" where
  "typed_table tab \<longleftrightarrow> length tab = 128 \<and> list_all (\<lambda>c. c_size c \<le> 32) tab"

lemma typed_init: "typed_table clausCrMap_init"
  by (simp add: typed_table_def clausCrMap_init_def FPGA_CR_CLAU_def list_all_length)

lemma typed_set:
  assumes "typed_table tab" "pxm_fpga_rm_cr_rd_set dev fd clause slot addr sz tab h = (r, tab', h')"
  shows "typed_table tab'"
proof -
  have "list_all P (xs[i := x])" if "list_all P xs" "P x" for P i x and xs :: "clause list"
    using that set_update_subset_insert [of xs i x] by (auto simp: list_all_iff)
  then show ?thesis using assms
    by (auto simp: typed_table_def pxm_fpga_rm_cr_rd_set_def FPGA_CR_CLAU_UNIT_SIZE_def Let_def not_less
        split: if_splits prod.splits)
qed

text \<open>Any number of configuration calls, one after the other.\<close>

fun set_calls ::
  "'h chardev \<Rightarrow> int \<Rightarrow> (int \<times> byte \<times> u16 \<times> u32) list \<Rightarrow> clause_table \<Rightarrow> 'h \<Rightarrow> clause_table \<times> 'h" where
  "set_calls dev fd [] tab h = (tab, h)"
| "set_calls dev fd ((clause, slot, addr, sz) # cs) tab h =
     (case pxm_fpga_rm_cr_rd_set dev fd clause slot addr sz tab h of
        (r, tab, h) \<Rightarrow> set_calls dev fd cs tab h)"

lemma typed_set_calls: "typed_table tab \<Longrightarrow> typed_table (fst (set_calls dev fd cs tab h))"
proof (induction cs arbitrary: tab h)
  case (Cons c cs)
  then show ?case by (cases c) (auto dest: typed_set split: prod.splits)
qed simp

section \<open>Taking the buffer apart\<close>

lemma unpack_eq:
  "unpack data i n pbuf =
     (if n = 0 then Some pbuf
      else if i + n \<le> length pbuf \<and> (i + n - 1) div 2 < length data
      then Some (take i pbuf @ map (half data) [i..<i + n] @ drop (i + n) pbuf)
      else None)"
proof (induction n arbitrary: i pbuf)
  case (Suc n)
  show ?case
  proof (cases "length data \<le> i div 2 \<or> length pbuf \<le> i")
    case True
    then have "\<not> (i + Suc n \<le> length pbuf \<and> (i + Suc n - 1) div 2 < length data)"
      using div_le_mono [of i "i + n" 2] by auto
    then show ?thesis using True by auto
  next
    case False
    then show ?thesis
      using Suc.IH [of "i + 1" "pbuf[i := half data i]"]
      by (cases "n = 0") (auto simp: take_Suc_conv_app_nth upt_conv_Cons upd_conv_take_nth_drop add.commute [of n i])
  qed
qed simp

lemma lc_rd_len_16:
  "\<exists>r ws h'. pxm_fpga_lc_rd_len dev fd a (Some (replicate 16 0)) 64 h = Some ((r, Some ws), h') \<and> length ws = 16"
  by (auto simp: pxm_fpga_lc_rd_len_def words_into_eq Let_def split: prod.splits)


text \<open>A device file of plain registers, for the examples.\<close>

definition reg_file :: "((u32 \<Rightarrow> u32) \<times> u32) chardev" where
  "reg_file =
     \<lparr>cd_open = \<lambda>h. (3, h), cd_close = \<lambda>fd h. h, cd_ioctl = \<lambda>fd cmd h. (0, h),
      cd_lseek = \<lambda>fd a h. (fst h, a),
      cd_read = \<lambda>fd buf h. ((int (length buf),
        concat (map (\<lambda>i. be32 (fst h (snd h + of_nat i))) [0..<length buf div 4])), h),
      cd_write = \<lambda>fd bs h. (4, ((fst h)(snd h := be32_at bs 0), snd h)), cd_stack = []\<rparr>"

definition plain_rd :: "u32 \<Rightarrow> nat \<Rightarrow> (u32 \<Rightarrow> u32) \<Rightarrow> u32 list \<times> (u32 \<Rightarrow> u32)" where
  "plain_rd a k r = (map (\<lambda>i. r (a + of_nat i)) [0..<k], r)"

lemma reg_file_fpga: "fpga_file reg_file 3 snd fst plain_rd (\<lambda>a w r. r(a := w))"
  using be32_at_be32 [of _ "[]"] by (simp add: fpga_file_def reg_file_def plain_rd_def comp_def)


section \<open>Commands\<close>

text \<open>The fields of a command word: card, register, mode, buffer and number of registers less one.\<close>

definition clause_fields :: "u32 \<Rightarrow> u32 \<times> u32 \<times> u32 \<times> u32 \<times> u32" where
  "clause_fields w =
     (drop_bit 28 w, drop_bit 16 w AND 0xfff, drop_bit 13 w AND 0x7, w AND 0x1fe0, w AND 0x1f)"

lemma bit_of_be32:
  "bit (of_be32 a b c d) n \<longleftrightarrow>
     (if n < 8 then bit d n else if n < 16 then bit c (n - 8) else if n < 24 then bit b (n - 16)
      else n < 32 \<and> bit a (n - 24))"
  by (auto simp: of_be32_def bit_simps dest: bit_imp_le_length)

lemma clause_masks:
  "(0x0f :: byte) = mask 4" "(0xf00 :: u16) = push_bit 8 (mask 4)" "(0x1f00 :: u32) = push_bit 8 (mask 5)"
  "(0xe0 :: u32) = push_bit 5 (mask 3)" "(0x1f :: u32) = mask 5" "(0xfff :: u32) = mask 12"
  "(0x7 :: u32) = mask 3" "(0x1fe0 :: u32) = push_bit 5 (mask 8)" "(0xf :: u32) = mask 4"
  by (simp_all add: mask_numeral)

lemma bit_and_mask: "bit (w AND push_bit k (mask m)) n \<longleftrightarrow> k \<le> n \<and> n < k + m \<and> bit w n"
    "bit (w AND mask m) n \<longleftrightarrow> n < m \<and> bit w n" for w :: "'a :: len word"
  by (auto simp: bit_simps dest: bit_imp_le_length)

lemma bit_mode: "bit (push_bit 5 5 :: byte) n \<longleftrightarrow> n = 5 \<or> n = 7"
proof (cases "n < 8")
  case True
  then have "n = 0 \<or> n = 1 \<or> n = 2 \<or> n = 3 \<or> n = 4 \<or> n = 5 \<or> n = 6 \<or> n = 7" by arith
  then show ?thesis by (elim disjE) (simp_all add: bit_simps)
next
  case False
  then show ?thesis using bit_imp_le_length [of "push_bit 5 5 :: byte" n] by auto
qed

lemma clause_word_bit:
  assumes "bufaddr AND NOT 0x1fe0 = 0"
  shows "bit (clause_word slot addr bufaddr) n \<longleftrightarrow>
    (if n < 5 then True else if n < 13 then bit bufaddr n else if n < 16 then n \<noteq> 14
     else if n < 28 then bit addr (n - 16) else n < 32 \<and> bit slot (n - 28))"
proof -
  have b: "bit bufaddr k \<Longrightarrow> 5 \<le> k \<and> k < 13" for k
  proof -
    assume k: "bit bufaddr k"
    have "bit (bufaddr AND NOT 0x1fe0) k = False" using assms by simp
    then show ?thesis using k by (auto simp: clause_masks bit_simps dest: bit_imp_le_length)
  qed
  have "bit (push_bit 4 (slot AND 0x0f) OR ucast (drop_bit 8 (addr AND 0xf00)) :: byte) k \<longleftrightarrow>
      k < 8 \<and> (if k < 4 then bit addr (8 + k) else bit slot (k - 4))" for k
    unfolding clause_masks by (auto simp: bit_simps bit_and_mask dest: bit_imp_le_length)
  moreover have "bit (ucast (addr AND 0xff) :: byte) k \<longleftrightarrow> k < 8 \<and> bit addr k" for k
    by (auto simp: bit_simps)
  moreover have "bit (push_bit 5 0x5 OR ucast (drop_bit 8 (bufaddr AND 0x1f00)) :: byte) k \<longleftrightarrow>
      k < 8 \<and> (if k < 5 then bit bufaddr (8 + k) else k \<noteq> 6)" for k
    unfolding bit_or_iff bit_mode clause_masks by (auto simp: bit_simps bit_and_mask)
  moreover have "bit (ucast ((bufaddr AND 0xe0) OR 0x1f) :: byte) k \<longleftrightarrow>
      k < 8 \<and> (if k < 5 then True else bit bufaddr k)" for k
    unfolding clause_masks by (auto simp: bit_simps bit_and_mask dest: b)
  ultimately show ?thesis
    by (auto simp: clause_word_def bit_of_be32)
qed

lemma clause_word_fields:
  assumes "bufaddr AND NOT 0x1fe0 = 0"
  shows "clause_fields (clause_word slot addr bufaddr) =
    (ucast slot AND 0xf, ucast addr AND 0xfff, 5, bufaddr, 31)"
proof -
  note cb = clause_word_bit [OF assms, where slot = slot and addr = addr]
  have b: "bit bufaddr k \<Longrightarrow> 5 \<le> k \<and> k < 13" for k
  proof -
    assume k: "bit bufaddr k"
    have "bit (bufaddr AND NOT 0x1fe0) k = False" using assms by simp
    then show ?thesis using k by (auto simp: clause_masks bit_simps dest: bit_imp_le_length)
  qed
  let ?w = "clause_word slot addr bufaddr"
  have "drop_bit 28 ?w = ucast slot AND 0xf"
    unfolding clause_masks by (rule bit_word_eqI) (auto simp: bit_simps cb bit_and_mask)
  moreover have "drop_bit 16 ?w AND 0xfff = ucast addr AND 0xfff"
    unfolding clause_masks by (rule bit_word_eqI) (auto simp: bit_simps cb bit_and_mask)
  moreover have "drop_bit 13 ?w AND 0x7 = 5"
  proof (rule bit_word_eqI)
    fix n :: nat
    assume "n < LENGTH(32)"
    show "bit (drop_bit 13 ?w AND 0x7) n = bit (5 :: u32) n"
    proof (cases "n < 3")
      case True
      then have "n = 0 \<or> n = 1 \<or> n = 2" by arith
      then show ?thesis unfolding clause_masks by (elim disjE) (simp_all add: bit_simps cb)
    next
      case False
      have "bit (5 :: u32) n \<longleftrightarrow> False" using False small_bit [of "5 :: u32" 3 n] by auto
      then show ?thesis using False unfolding clause_masks by (simp add: bit_simps)
    qed
  qed
  moreover have "?w AND 0x1fe0 = bufaddr"
    unfolding clause_masks by (rule bit_word_eqI) (auto simp: cb bit_and_mask dest: b)
  moreover have "?w AND 0x1f = 0x1f"
    unfolding clause_masks by (rule bit_word_eqI) (auto simp: bit_simps cb bit_and_mask)
  ultimately show ?thesis by (simp add: clause_fields_def)
qed

section \<open>Reading back\<close>

lemma ucast_addr: "0 \<le> a \<Longrightarrow> a < 65536 \<Longrightarrow> (ucast (word_of_int a :: u16) :: u32) = word_of_int a"
  by (simp add: word_uint_eq_iff uint_word_of_int unsigned_ucast_eq take_bit_word_eq_self take_bit_int_eq_self)

text \<open>
  What the FPGA sees of the wait: at most one read more than the counter of the code, the last one
  without a look at the value.
\<close>

fun poll_reg :: "(u32 \<Rightarrow> nat \<Rightarrow> 'r \<Rightarrow> u32 list \<times> 'r) \<Rightarrow> u32 \<Rightarrow> (u32 \<Rightarrow> bool) \<Rightarrow> nat \<Rightarrow> 'r \<Rightarrow> 'r" where
  "poll_reg rd a ok 0 r = snd (rd a 1 r)"
| "poll_reg rd a ok (Suc n) r =
     (case rd a 1 r of (vs, r) \<Rightarrow> if ok (vs ! 0) then r else poll_reg rd a ok n r)"

lemma wait_reg_regs:
  assumes "fpga_file dev fd pos regs rd wr"
  shows "regs (snd (wait_reg dev fd addr ok n v h)) = poll_reg rd (ucast addr) ok n (regs h)"
proof (induction n arbitrary: v h)
  case 0
  then show ?case using lc_rd_regs [OF assms, of addr v h] by (auto simp: read_var_def)
next
  case (Suc n)
  obtain h' where "pxm_fpga_lc_rd dev fd addr (Some v) h =
      ((ERR_NONE, Some (fst (rd (ucast addr) 1 (regs h)) ! 0)), h')"
    "regs h' = snd (rd (ucast addr) 1 (regs h))"
    using lc_rd_regs [OF assms, of addr v h] by auto
  then show ?case using Suc.IH by (simp add: read_var_def split_beta)
qed

lemma snd_plain [simp]: "snd (plain_rd a k r) = r"
  by (simp add: plain_rd_def)

lemma poll_plain [simp]: "poll_reg plain_rd a ok n r = r"
  by (induction n) (simp_all add: split_beta)

text \<open>The registers of a card, two to a word of the buffer, the first in the lower half.\<close>

definition halves :: "u32 list \<Rightarrow> u16 list" where
  "halves ws = concat (map (\<lambda>w. [ucast w, ucast (drop_bit 16 w)]) ws)"

lemma length_halves [simp]: "length (halves ws) = 2 * length ws"
  by (induction ws) (simp_all add: halves_def)

lemma nth_halves: "i < 2 * length ws \<Longrightarrow> halves ws ! i = half ws i"
proof (induction ws arbitrary: i)
  case (Cons w ws)
  have m: "ucast (x AND 0xffff) = (ucast x :: u16)" for x :: u32
  proof -
    have "(0xffff :: u32) = mask 16" by (simp add: mask_numeral)
    show ?thesis unfolding \<open>0xffff = mask 16\<close> by (rule bit_word_eqI) (auto simp: bit_simps)
  qed
  consider "i = 0" | "i = 1" | j where "i = Suc (Suc j)" 
    by (metis One_nat_def not0_implies_Suc)
  then show ?case
  proof cases
    case 3
    then have "halves (w # ws) ! i = halves ws ! j" by (simp add: halves_def)
    moreover have "half (w # ws) i = half ws j" using 3 by (simp add: half_def)
    ultimately show ?thesis using Cons 3 by simp
  qed (simp_all add: halves_def half_def m)
qed simp

lemma unpack_halves:
  assumes "length ws = 16" "n \<le> 32" "n \<le> length ps"
  shows "unpack ws 0 n ps = Some (take n (halves ws) @ drop n ps)"
proof -
  have "map (half ws) [0..<n] = take n (halves ws)"
    using assms by (intro nth_equalityI) (simp_all add: nth_halves)
  then show ?thesis using assms by (auto simp: unpack_eq)
qed

lemma read_window:
  assumes "fpga_file dev fd pos regs rd wr" "0 \<le> a" "a < 65536"
  shows "\<exists>h'. pxm_fpga_lc_rd_len dev fd (word_of_int a) (Some (replicate 16 0)) 64 h =
      Some ((ERR_NONE, Some (fst (rd (word_of_int a) 16 (regs h)))), h') \<and>
    regs h' = snd (rd 0 1 (snd (rd (word_of_int a) 16 (regs h))))"
  using lc_rd_len_regs [OF assms(1), of 64 16 "replicate 16 0" "word_of_int a" h] assms(2,3)
  by (simp add: ucast_addr)



lemma bufaddr_fits:
  assumes "0 \<le> k" "k < 256"
  shows "(word_of_int (32 * k) :: u32) AND NOT 0x1fe0 = 0"
proof (rule bit_word_eqI)
  fix n :: nat
  assume "n < LENGTH(32)"
  have "bit (32 * k) n \<longleftrightarrow> 5 \<le> n \<and> bit k (n - 5)"
    using bit_push_bit_iff [of 5 k n] by (simp add: push_bit_eq_mult mult.commute)
  moreover have "bit k m \<Longrightarrow> m < 8" for m
    using assms bit_take_bit_iff [of 8 k m] by (simp add: take_bit_int_eq_self)
  ultimately have "bit (32 * k) n \<Longrightarrow> 5 \<le> n \<and> n < 13" by fastforce
  moreover have "bit (word_of_int (32 * k) :: u32) n \<longleftrightarrow> bit (32 * k) n"
    using \<open>n < LENGTH(32)\<close> by (simp only: bit_word_of_int_iff) simp
  ultimately show "bit ((word_of_int (32 * k) :: u32) AND NOT 0x1fe0) n = bit (0 :: u32) n"
    unfolding clause_masks bit_and_iff bit_not_iff bit_push_bit_iff bit_mask_iff by auto
qed



text \<open>
  A real-time read of at most 32 registers writes the command to the register of the clause, with the
  caller's card and register in its fields and the window of the clause as its buffer, waits for
  the flag of the FPGA to be 0 unless told not to, at most 1001 reads, takes the window in one burst, reads
  register 0 and gives the caller the registers in order. The windows of the real-time clauses are
  below those of the circle reads.
\<close>

theorem realtime_read_refines:
  assumes ff: "fpga_file dev fd pos regs rd wr" and c: "0 \<le> clause" "clause < 32"
    and sz: "sz \<le> 32" "unat sz \<le> length ps"
    and w: "w = clause_word slot addr (0x400 + 32 * word_of_int clause)"
    and ra: "ra = wr (0x2020 + word_of_int clause) w (regs h)"
    and rb: "rb = (if nocheck then ra else poll_reg rd 0x2002 (\<lambda>v. v = 0) 1000 ra)"
    and ws: "(ws, rc) = rd (0x2200 + 16 * word_of_int clause) 16 rb"
  shows "clause_fields w = (ucast slot AND 0xf, ucast addr AND 0xfff, 5, 0x400 + 32 * word_of_int clause, 31) \<and>
    0x2200 + 16 * clause + 16 \<le> 0x2400 \<and>
    (\<exists>h'. pxm_fpga_rm_rt_rd dev fd clause slot addr (Some ps) sz nocheck h =
      Some (0, Some (take (unat sz) (halves ws) @ drop (unat sz) ps), h') \<and> regs h' = snd (rd 0 1 rc))"
proof -
  have f: "clause_fields w = (ucast slot AND 0xf, ucast addr AND 0xfff, 5, 0x400 + 32 * word_of_int clause, 31)"
    using clause_word_fields [OF bufaddr_fits [of "32 + clause"]] c w by (simp add: algebra_simps)
  let ?h1 = "snd (pxm_fpga_lc_wr dev fd (word_of_int (0x2020 + clause)) w h)"
  let ?h2 = "if nocheck then ?h1 else snd (wait_reg dev fd 0x2002 (\<lambda>v. v = 0) 1000 (junk dev) ?h1)"
  have "ucast (word_of_int (0x2020 + clause) :: u16) = (0x2020 + word_of_int clause :: u32)"
    using c ucast_addr [of "0x2020 + clause"] by simp
  then have "regs ?h1 = ra" using ra unfolding lc_wr_regs(2) [OF ff] by simp
  then have h2: "regs ?h2 = rb" using rb wait_reg_regs [OF ff] by simp
  obtain h' where h': "pxm_fpga_lc_rd_len dev fd (word_of_int (0x2200 + 16 * clause)) (Some (replicate 16 0)) 64 ?h2 =
      Some ((ERR_NONE, Some ws), h')" "regs h' = snd (rd 0 1 rc)"
    using read_window [OF ff, of "0x2200 + 16 * clause" ?h2] c h2 ws [symmetric] by auto
  have "length ws = 16" using ff ws by (simp add: fpga_file_def) (metis fst_conv)
  moreover have "unat sz \<le> 32" using sz(1) by (simp add: word_le_nat_alt)
  moreover have "clause * 32 div 2 = 16 * clause" by simp
  moreover have "w = clause_word slot addr (word_of_int (0x400 + clause * 32))"
    using w by (simp add: mult.commute)
  ultimately have "pxm_fpga_rm_rt_rd dev fd clause slot addr (Some ps) sz nocheck h =
      Some (0, Some (take (unat sz) (halves ws) @ drop (unat sz) ps), h')"
    using c h'(1) sz(2) unfolding pxm_fpga_rm_rt_rd_def Let_def register_consts
    by (simp only: unpack_halves bind.simps option.case prod.case if_False) simp
  with f h'(2) c show ?thesis by simp
qed

theorem realtime_read_refines_witness:
  "clause_fields (clause_word 2 0x11 0x400) = (2, 0x11, 5, 0x400, 31) \<and>
   (\<exists>h'. pxm_fpga_rm_rt_rd reg_file 3 0 2 0x11 (Some [7, 7]) 1 False
      (\<lambda>a. if a = 0x2200 then 0x20001 else 0, 0) = Some (0, Some [1, 7], h') \<and>
      fst h' 0x2020 = clause_word 2 0x11 0x400)"
proof -
  let ?w = "clause_word 2 0x11 0x400"
  let ?r = "(\<lambda>a :: u32. if a = 0x2200 then 0x20001 else (0 :: u32))(0x2020 := ?w)"
  let ?ws = "[0x20001, 0, 0, 0, 0, 0, 0, 0, 0, 0, 0, 0, 0, 0, 0, 0] :: u32 list"
  have w: "(map (\<lambda>i. ?r (0x2200 + of_nat i)) [0..<16], ?r) = plain_rd 0x2200 16 ?r"
    by (simp add: plain_rd_def)
  have u: "(131073 :: u16) = 1" by simp
  have v: "map (\<lambda>i. ?r (0x2200 + of_nat i)) [0..<16] = ?ws" by (simp add: upt_rec)
  show ?thesis
    using realtime_read_refines [OF reg_file_fpga, where clause = 0 and slot = 2 and addr = "0x11" and w = ?w
        and sz = 1 and ps = "[7, 7]" and h = "(\<lambda>a. if a = 0x2200 then 0x20001 else 0, 0)" and ra = ?r
        and rb = ?r and rc = ?r and nocheck = False and ws = ?ws] w [unfolded v]
    by (auto simp: halves_def u)
qed

section \<open>Enabling\<close>

text \<open>
  Enabling a clause reads its enable register until the lower half is clear, at most 1001 times,
  and then writes the bit of the clause there, whether the register is clear or not. The check of
  the argument lets clause 128 through, which is none: it writes register \<open>0x2048\<close>, behind the
  eight enable registers.
\<close>

theorem clause_enable:
  assumes ff: "fpga_file dev fd pos regs rd wr" and c: "0 \<le> clause" "clause \<le> 128"
  shows "\<exists>h'. pxm_fpga_rm_cr_en dev fd clause h = Some (ERR_NONE, h') \<and>
    regs h' = wr (0x2040 + word_of_int (clause div 16)) (push_bit (nat (clause mod 16)) 1)
      (poll_reg rd (0x2040 + word_of_int (clause div 16)) (\<lambda>d. d AND 0xffff = 0) 1000 (regs h))"
proof -
  have s: "clause sdiv 16 = clause div 16" "clause smod 16 = clause mod 16"
    using c by (simp_all add: signed_divide_int_def signed_modulo_int_def sgn_if minus_div_mult_eq_mod)
  have u: "ucast (word_of_int (0x2040 + clause div 16) :: u16) = (0x2040 + word_of_int (clause div 16) :: u32)"
    using c ucast_addr [of "0x2040 + clause div 16"] by simp
  let ?a = "word_of_int (0x2040 + clause div 16) :: u16"
  let ?h = "snd (wait_reg dev fd ?a (\<lambda>d. d AND 0xffff = 0) 1000 (junk dev) h)"
  let ?p = "pxm_fpga_lc_wr dev fd ?a (push_bit (nat (clause mod 16)) 1) ?h"
  have "pxm_fpga_rm_cr_en dev fd clause h = Some ?p"
    using c s by (simp add: pxm_fpga_rm_cr_en_def FPGA_CR_CLAU_def FPGA_CR_EN_ADDR_def split_beta Let_def)
  also have "?p = (ERR_NONE, snd ?p)" using lc_wr_regs(1) [OF ff] by (simp add: prod_eq_iff)
  finally show ?thesis
    using u unfolding lc_wr_regs(2) [OF ff] wait_reg_regs [OF ff]
    by (intro exI [of _ "snd ?p"]) (simp only: lc_wr_regs(2) [OF ff] wait_reg_regs [OF ff] simp_thms)
qed

theorem clause_enable_witness:
  "\<exists>h'. pxm_fpga_rm_cr_en reg_file 3 128 (\<lambda>a. 0, 0) = Some (ERR_NONE, h') \<and> fst h' 0x2048 = 1"
  using clause_enable [OF reg_file_fpga, of 128 "(\<lambda>a. 0, 0)"] by auto

lemma unpack_none:
  assumes "\<And>ws. length ws = 16 \<Longrightarrow> unpack ws 0 n ps = None"
  shows "do { ((_, data), h) \<leftarrow> pxm_fpga_lc_rd_len dev fd a (Some (replicate 16 0)) 64 h;
      data \<leftarrow> data; ps \<leftarrow> unpack data 0 n ps; Some (f ps h) } = None"
  using lc_rd_len_16 [of dev fd a h] assms by auto

text \<open>
  A real-time read does not bound its size: whatever the device does, a call for more than 32
  registers leaves the buffer of the library, and one for more than the caller's buffer holds leaves
  that.
\<close>

theorem realtime_read_unbounded:
  assumes "0 \<le> clause" "clause < 32" "32 < sz \<or> length ps < unat sz"
  shows "pxm_fpga_rm_rt_rd dev fd clause slot addr (Some ps) sz nocheck h = None"
proof -
  have n: "\<not> unat sz \<le> 32 \<or> \<not> unat sz \<le> length ps" "unat sz \<noteq> 0"
    using assms(3) by (auto simp: word_less_nat_alt)
  have "unpack ws 0 (unat sz) ps = None" if "length ws = 16" for ws
    using n that by (auto simp: unpack_eq)
  note none = unpack_none [of "unat sz" ps, OF this, where f = "\<lambda>ps h. (0, Some ps, h)"]
  show ?thesis
    using assms(1,2) by (simp add: pxm_fpga_rm_rt_rd_def FPGA_RT_CLAU_def none Let_def)
qed

theorem realtime_read_unbounded_witness:
  "pxm_fpga_rm_rt_rd reg_file 3 0 1 0 (Some (replicate 40 0)) 33 True (\<lambda>a. 0, 0) = None"
  by (rule realtime_read_unbounded) simp_all

end
