(* ===== verification/Mdio.thy ===== *)
theory Mdio
  imports H2000_Prelude
begin

text \<open>
  The MII management bus (\<open>drivers/net/fsl_pq_mdio.c\<close>, \<open>drivers/net/fsl_pq_mdio.h\<close>): accesses to
  the registers of a PHY with their waits for the controller, the reset of the bus, and the search
  for a free address. The controller is a record of its two register accesses, with the pins that
  select a switch, over a state \<open>'h\<close>. The waits of the accesses have no bound: not returning is
  \<^term>\<open>None\<close>.
\<close>

section \<open>The controller\<close>

datatype mdio_reg = Miimcfg | Miimcom | Miimadd | Miimcon | Miimstat | Miimind

record 'h mdio_hw =
  md_in :: "mdio_reg \<Rightarrow> 'h \<Rightarrow> u32 \<times> 'h"
  md_out :: "mdio_reg \<Rightarrow> u32 \<Rightarrow> 'h \<Rightarrow> 'h"
  md_gpio :: "nat \<Rightarrow> bool \<Rightarrow> 'h \<Rightarrow> 'h"

definition MIIMIND_BUSY :: u32 where "MIIMIND_BUSY = 1"
definition MIIMIND_NOTVALID :: u32 where "MIIMIND_NOTVALID = 4"
definition MIIMCFG_INIT_VALUE :: u32 where "MIIMCFG_INIT_VALUE = 7"
definition MIIMCFG_RESET :: u32 where "MIIMCFG_RESET = 0x80000000"
definition MII_READ_COMMAND :: u32 where "MII_READ_COMMAND = 1"

lemmas miim_consts [register_consts] = MIIMIND_BUSY_def MIIMIND_NOTVALID_def MIIMCFG_INIT_VALUE_def MIIMCFG_RESET_def
  MII_READ_COMMAND_def

section \<open>Accesses\<close>

partial_function (option) wait_ind :: "'h mdio_hw \<Rightarrow> u32 \<Rightarrow> 'h \<Rightarrow> 'h option" where
  "wait_ind md flags h =
     (case md_in md Miimind h of (v, h) \<Rightarrow> if v AND flags \<noteq> 0 then wait_ind md flags h else Some h)"

definition fsl_pq_local_mdio_write :: "'h mdio_hw \<Rightarrow> u32 \<Rightarrow> u32 \<Rightarrow> u16 \<Rightarrow> 'h \<Rightarrow> (int \<times> 'h) option" where
  "fsl_pq_local_mdio_write md mii_id regnum val h =
     (let h = md_out md Miimadd (push_bit 8 mii_id OR regnum) h;
          h = md_out md Miimcon (ucast val) h
      in do { h \<leftarrow> wait_ind md MIIMIND_BUSY h; Some (0, h) })"

definition fsl_pq_local_mdio_read :: "'h mdio_hw \<Rightarrow> u32 \<Rightarrow> u32 \<Rightarrow> 'h \<Rightarrow> (int \<times> 'h) option" where
  "fsl_pq_local_mdio_read md mii_id regnum h =
     (let h = md_out md Miimadd (push_bit 8 mii_id OR regnum) h;
          h = md_out md Miimcom 0 h;
          h = md_out md Miimcom MII_READ_COMMAND h
      in do {
           h \<leftarrow> wait_ind md (MIIMIND_NOTVALID OR MIIMIND_BUSY) h;
           let (v, h) = md_in md Miimstat h;
           Some (uint (ucast v :: u16), h)
         })"

text \<open>The operations of the bus, on the registers that are its private data.\<close>

definition fsl_pq_mdio_write :: "'h mdio_hw \<Rightarrow> u32 \<Rightarrow> u32 \<Rightarrow> u16 \<Rightarrow> 'h \<Rightarrow> (int \<times> 'h) option" where
  "fsl_pq_mdio_write regs mii_id regnum val h = fsl_pq_local_mdio_write regs mii_id regnum val h"

definition fsl_pq_mdio_read :: "'h mdio_hw \<Rightarrow> u32 \<Rightarrow> u32 \<Rightarrow> 'h \<Rightarrow> (int \<times> 'h) option" where
  "fsl_pq_mdio_read regs mii_id regnum h = fsl_pq_local_mdio_read regs mii_id regnum h"

section \<open>Reset\<close>

definition PHY_INIT_TIMEOUT :: nat where "PHY_INIT_TIMEOUT = 100000"

text \<open>The wait of the reset: what is left of the counter, \<open>- 1\<close> after the last read.\<close>

fun reset_wait :: "'h mdio_hw \<Rightarrow> nat \<Rightarrow> 'h \<Rightarrow> int \<times> 'h" where
  "reset_wait md 0 h =
     (case md_in md Miimind h of (v, h) \<Rightarrow> (if v AND MIIMIND_BUSY \<noteq> 0 then - 1 else 0, h))"
| "reset_wait md (Suc timeout) h =
     (case md_in md Miimind h of
        (v, h) \<Rightarrow> if v AND MIIMIND_BUSY \<noteq> 0 then reset_wait md timeout h else (int (Suc timeout), h))"

definition fsl_pq_mdio_reset :: "'h mdio_hw \<Rightarrow> 'h \<Rightarrow> int \<times> 'h" where
  "fsl_pq_mdio_reset regs h =
     (let h = md_out regs Miimcfg MIIMCFG_RESET h;
          h = md_out regs Miimcfg MIIMCFG_INIT_VALUE h;
          (timeout, h) = reset_wait regs PHY_INIT_TIMEOUT h
      in if timeout < 0 then (- EBUSY, h) else (0, h))"

section \<open>The search for a free address\<close>

definition MII_PHYSID1 :: u32 where "MII_PHYSID1 = 2"
definition MII_PHYSID2 :: u32 where "MII_PHYSID2 = 3"
definition PHY_MAX_ADDR :: nat where "PHY_MAX_ADDR = 32"

definition get_phy_id :: "'h mdio_hw \<Rightarrow> u32 \<Rightarrow> u32 \<Rightarrow> 'h \<Rightarrow> (int \<times> u32 \<times> 'h) option" where
  "get_phy_id bus addr phy_id h =
     do {
       (phy_reg, h) \<leftarrow> fsl_pq_mdio_read bus addr MII_PHYSID1 h;
       if phy_reg < 0 then Some (- EIO, phy_id, h)
       else do {
         let phy_id = push_bit 16 (word_of_int phy_reg AND 0xffff);
         (phy_reg, h) \<leftarrow> fsl_pq_mdio_read bus addr MII_PHYSID2 h;
         if phy_reg < 0 then Some (- EIO, phy_id, h)
         else Some (0, phy_id OR (word_of_int phy_reg AND 0xffff), h)
       }
     }"

text \<open>Comparing names without regard to case, with the kernel's table of letters.\<close>

definition tolower :: "char \<Rightarrow> char" where
  "tolower c =
     (let n = of_char c :: nat
      in if 65 \<le> n \<and> n \<le> 90 \<or> 192 \<le> n \<and> n \<le> 222 \<and> n \<noteq> 215 then char_of (n + 32) else c)"

definition strcasecmp_eq :: "string \<Rightarrow> string \<Rightarrow> bool" where
  "strcasecmp_eq s t \<longleftrightarrow> map tolower s = map tolower t"

text \<open>The loop from address \<open>i\<close> down to 1.\<close>

fun find_free_from :: "'h mdio_hw \<Rightarrow> string \<Rightarrow> nat \<Rightarrow> u32 \<Rightarrow> 'h \<Rightarrow> (int \<times> 'h) option" where
  "find_free_from bus name 0 phy_id h = Some (0, h)"
| "find_free_from bus name (Suc i) phy_id h =
     do {
       (r, phy_id, h) \<leftarrow> get_phy_id bus (of_nat (Suc i)) phy_id h;
       if r \<noteq> 0 then Some (- 1, h)
       else if strcasecmp_eq name ''mdio@ffe26000'' \<and> Suc i = 2 then Some (int (Suc i), h)
       else if phy_id = 0xffffffff then Some (int (Suc i), h)
       else find_free_from bus name i phy_id h
     }"

definition fsl_pq_mdio_find_free :: "'h mdio_hw \<Rightarrow> string \<Rightarrow> 'h \<Rightarrow> (int \<times> 'h) option" where
  "fsl_pq_mdio_find_free bus name h = find_free_from bus name PHY_MAX_ADDR 0 h"

section \<open>The PHYs behind the controller\<close>

text \<open>
  The PHYs of a bus: reading and writing a register, and the pins that choose among switches that
  share the bus.
\<close>

record 'p phys =
  ph_rd :: "u32 \<Rightarrow> u32 \<Rightarrow> 'p \<Rightarrow> u16 \<times> 'p"
  ph_wr :: "u32 \<Rightarrow> u32 \<Rightarrow> u16 \<Rightarrow> 'p \<Rightarrow> 'p"
  ph_gpio :: "nat \<Rightarrow> bool \<Rightarrow> 'p \<Rightarrow> 'p"

text \<open>What is visible of the controller: whether it is idle and its last read is valid, its
  registers, how many polls it may still be busy, and the PHYs.\<close>

record ('h, 'p) mdio_view =
  mv_idle :: "'h \<Rightarrow> bool"
  mv_valid :: "'h \<Rightarrow> bool"
  mv_com :: "'h \<Rightarrow> u32"
  mv_add :: "'h \<Rightarrow> u32"
  mv_stat :: "'h \<Rightarrow> u16"
  mv_left :: "'h \<Rightarrow> nat"
  mv_phys :: "'h \<Rightarrow> 'p"

definition phy_of :: "u32 \<Rightarrow> u32" where "phy_of a = drop_bit 8 a AND 0x1f"
definition reg_of :: "u32 \<Rightarrow> u32" where "reg_of a = a AND 0x1f"

text \<open>
  The controller, as its manual has it: an idle controller takes an address; a value starts a
  write, a read command after a cleared one starts a read; the indicators say when it is done,
  which they do in the end, and nothing is promised of an access to a busy controller.
\<close>

definition mdio_contract :: "'h mdio_hw \<Rightarrow> ('h, 'p) mdio_view \<Rightarrow> 'p phys \<Rightarrow> bool" where
  "mdio_contract md vw ph \<longleftrightarrow>
     (\<forall>a h. mv_idle vw h \<longrightarrow>
        (let h' = md_out md Miimadd a h
         in mv_idle vw h' \<and> mv_add vw h' = a \<and> mv_phys vw h' = mv_phys vw h)) \<and>
     (\<forall>v h. mv_idle vw h \<longrightarrow>
        mv_phys vw (md_out md Miimcon v h) =
          ph_wr ph (phy_of (mv_add vw h)) (reg_of (mv_add vw h)) (ucast v) (mv_phys vw h)) \<and>
     (\<forall>h. mv_idle vw h \<longrightarrow>
        (let h' = md_out md Miimcom 0 h
         in mv_idle vw h' \<and> mv_com vw h' = 0 \<and> mv_add vw h' = mv_add vw h \<and> mv_phys vw h' = mv_phys vw h)) \<and>
     (\<forall>h. mv_idle vw h \<longrightarrow> mv_com vw h = 0 \<longrightarrow>
        (let h' = md_out md Miimcom 1 h
         in (mv_stat vw h', mv_phys vw h') =
              ph_rd ph (phy_of (mv_add vw h)) (reg_of (mv_add vw h)) (mv_phys vw h))) \<and>
     (\<forall>h. mv_phys vw (snd (md_in md Miimind h)) = mv_phys vw h \<and>
          mv_stat vw (snd (md_in md Miimind h)) = mv_stat vw h \<and>
          (fst (md_in md Miimind h) AND 1 = 0 \<longrightarrow> mv_idle vw (snd (md_in md Miimind h))) \<and>
          (fst (md_in md Miimind h) AND 5 = 0 \<longrightarrow> mv_valid vw (snd (md_in md Miimind h))) \<and>
          (fst (md_in md Miimind h) AND 5 \<noteq> 0 \<longrightarrow> mv_left vw (snd (md_in md Miimind h)) < mv_left vw h)) \<and>
     (\<forall>h. mv_idle vw h \<longrightarrow> mv_valid vw h \<longrightarrow>
        ucast (fst (md_in md Miimstat h)) = mv_stat vw h \<and> mv_idle vw (snd (md_in md Miimstat h)) \<and>
        mv_phys vw (snd (md_in md Miimstat h)) = mv_phys vw h) \<and>
     (\<forall>n b h. mv_idle vw h \<longrightarrow>
        mv_idle vw (md_gpio md n b h) \<and> mv_phys vw (md_gpio md n b h) = ph_gpio ph n b (mv_phys vw h))"

lemma contract_ind:
  assumes "mdio_contract md vw ph" "md_in md Miimind h = (v, h')"
  shows "mv_phys vw h' = mv_phys vw h" "mv_stat vw h' = mv_stat vw h" "v AND 1 = 0 \<Longrightarrow> mv_idle vw h'"
    "v AND 5 = 0 \<Longrightarrow> mv_valid vw h'" "v AND 5 \<noteq> 0 \<Longrightarrow> mv_left vw h' < mv_left vw h"
proof -
  note ind = assms(1) [unfolded mdio_contract_def, THEN conjunct2, THEN conjunct2, THEN conjunct2, THEN conjunct2,
      THEN conjunct1, THEN spec, of h, unfolded assms(2) fst_conv snd_conv]
  show "mv_phys vw h' = mv_phys vw h" "mv_stat vw h' = mv_stat vw h" "v AND 1 = 0 \<Longrightarrow> mv_idle vw h'"
    "v AND 5 = 0 \<Longrightarrow> mv_valid vw h'" "v AND 5 \<noteq> 0 \<Longrightarrow> mv_left vw h' < mv_left vw h"
    using ind by simp_all
qed

lemma contract_out:
  assumes "mdio_contract md vw ph" "mv_idle vw h"
  shows "mv_idle vw (md_out md Miimadd a h)" "mv_add vw (md_out md Miimadd a h) = a"
    "mv_phys vw (md_out md Miimadd a h) = mv_phys vw h"
    "mv_phys vw (md_out md Miimcon v h) =
       ph_wr ph (phy_of (mv_add vw h)) (reg_of (mv_add vw h)) (ucast v) (mv_phys vw h)"
    "mv_idle vw (md_out md Miimcom 0 h)" "mv_com vw (md_out md Miimcom 0 h) = 0"
    "mv_add vw (md_out md Miimcom 0 h) = mv_add vw h" "mv_phys vw (md_out md Miimcom 0 h) = mv_phys vw h"
    "mv_com vw h = 0 \<Longrightarrow> (mv_stat vw (md_out md Miimcom 1 h), mv_phys vw (md_out md Miimcom 1 h)) =
       ph_rd ph (phy_of (mv_add vw h)) (reg_of (mv_add vw h)) (mv_phys vw h)"
    "mv_idle vw (md_gpio md n b h)" "mv_phys vw (md_gpio md n b h) = ph_gpio ph n b (mv_phys vw h)"
  using assms by (simp_all add: mdio_contract_def Let_def)

lemma contract_stat:
  assumes "mdio_contract md vw ph" "mv_idle vw h" "mv_valid vw h" "md_in md Miimstat h = (v, h')"
  shows "ucast v = mv_stat vw h" "mv_idle vw h'" "mv_phys vw h' = mv_phys vw h"
proof -
  note st = assms(1) [unfolded mdio_contract_def, THEN conjunct2, THEN conjunct2, THEN conjunct2, THEN conjunct2,
      THEN conjunct2, THEN conjunct1, THEN spec, of h, THEN mp, OF assms(2), THEN mp, OF assms(3),
      unfolded assms(4) fst_conv snd_conv]
  show "ucast v = mv_stat vw h" "mv_idle vw h'" "mv_phys vw h' = mv_phys vw h"
    using st by simp_all
qed

text \<open>The waits end, and with the state of the controller that they wait for.\<close>

lemma wait_ind_ends:
  assumes c: "mdio_contract md vw ph" and f: "flags = 1 \<or> flags = 5"
  shows "\<exists>h'. wait_ind md flags h = Some h' \<and> mv_phys vw h' = mv_phys vw h \<and>
    mv_stat vw h' = mv_stat vw h \<and> mv_idle vw h' \<and> (flags = 5 \<longrightarrow> mv_valid vw h')"
proof (induction "mv_left vw h" arbitrary: h rule: less_induct)
  case less
  obtain v h1 where v: "md_in md Miimind h = (v, h1)" by fastforce
  have z: "v AND 1 = 0" if "v AND 5 = 0"
  proof -
    have "v AND 1 = (v AND 5) AND 1" by (simp add: and.assoc)
    then show ?thesis using that by simp
  qed
  show ?case
  proof (cases "v AND flags = 0")
    case True
    then have "wait_ind md flags h = Some h1" using v by (subst wait_ind.simps) simp
    then show ?thesis using contract_ind [OF c v] True f z by auto
  next
    case False
    then have w: "wait_ind md flags h = wait_ind md flags h1" using v by (subst wait_ind.simps) simp
    have "v AND 5 \<noteq> 0" using False f z by auto
    then have "mv_left vw h1 < mv_left vw h" by (rule contract_ind(5) [OF c v])
    from less [OF this] show ?thesis using w contract_ind(1,2) [OF c v] by simp
  qed
qed

lemma mdio_fields:
  assumes "mii_id < 32" "regnum < 32"
  shows "phy_of (push_bit 8 mii_id OR regnum) = mii_id" "reg_of (push_bit 8 mii_id OR regnum) = regnum"
proof -
  have b: "bit w n \<Longrightarrow> n < 5" if "w < 32" for w :: u32 and n
    using small_bit [of w 5 n] that by (simp add: word_less_nat_alt)
  have m: "(0x1f :: u32) = mask 5" by (simp add: mask_numeral)
  show "phy_of (push_bit 8 mii_id OR regnum) = mii_id"
    unfolding phy_of_def m by (rule bit_word_eqI) (auto simp: bit_simps dest: b [OF assms(1)] b [OF assms(2)])
  show "reg_of (push_bit 8 mii_id OR regnum) = regnum"
    unfolding reg_of_def m by (rule bit_word_eqI) (auto simp: bit_simps dest: b [OF assms(1)] b [OF assms(2)])
qed

lemma ucast_u16_u32 [simp]: "ucast (ucast w :: u32) = (w :: u16)"
  by (rule bit_word_eqI) (simp add: bit_simps)

lemma mdio_write_phys:
  assumes c: "mdio_contract md vw ph" and i: "mv_idle vw h" and r: "mii_id < 32" "regnum < 32"
  shows "\<exists>h'. fsl_pq_local_mdio_write md mii_id regnum val h = Some (0, h') \<and> mv_idle vw h' \<and>
    mv_phys vw h' = ph_wr ph mii_id regnum val (mv_phys vw h)"
proof -
  let ?h1 = "md_out md Miimadd (push_bit 8 mii_id OR regnum) h"
  let ?h2 = "md_out md Miimcon (ucast val) ?h1"
  note o1 = contract_out [OF c i]
  have "mv_phys vw ?h2 = ph_wr ph mii_id regnum (ucast (ucast val :: u32)) (mv_phys vw h)"
    using contract_out(4) [OF c o1(1) [of "push_bit 8 mii_id OR regnum"]] o1(2,3) mdio_fields [OF r] by simp
  then have p: "mv_phys vw ?h2 = ph_wr ph mii_id regnum val (mv_phys vw h)"
    by simp
  show ?thesis
    using wait_ind_ends [OF c, of 1 ?h2] p by (auto simp: fsl_pq_local_mdio_write_def MIIMIND_BUSY_def Let_def)
qed

lemma mdio_read_field:
  assumes c: "mdio_contract md vw ph" and i: "mv_idle vw h"
    and a: "phy = phy_of (push_bit 8 mii_id OR regnum)" "r = reg_of (push_bit 8 mii_id OR regnum)"
  shows "\<exists>h'. fsl_pq_local_mdio_read md mii_id regnum h =
      Some (uint (fst (ph_rd ph phy r (mv_phys vw h))), h') \<and> mv_idle vw h' \<and>
    mv_phys vw h' = snd (ph_rd ph phy r (mv_phys vw h))"
proof -
  let ?h1 = "md_out md Miimadd (push_bit 8 mii_id OR regnum) h"
  let ?h2 = "md_out md Miimcom 0 ?h1"
  let ?h3 = "md_out md Miimcom 1 ?h2"
  note o1 = contract_out [OF c i]
  note o2 = contract_out [OF c o1(1) [of "push_bit 8 mii_id OR regnum"]]
  note o3 = contract_out(9) [OF c o2(5) o2(6)]
  have s: "(mv_stat vw ?h3, mv_phys vw ?h3) = ph_rd ph phy r (mv_phys vw h)"
    using o3 o2(7,8) o1(2,3) a by simp
  obtain h4 where h4: "wait_ind md 5 ?h3 = Some h4" "mv_phys vw h4 = mv_phys vw ?h3"
      "mv_stat vw h4 = mv_stat vw ?h3" "mv_idle vw h4" "mv_valid vw h4"
    using wait_ind_ends [OF c, of 5 ?h3] by auto
  obtain v h5 where h5: "md_in md Miimstat h4 = (v, h5)" by fastforce
  have "fsl_pq_local_mdio_read md mii_id regnum h = Some (uint (ucast v :: u16), h5)"
    using h4(1) h5 by (simp add: fsl_pq_local_mdio_read_def register_consts Let_def)
  then show ?thesis
    using contract_stat [OF c h4(4,5) h5] h4 s by (metis fst_conv snd_conv)
qed

lemma mdio_read_phys:
  assumes "mdio_contract md vw ph" "mv_idle vw h" "mii_id < 32" "regnum < 32"
  shows "\<exists>h'. fsl_pq_local_mdio_read md mii_id regnum h =
      Some (uint (fst (ph_rd ph mii_id regnum (mv_phys vw h))), h') \<and> mv_idle vw h' \<and>
    mv_phys vw h' = snd (ph_rd ph mii_id regnum (mv_phys vw h))"
  by (rule mdio_read_field [OF assms(1,2)]) (simp_all add: mdio_fields [OF assms(3,4)])

end
