(* ===== verification/Bcm53101.thy ===== *)
theory Bcm53101
  imports Mdio Uaccess
begin

text \<open>
  The driver of the BCM53101 switches (\<open>drivers/drv_bcm53101/newdrv/drv_bcm53101.c\<close>) and the part
  of the bus driver that sets up the switch of the outband port at boot (\<open>drivers/net/fsl_pq_mdio.c\<close>).
  The registers of a switch are reached by page and address over a PHY that stands for it; the
  ports have PHYs of their own. \<open>preg\<close> is the controller of the bus, \<^term>\<open>None\<close> before it is
  there.
\<close>

section \<open>Registers of a PHY\<close>

definition PSEPHY_ACCESS_CTRL :: u16 where "PSEPHY_ACCESS_CTRL = 16"
definition PSEPHY_RDWR_CTRL :: u16 where "PSEPHY_RDWR_CTRL = 17"
definition PSEPHY_ACCESS_REG1 :: u16 where "PSEPHY_ACCESS_REG1 = 24"
definition PSEPHY_ACCESS_REG2 :: u16 where "PSEPHY_ACCESS_REG2 = 25"
definition PSEPHY_ACCESS_REG3 :: u16 where "PSEPHY_ACCESS_REG3 = 26"
definition PSEPHY_ACCESS_REG4 :: u16 where "PSEPHY_ACCESS_REG4 = 27"
definition PSEDOPHY :: u32 where "PSEDOPHY = 30"
definition ACCESS_EN :: u16 where "ACCESS_EN = 1"
definition OPER_RD :: u16 where "OPER_RD = 2"
definition OPER_WR :: u16 where "OPER_WR = 1"

lemmas psephy_consts [register_consts] = PSEPHY_ACCESS_CTRL_def PSEPHY_RDWR_CTRL_def PSEPHY_ACCESS_REG1_def
  PSEPHY_ACCESS_REG2_def PSEPHY_ACCESS_REG3_def PSEPHY_ACCESS_REG4_def PSEDOPHY_def ACCESS_EN_def
  OPER_RD_def OPER_WR_def

type_synonym 'h preg = "'h mdio_hw option"
type_synonym val4 = "u16 \<times> u16 \<times> u16 \<times> u16"

definition bcm53101_get_preg :: "'h preg \<Rightarrow> 'h preg \<Rightarrow> int \<times> 'h preg" where
  "bcm53101_get_preg preg upreg = (if preg = None then (- 1, upreg) else (0, preg))"

definition fsl_mdio_write :: "'h preg \<Rightarrow> u32 \<Rightarrow> u16 \<Rightarrow> u16 \<Rightarrow> 'h \<Rightarrow> (int \<times> 'h) option" where
  "fsl_mdio_write preg mii_id addr val h =
     (case preg of
        None \<Rightarrow> Some (- 1, h)
      | Some md \<Rightarrow> fsl_pq_local_mdio_write md mii_id (ucast addr) val h)"

text \<open>The result has the value of the variable the read fills.\<close>

definition fsl_mdio_read :: "'h preg \<Rightarrow> u32 \<Rightarrow> u16 \<Rightarrow> u16 \<Rightarrow> 'h \<Rightarrow> (int \<times> u16 \<times> 'h) option" where
  "fsl_mdio_read preg mii_id addr val h =
     (case preg of
        None \<Rightarrow> Some (- 1, val, h)
      | Some md \<Rightarrow>
          do { (ret, h) \<leftarrow> fsl_pq_local_mdio_read md mii_id (ucast addr) h;
               Some (0, word_of_int ret AND 0xffff, h) })"

definition bcm_fsl_mdio_write :: "'h preg \<Rightarrow> u32 \<Rightarrow> u16 \<Rightarrow> u16 \<Rightarrow> 'h \<Rightarrow> (int \<times> 'h) option" where
  "bcm_fsl_mdio_write preg mii_id addr val h =
     (case preg of
        None \<Rightarrow> Some (- 1, h)
      | Some md \<Rightarrow> fsl_pq_local_mdio_write md mii_id (ucast addr) val h)"

definition bcm_fsl_mdio_read :: "'h preg \<Rightarrow> u32 \<Rightarrow> u16 \<Rightarrow> u16 \<Rightarrow> 'h \<Rightarrow> (int \<times> u16 \<times> 'h) option" where
  "bcm_fsl_mdio_read preg mii_id addr val h =
     (case preg of
        None \<Rightarrow> Some (- 1, val, h)
      | Some md \<Rightarrow>
          do { (ret, h) \<leftarrow> fsl_pq_local_mdio_read md mii_id (ucast addr) h;
               Some (0, word_of_int ret AND 0xffff, h) })"

section \<open>Registers of a switch\<close>

definition port_page :: "byte \<Rightarrow> bool" where
  "port_page page \<longleftrightarrow> 0x10 \<le> page \<and> page \<le> 0x14 \<or> page = 0x17"

text \<open>The wait after a command to the switch: at most as many reads as the counter says.\<close>

fun wr_wait :: "'h preg \<Rightarrow> nat \<Rightarrow> u16 \<Rightarrow> 'h \<Rightarrow> (u16 \<times> 'h) option" where
  "wr_wait preg 0 val h = Some (val, h)"
| "wr_wait preg (Suc s_count) val h =
     do { (r, val, h) \<leftarrow> fsl_mdio_read preg PSEDOPHY PSEPHY_RDWR_CTRL val h;
          if val AND 0x11 = 0 then Some (val, h) else wr_wait preg s_count val h }"

definition bcm53101_write :: "'h preg \<Rightarrow> byte \<Rightarrow> byte \<Rightarrow> val4 \<Rightarrow> 'h \<Rightarrow> (int \<times> 'h) option" where
  "bcm53101_write preg page addr v h =
     (case v of (v0, v1, v2, v3) \<Rightarrow>
        if port_page page then
          do { (r, h) \<leftarrow> fsl_mdio_write preg (ucast page - 0x10) (ucast (addr div 2)) v0 h; Some (0, h) }
        else
          do {
            (r, h) \<leftarrow> fsl_mdio_write preg PSEDOPHY PSEPHY_ACCESS_CTRL (push_bit 8 (ucast page) OR ACCESS_EN) h;
            (r, h) \<leftarrow> fsl_mdio_write preg PSEDOPHY PSEPHY_ACCESS_REG1 v0 h;
            (r, h) \<leftarrow> fsl_mdio_write preg PSEDOPHY PSEPHY_ACCESS_REG2 v1 h;
            (r, h) \<leftarrow> fsl_mdio_write preg PSEDOPHY PSEPHY_ACCESS_REG3 v2 h;
            (r, h) \<leftarrow> fsl_mdio_write preg PSEDOPHY PSEPHY_ACCESS_REG4 v3 h;
            let mdio_val = push_bit 8 (ucast addr) OR OPER_WR;
            (r, h) \<leftarrow> fsl_mdio_write preg PSEDOPHY PSEPHY_RDWR_CTRL mdio_val h;
            (mdio_val, h) \<leftarrow> wr_wait preg 0xffff mdio_val h;
            Some (0, h)
          })"

fun rd_wait :: "'h preg \<Rightarrow> nat \<Rightarrow> u16 \<Rightarrow> 'h \<Rightarrow> (u16 \<times> 'h) option" where
  "rd_wait preg 0 val h = Some (val, h)"
| "rd_wait preg (Suc s_count) val h =
     do { (r, val, h) \<leftarrow> fsl_mdio_read preg PSEDOPHY PSEPHY_RDWR_CTRL val h;
          if val AND 0x11 = 0 \<or> r \<noteq> 0 then Some (val, h) else rd_wait preg s_count val h }"

definition bcm53101_read :: "'h preg \<Rightarrow> byte \<Rightarrow> byte \<Rightarrow> 'h \<Rightarrow> (int \<times> val4 \<times> 'h) option" where
  "bcm53101_read preg page addr h =
     (if port_page page then
        do { (r, mdio_val, h) \<leftarrow> fsl_mdio_read preg (ucast page - 0x10) (ucast (addr div 2)) 0 h;
             Some (0, (mdio_val, 0, 0, 0), h) }
      else
        do {
          let setval = push_bit 8 (ucast page) OR ACCESS_EN;
          (r, h) \<leftarrow> fsl_mdio_write preg PSEDOPHY PSEPHY_ACCESS_CTRL setval h;
          let setval = push_bit 8 (ucast addr) OR OPER_RD;
          (r, h) \<leftarrow> fsl_mdio_write preg PSEDOPHY PSEPHY_RDWR_CTRL setval h;
          (setval, h) \<leftarrow> rd_wait preg 0xffff setval h;
          (r, v0, h) \<leftarrow> fsl_mdio_read preg PSEDOPHY PSEPHY_ACCESS_REG1 setval h;
          (r, v1, h) \<leftarrow> fsl_mdio_read preg PSEDOPHY PSEPHY_ACCESS_REG2 v0 h;
          (r, v2, h) \<leftarrow> fsl_mdio_read preg PSEDOPHY PSEPHY_ACCESS_REG3 v1 h;
          (r, v3, h) \<leftarrow> fsl_mdio_read preg PSEDOPHY PSEPHY_ACCESS_REG4 v2 h;
          Some (if r \<noteq> 0 then - 1 else 0, (v0, v1, v2, v3), h)
        })"

section \<open>The device file\<close>

text \<open>The request of a call, ten bytes: page, address and four values.\<close>

definition req_page :: "byte list \<Rightarrow> byte" where "req_page bs = bs ! 0"
definition req_addr :: "byte list \<Rightarrow> byte" where "req_addr bs = bs ! 1"
definition req_val :: "byte list \<Rightarrow> val4" where
  "req_val bs = (of_be16 (bs ! 2) (bs ! 3), of_be16 (bs ! 4) (bs ! 5), of_be16 (bs ! 6) (bs ! 7), of_be16 (bs ! 8) (bs ! 9))"

fun be_val4 :: "val4 \<Rightarrow> byte list" where
  "be_val4 (a, b, c, d) = [hi8 a, lo8 a, hi8 b, lo8 b, hi8 c, lo8 c, hi8 d, lo8 d]"

fun of_wait :: "'a option \<Rightarrow> 'a kres" where
  "of_wait None = Blocked"
| "of_wait (Some x) = Done x"

text \<open>\<open>stack\<close> is what the request on the stack has before the copy, ten bytes.\<close>

definition bcm53101_fs_write ::
  "'h preg \<Rightarrow> byte list \<Rightarrow> u32 \<Rightarrow> u32 \<Rightarrow> user_mem \<Rightarrow> 'h \<Rightarrow> (int \<times> 'h) kres" where
  "bcm53101_fs_write preg stack buf count um h =
     kbind (of_opt (memcpy_at stack 0 (snd (copy_from_user_k um buf count)))) (\<lambda>bcmstru.
     kbind (of_wait (bcm53101_write preg (req_page bcmstru) (req_addr bcmstru) (req_val bcmstru) h)) (\<lambda>(r, h).
       Done (0, h)))"

definition bcm53101_fs_read ::
  "'h preg \<Rightarrow> byte list \<Rightarrow> u32 \<Rightarrow> u32 \<Rightarrow> user_mem \<Rightarrow> 'h \<Rightarrow> (int \<times> user_mem \<times> 'h) kres" where
  "bcm53101_fs_read preg stack buf count um h =
     kbind (of_opt (memcpy_at stack 0 (snd (copy_from_user_k um buf count)))) (\<lambda>bcmstru.
     kbind (of_wait (bcm53101_read preg (req_page bcmstru) (req_addr bcmstru) h)) (\<lambda>(r, v, h).
     kbind (of_opt (memcpy_at bcmstru 2 (be_val4 v))) (\<lambda>bcmstru.
       Done (0, snd (copy_to_user_k um buf bcmstru), h))))"

definition BCM53101_GPIO_SEL :: nat where "BCM53101_GPIO_SEL = 8"
definition BCM53101_GPIO_SEL1 :: nat where "BCM53101_GPIO_SEL1 = 13"

definition bcm53101_fs_ioctl :: "'h mdio_hw \<Rightarrow> u32 \<Rightarrow> 'h \<Rightarrow> int \<times> 'h" where
  "bcm53101_fs_ioctl hw cmd h =
     (if cmd = 0 then (0, md_gpio hw BCM53101_GPIO_SEL1 False (md_gpio hw BCM53101_GPIO_SEL False h))
      else if cmd = 1 then (0, md_gpio hw BCM53101_GPIO_SEL1 False (md_gpio hw BCM53101_GPIO_SEL True h))
      else if cmd = 2 then (0, md_gpio hw BCM53101_GPIO_SEL1 True (md_gpio hw BCM53101_GPIO_SEL True h))
      else (- EINVAL, h))"

section \<open>Setting up the switches\<close>

text \<open>The copy of the write that the bus driver has.\<close>

fun c_wr_wait :: "'h preg \<Rightarrow> nat \<Rightarrow> u16 \<Rightarrow> 'h \<Rightarrow> (u16 \<times> 'h) option" where
  "c_wr_wait preg 0 val h = Some (val, h)"
| "c_wr_wait preg (Suc s_count) val h =
     do { (r, val, h) \<leftarrow> bcm_fsl_mdio_read preg PSEDOPHY PSEPHY_RDWR_CTRL val h;
          if val AND 0x11 = 0 then Some (val, h) else c_wr_wait preg s_count val h }"

definition bcm53101_c_write :: "'h preg \<Rightarrow> byte \<Rightarrow> byte \<Rightarrow> val4 \<Rightarrow> 'h \<Rightarrow> (int \<times> 'h) option" where
  "bcm53101_c_write preg page addr v h =
     (case v of (v0, v1, v2, v3) \<Rightarrow>
        if port_page page then
          do { (r, h) \<leftarrow> bcm_fsl_mdio_write preg (ucast page - 0x10) (ucast (addr div 2)) v0 h; Some (0, h) }
        else
          do {
            (r, h) \<leftarrow> bcm_fsl_mdio_write preg PSEDOPHY PSEPHY_ACCESS_CTRL (push_bit 8 (ucast page) OR ACCESS_EN) h;
            (r, h) \<leftarrow> bcm_fsl_mdio_write preg PSEDOPHY PSEPHY_ACCESS_REG1 v0 h;
            (r, h) \<leftarrow> bcm_fsl_mdio_write preg PSEDOPHY PSEPHY_ACCESS_REG2 v1 h;
            (r, h) \<leftarrow> bcm_fsl_mdio_write preg PSEDOPHY PSEPHY_ACCESS_REG3 v2 h;
            (r, h) \<leftarrow> bcm_fsl_mdio_write preg PSEDOPHY PSEPHY_ACCESS_REG4 v3 h;
            let mdio_val = push_bit 8 (ucast addr) OR OPER_WR;
            (r, h) \<leftarrow> bcm_fsl_mdio_write preg PSEDOPHY PSEPHY_RDWR_CTRL mdio_val h;
            (mdio_val, h) \<leftarrow> c_wr_wait preg 0xffff mdio_val h;
            Some (0, h)
          })"

text \<open>Writes of one value each, one after the other.\<close>

fun c_writes :: "'h preg \<Rightarrow> (byte \<times> byte \<times> u16) list \<Rightarrow> 'h \<Rightarrow> 'h option" where
  "c_writes preg [] h = Some h"
| "c_writes preg ((page, addr, v) # ws) h =
     do { (r, h) \<leftarrow> bcm53101_c_write preg page addr (v, 0, 0, 0) h; c_writes preg ws h }"

fun bcm_writes :: "'h preg \<Rightarrow> (byte \<times> byte \<times> u16) list \<Rightarrow> 'h \<Rightarrow> 'h option" where
  "bcm_writes preg [] h = Some h"
| "bcm_writes preg ((page, addr, v) # ws) h =
     do { (r, h) \<leftarrow> bcm53101_write preg page addr (v, 0, 0, 0) h; bcm_writes preg ws h }"

definition BCM53101_C_init :: "'h mdio_hw \<Rightarrow> 'h preg \<Rightarrow> 'h \<Rightarrow> (int \<times> 'h) option" where
  "BCM53101_C_init hw preg h =
     (let h = md_gpio hw 5 False h; h = md_gpio hw 5 True h;
          h = md_gpio hw 8 True h; h = md_gpio hw 13 True h
      in do {
           h \<leftarrow> c_writes preg
             [(0, 0x12, 0x2012), (2, 0x00, 0x80), (0, 0x08, 0x1c), (2, 0x03, 0x00), (0, 0x0b, 0x03),
              (0, 0x0e, 0x8b), (0, 0x60, 0x03)] h;
           Some (0, h)
         })"

text \<open>The result has the module's own copy of the pointer to the controller.\<close>

definition bcm53101_cfg_init ::
  "'h mdio_hw \<Rightarrow> 'h preg \<Rightarrow> 'h preg \<Rightarrow> 'h \<Rightarrow> (int \<times> 'h preg \<times> 'h) option" where
  "bcm53101_cfg_init hw kpreg upreg h =
     (let (r, upreg) = bcm53101_get_preg kpreg upreg
      in if r \<noteq> 0 then Some (0, upreg, h)
         else
           (let h = md_gpio hw BCM53101_GPIO_SEL False h
            in do {
                 h \<leftarrow> bcm_writes upreg
                   [(2, 0x00, 0x80), (0, 0x08, 0x1c), (2, 0x03, 0x00), (0, 0x0e, 0x8b), (0, 0x60, 0x03)] h;
                 (r, v, h) \<leftarrow> bcm53101_read upreg 0 0x0b h;
                 h \<leftarrow> bcm_writes upreg [(0, 0x0b, 0x03)] h;
                 Some (0, upreg, h)
               }))"

text \<open>Loading the module, as far as the switches are concerned.\<close>

definition bcm53101_init ::
  "'h mdio_hw \<Rightarrow> 'h preg \<Rightarrow> 'h \<Rightarrow> (int \<times> 'h preg \<times> 'h) option" where
  "bcm53101_init hw kpreg h =
     (let h = md_gpio hw BCM53101_GPIO_SEL False h; h = md_gpio hw BCM53101_GPIO_SEL1 False h
      in do { (r, upreg, h) \<leftarrow> bcm53101_cfg_init hw kpreg None h; Some (0, upreg, h) })"

end
