(* ===== verification/Bcm53101_Proofs.thy ===== *)
theory Bcm53101_Proofs
  imports Bcm53101
begin

text \<open>
  The switch behind its pseudo-PHY, and what the driver does with it: a write reaches the register
  it names, a read returns the register only when the switch is done at the first look, and the
  request of the device file leaves the stack when the caller says so.
\<close>

section \<open>The switch\<close>

text \<open>
  The registers of the pseudo-PHY: page, command and data, the registers of the switch, and the
  number of looks at the command register for which the command is still running.
\<close>

record sw_view =
  sv_page :: u16
  sv_op :: u16
  sv_data :: val4
  sv_regs :: "byte \<Rightarrow> byte \<Rightarrow> val4"
  sv_run :: nat

definition sw_complete :: "sw_view \<Rightarrow> sw_view" where
  "sw_complete s =
     (let page = ucast (drop_bit 8 (sv_page s)); addr = ucast (drop_bit 8 (sv_op s));
          s' = (if sv_page s AND 1 = 0 then s
                else if sv_op s AND 3 = 1
                then s\<lparr>sv_regs := (sv_regs s)(page := (sv_regs s page)(addr := sv_data s))\<rparr>
                else if sv_op s AND 3 = 2 then s\<lparr>sv_data := sv_regs s page addr\<rparr>
                else s)
      in s'\<lparr>sv_run := 0\<rparr>)"

text \<open>Writing a register, for a command that runs for \<open>d\<close> looks, and reading one.\<close>

definition sw_out :: "u32 \<Rightarrow> u16 \<Rightarrow> nat \<Rightarrow> sw_view \<Rightarrow> sw_view" where
  "sw_out r v d s =
     (case sv_data s of (d0, d1, d2, d3) \<Rightarrow>
        if r = 16 then s\<lparr>sv_page := v\<rparr>
        else if r = 17 then
          (let s = s\<lparr>sv_op := v, sv_run := d\<rparr> in if d = 0 then sw_complete s else s)
        else if r = 24 then s\<lparr>sv_data := (v, d1, d2, d3)\<rparr>
        else if r = 25 then s\<lparr>sv_data := (d0, v, d2, d3)\<rparr>
        else if r = 26 then s\<lparr>sv_data := (d0, d1, v, d3)\<rparr>
        else s\<lparr>sv_data := (d0, d1, d2, v)\<rparr>)"

definition sw_tick :: "sw_view \<Rightarrow> sw_view" where
  "sw_tick s =
     (if sv_run s = 0 then s else if sv_run s = 1 then sw_complete s else s\<lparr>sv_run := sv_run s - 1\<rparr>)"

definition sw_in :: "u32 \<Rightarrow> sw_view \<Rightarrow> u16 \<times> sw_view" where
  "sw_in r s =
     (case sv_data s of (d0, d1, d2, d3) \<Rightarrow>
        if r = 17 then (if sv_run s = 0 then sv_op s AND NOT 3 else sv_op s, sw_tick s)
        else (if r = 24 then d0 else if r = 25 then d1 else if r = 26 then d2 else d3, s))"

text \<open>PHY 30 behaves like this; how long a command takes is up to the switch.\<close>

definition pseudo_phy :: "'p phys \<Rightarrow> ('p \<Rightarrow> sw_view) \<Rightarrow> ('p \<Rightarrow> nat) \<Rightarrow> bool" where
  "pseudo_phy ph sv delay \<longleftrightarrow>
     (\<forall>r v p. r \<in> set [16, 17, 24, 25, 26, 27] \<longrightarrow> sv_run (sv p) = 0 \<longrightarrow>
        sv (ph_wr ph 30 r v p) = sw_out r v (delay p) (sv p)) \<and>
     (\<forall>r p. r \<in> set [17, 24, 25, 26, 27] \<longrightarrow>
        fst (ph_rd ph 30 r p) = fst (sw_in r (sv p)) \<and> sv (snd (ph_rd ph 30 r p)) = snd (sw_in r (sv p)))"

definition switch_bus ::
  "'h mdio_hw \<Rightarrow> ('h, 'p) mdio_view \<Rightarrow> 'p phys \<Rightarrow> ('p \<Rightarrow> sw_view) \<Rightarrow> ('p \<Rightarrow> nat) \<Rightarrow> bool" where
  "switch_bus md mv ph sv delay \<longleftrightarrow> mdio_contract md mv ph \<and> pseudo_phy ph sv delay"

lemma sw_out_simps:
  "sw_out 16 v d s = s\<lparr>sv_page := v\<rparr>"
  "sw_out 24 v d s = s\<lparr>sv_data := (v, snd (sv_data s))\<rparr>"
  "sw_out 25 v d s = s\<lparr>sv_data := (fst (sv_data s), v, snd (snd (sv_data s)))\<rparr>"
  "sw_out 26 v d s = s\<lparr>sv_data := (fst (sv_data s), fst (snd (sv_data s)), v, snd (snd (snd (sv_data s))))\<rparr>"
  "sw_out 27 v d s = s\<lparr>sv_data := (fst (sv_data s), fst (snd (sv_data s)), fst (snd (snd (sv_data s))), v)\<rparr>"
  "sw_out 17 v d s =
     (if d = 0 then sw_complete (s\<lparr>sv_op := v, sv_run := 0\<rparr>) else s\<lparr>sv_op := v, sv_run := d\<rparr>)"
  by (simp_all add: sw_out_def Let_def split_beta)

lemma sw_complete_same [simp]:
  "sv_page (sw_complete s) = sv_page s" "sv_op (sw_complete s) = sv_op s" "sv_run (sw_complete s) = 0"
  by (simp_all add: sw_complete_def Let_def)

section \<open>Single accesses\<close>

lemma and_ffff [simp]: "(w :: u16) AND 0xffff = w"
proof -
  have "(0xffff :: u16) = - 1" by simp
  then show ?thesis by (metis and.right_neutral)
qed

lemma sw_access_wr:
  assumes b: "switch_bus md mv ph sv delay" and i: "mv_idle mv h" and r: "ucast r \<in> set [16, 17, 24, 25, 26, 27 :: u32]"
    and n: "sv_run (sv (mv_phys mv h)) = 0"
  shows "\<exists>h'. fsl_mdio_write (Some md) PSEDOPHY r v h = Some (0, h') \<and> mv_idle mv h' \<and>
    sv (mv_phys mv h') = sw_out (ucast r) v (delay (mv_phys mv h)) (sv (mv_phys mv h))"
proof -
  have "ucast r < (32 :: u32)" using r by auto
  from mdio_write_phys [of md mv ph h 30 "ucast r" v] this b i
  obtain h' where "fsl_pq_local_mdio_write md 30 (ucast r) v h = Some (0, h')" "mv_idle mv h'"
      "mv_phys mv h' = ph_wr ph 30 (ucast r) v (mv_phys mv h)"
    by (auto simp: switch_bus_def)
  moreover have "sv (ph_wr ph 30 (ucast r) v (mv_phys mv h)) =
      sw_out (ucast r) v (delay (mv_phys mv h)) (sv (mv_phys mv h))"
    using b r n unfolding switch_bus_def pseudo_phy_def by blast
  ultimately show ?thesis by (simp add: fsl_mdio_write_def PSEDOPHY_def)
qed

lemma sw_access_rd:
  assumes b: "switch_bus md mv ph sv delay" and i: "mv_idle mv h" and r: "ucast r \<in> set [17, 24, 25, 26, 27 :: u32]"
  shows "\<exists>h'. fsl_mdio_read (Some md) PSEDOPHY r w h = Some (0, fst (sw_in (ucast r) (sv (mv_phys mv h))), h') \<and>
    mv_idle mv h' \<and> sv (mv_phys mv h') = snd (sw_in (ucast r) (sv (mv_phys mv h)))"
proof -
  have "ucast r < (32 :: u32)" using r by auto
  from mdio_read_phys [of md mv ph h 30 "ucast r"] this b i
  obtain h' where "fsl_pq_local_mdio_read md 30 (ucast r) h =
        Some (uint (fst (ph_rd ph 30 (ucast r) (mv_phys mv h))), h')" "mv_idle mv h'"
      "mv_phys mv h' = snd (ph_rd ph 30 (ucast r) (mv_phys mv h))"
    by (auto simp: switch_bus_def)
  moreover have "fst (ph_rd ph 30 (ucast r) (mv_phys mv h)) = fst (sw_in (ucast r) (sv (mv_phys mv h)))"
      "sv (snd (ph_rd ph 30 (ucast r) (mv_phys mv h))) = snd (sw_in (ucast r) (sv (mv_phys mv h)))"
    using b r unfolding switch_bus_def pseudo_phy_def by blast+
  ultimately show ?thesis by (simp add: fsl_mdio_read_def PSEDOPHY_def)
qed

section \<open>Command words\<close>

lemma cmd_word:
  fixes a :: byte
  assumes "op = 1 \<or> op = (2 :: u16)"
  shows "(push_bit 8 (ucast a) OR op) AND 3 = op" "ucast (drop_bit 8 (push_bit 8 (ucast a) OR op)) = a"
    "(push_bit 8 (ucast a) OR op) AND 0x11 = op AND 1" "((push_bit 8 (ucast a) OR op) AND NOT 3) AND 0x11 = 0"
    "(push_bit 8 (ucast a) OR op) AND 1 = op AND 1"
proof -
  have b: "bit op n \<Longrightarrow> n < 2" for n using small_bit [of op 2 n] assms by auto
  have m: "(3 :: u16) = mask 2" by (simp add: mask_numeral)
  have "(0x11 :: int) = push_bit 4 1 OR push_bit 0 1" by simp
  then have k: "bit (0x11 :: int) n \<longleftrightarrow> n = 0 \<or> n = 4" for n
    by (simp only: bit_or_iff bit_push_bit_iff bit_1_iff) auto
  show "(push_bit 8 (ucast a) OR op) AND 3 = op"
    unfolding m by (rule bit_word_eqI) (auto simp: bit_simps dest: b)
  show "ucast (drop_bit 8 (push_bit 8 (ucast a) OR op)) = a"
    by (rule bit_word_eqI) (auto simp: bit_simps dest: b)
  show "(push_bit 8 (ucast a) OR op) AND 0x11 = op AND 1"
    by (rule bit_word_eqI) (auto simp: bit_simps k dest: b)
  show "((push_bit 8 (ucast a) OR op) AND NOT 3) AND 0x11 = 0"
    unfolding m by (rule bit_word_eqI) (auto simp: bit_simps k dest: b)
  show "(push_bit 8 (ucast a) OR op) AND 1 = op AND 1"
    by (rule bit_word_eqI) (auto simp: bit_simps dest: b)
qed

section \<open>Writing a register of the switch\<close>

definition sw_done :: "sw_view \<Rightarrow> sw_view" where
  "sw_done s = (if sv_run s = 0 then s else sw_complete s)"

lemma sw_tick_run: "sv_run s \<noteq> 0 \<Longrightarrow> sv_run (sw_tick s) = sv_run s - 1"
  by (simp add: sw_tick_def sw_complete_def Let_def)

lemma sw_done_tick: "sw_done (sw_tick s) = sw_done s"
  by (simp add: sw_done_def sw_tick_def sw_complete_def Let_def)

lemma sw_tick_op: "sv_op (sw_tick s) = sv_op s"
  by (simp add: sw_tick_def sw_complete_def Let_def)

text \<open>The wait of a write sees the switch through, if the counter lasts.\<close>

lemma wr_wait_done:
  assumes b: "switch_bus md mv ph sv delay" and i: "mv_idle mv h"
    and n: "sv_run (sv (mv_phys mv h)) \<le> n" and o: "sv_op (sv (mv_phys mv h)) = push_bit 8 (ucast (a :: byte)) OR 1"
  shows "\<exists>w h'. wr_wait (Some md) n v h = Some (w, h') \<and> mv_idle mv h' \<and>
    sv (mv_phys mv h') = sw_done (sv (mv_phys mv h))"
  using i n o
proof (induction n arbitrary: h v)
  case 0
  then show ?case by (simp add: sw_done_def)
next
  case (Suc n)
  let ?s = "sv (mv_phys mv h)"
  obtain h1 where h1: "fsl_mdio_read (Some md) PSEDOPHY PSEPHY_RDWR_CTRL v h = Some (0, fst (sw_in 17 ?s), h1)"
      "mv_idle mv h1" "sv (mv_phys mv h1) = snd (sw_in 17 ?s)"
    using sw_access_rd [OF b Suc.prems(1), of PSEPHY_RDWR_CTRL v] by (auto simp: PSEPHY_RDWR_CTRL_def)
  have t: "sv (mv_phys mv h1) = sw_tick ?s" using h1(3) by (simp add: sw_in_def split: prod.splits)
  have w: "fst (sw_in 17 ?s) AND 0x11 = 0 \<longleftrightarrow> sv_run ?s = 0"
    using Suc.prems(3) cmd_word(3,4) [of 1 a] by (auto simp: sw_in_def split: prod.splits)
  show ?case
  proof (cases "sv_run ?s = 0")
    case True
    then show ?thesis using h1(1,2) t w by (simp add: sw_done_def sw_tick_def)
  next
    case False
    have "\<exists>w h'. wr_wait (Some md) n (fst (sw_in 17 ?s)) h1 = Some (w, h') \<and> mv_idle mv h' \<and>
        sv (mv_phys mv h') = sw_done (sv (mv_phys mv h1))"
      using Suc.IH [OF h1(2)] Suc.prems(2,3) False t by (simp add: sw_tick_run sw_tick_op)
    then show ?thesis using h1(1) t w False by (auto simp: sw_done_tick)
  qed
qed

text \<open>Switch registers after a write.\<close>

definition set_reg :: "byte \<Rightarrow> byte \<Rightarrow> val4 \<Rightarrow> (byte \<Rightarrow> byte \<Rightarrow> val4) \<Rightarrow> byte \<Rightarrow> byte \<Rightarrow> val4" where
  "set_reg page addr v f = f(page := (f page)(addr := v))"

text \<open>A command in the form the driver gives it, when it is done.\<close>

lemma sw_complete_cmd:
  assumes "op = 1 \<or> op = 2"
  shows "sw_complete \<lparr>sv_page = push_bit 8 (ucast page) OR 1, sv_op = push_bit 8 (ucast addr) OR op,
      sv_data = v, sv_regs = f, sv_run = d\<rparr> =
    \<lparr>sv_page = push_bit 8 (ucast page) OR 1, sv_op = push_bit 8 (ucast addr) OR op,
      sv_data = (if op = 1 then v else f page addr),
      sv_regs = (if op = 1 then set_reg page addr v f else f), sv_run = 0\<rparr>"
  unfolding sw_complete_def Let_def
  using assms cmd_word(2,5) [of 1 page] cmd_word(1,2) [OF assms, of addr]
  by (elim disjE) (simp_all add: set_reg_def)

lemma switch_write:
  assumes b: "switch_bus md mv ph sv delay" and d: "\<And>p. delay p \<le> 65535" and i: "mv_idle mv h"
    and n: "sv_run (sv (mv_phys mv h)) = 0" and p: "\<not> port_page page"
  shows "\<exists>h'. bcm53101_write (Some md) page addr v h = Some (0, h') \<and> mv_idle mv h' \<and>
    sv (mv_phys mv h') =
      \<lparr>sv_page = push_bit 8 (ucast page) OR 1, sv_op = push_bit 8 (ucast addr) OR 1, sv_data = v,
       sv_regs = set_reg page addr v (sv_regs (sv (mv_phys mv h))), sv_run = 0\<rparr>"
proof -
  obtain v0 v1 v2 v3 where v: "v = (v0, v1, v2, v3)" by (cases v)
  let ?s = "sv (mv_phys mv h)"
  let ?f = "sv_regs ?s"
  let ?pw = "push_bit 8 (ucast page) OR 1 :: u16"
  let ?aw = "push_bit 8 (ucast addr) OR 1 :: u16"
  obtain h1 where h1: "fsl_mdio_write (Some md) PSEDOPHY 16 ?pw h = Some (0, h1)" "mv_idle mv h1"
      "sv (mv_phys mv h1) = ?s\<lparr>sv_page := ?pw\<rparr>"
    using sw_access_wr [OF b i, of 16 ?pw] n by (auto simp: sw_out_simps)
  obtain h2 where h2: "fsl_mdio_write (Some md) PSEDOPHY 24 v0 h1 = Some (0, h2)" "mv_idle mv h2"
      "sv (mv_phys mv h2) = ?s\<lparr>sv_page := ?pw, sv_data := (v0, snd (sv_data ?s))\<rparr>"
    using sw_access_wr [OF b h1(2), of 24 v0] h1(3) n by (auto simp: sw_out_simps)
  obtain h3 where h3: "fsl_mdio_write (Some md) PSEDOPHY 25 v1 h2 = Some (0, h3)" "mv_idle mv h3"
      "sv (mv_phys mv h3) = ?s\<lparr>sv_page := ?pw, sv_data := (v0, v1, snd (snd (sv_data ?s)))\<rparr>"
    using sw_access_wr [OF b h2(2), of 25 v1] h2(3) n by (auto simp: sw_out_simps)
  obtain h4 where h4: "fsl_mdio_write (Some md) PSEDOPHY 26 v2 h3 = Some (0, h4)" "mv_idle mv h4"
      "sv (mv_phys mv h4) = ?s\<lparr>sv_page := ?pw, sv_data := (v0, v1, v2, snd (snd (snd (sv_data ?s))))\<rparr>"
    using sw_access_wr [OF b h3(2), of 26 v2] h3(3) n by (auto simp: sw_out_simps)
  obtain h5 where h5: "fsl_mdio_write (Some md) PSEDOPHY 27 v3 h4 = Some (0, h5)" "mv_idle mv h5"
      "sv (mv_phys mv h5) = ?s\<lparr>sv_page := ?pw, sv_data := v\<rparr>"
    using sw_access_wr [OF b h4(2), of 27 v3] h4(3) n v by (auto simp: sw_out_simps)
  let ?d = "delay (mv_phys mv h5)"
  obtain h6 where h6: "fsl_mdio_write (Some md) PSEDOPHY 17 ?aw h5 = Some (0, h6)" "mv_idle mv h6"
      "sv (mv_phys mv h6) = sw_out 17 ?aw ?d (?s\<lparr>sv_page := ?pw, sv_data := v\<rparr>)"
    using sw_access_wr [OF b h5(2), of 17 ?aw] h5(3) n by auto
  have e: "?s\<lparr>sv_page := ?pw, sv_data := v, sv_op := ?aw, sv_run := k\<rparr> =
      \<lparr>sv_page = ?pw, sv_op = ?aw, sv_data = v, sv_regs = ?f, sv_run = k\<rparr>" for k by simp
  have s6: "sv_run (sv (mv_phys mv h6)) \<le> 65535" "sv_op (sv (mv_phys mv h6)) = ?aw"
    using h6(3) d [of "mv_phys mv h5"] by (simp_all add: sw_out_simps)
  have "sw_done (sv (mv_phys mv h6)) =
      \<lparr>sv_page = ?pw, sv_op = ?aw, sv_data = v, sv_regs = set_reg page addr v (sv_regs ?s), sv_run = 0\<rparr>"
    unfolding h6(3) sw_out_simps e by (simp add: sw_done_def sw_complete_cmd)
  with wr_wait_done [OF b h6(2) s6, of ?aw] show ?thesis
    using p v h1(1) h2(1) h3(1) h4(1) h5(1) h6(1)
    by (auto simp: bcm53101_write_def register_consts Let_def)
qed

section \<open>Reading a register of the switch\<close>

lemma rd_wait_once:
  assumes b: "switch_bus md mv ph sv delay" and i: "mv_idle mv h"
    and o: "sv_op (sv (mv_phys mv h)) = push_bit 8 (ucast (a :: byte)) OR 2"
  shows "\<exists>w h'. rd_wait (Some md) (Suc n) v h = Some (w, h') \<and> mv_idle mv h' \<and>
    sv (mv_phys mv h') = sw_tick (sv (mv_phys mv h))"
proof -
  let ?s = "sv (mv_phys mv h)"
  have "fst (sw_in 17 ?s) AND 0x11 = 0"
    using o cmd_word(3,4) [of 2 a] by (simp add: sw_in_def split: prod.splits)
  moreover have "snd (sw_in 17 ?s) = sw_tick ?s" by (simp add: sw_in_def split: prod.splits)
  ultimately show ?thesis
    using sw_access_rd [OF b i, of PSEPHY_RDWR_CTRL v] by (auto simp: PSEPHY_RDWR_CTRL_def)
qed

lemma sw_data_rd:
  assumes b: "switch_bus md mv ph sv delay" and i: "mv_idle mv h" and s: "sv (mv_phys mv h) = s"
    and r: "r = 24 \<or> r = 25 \<or> r = 26 \<or> r = 27" and d: "sv_data s = (d0, d1, d2, d3)"
  shows "\<exists>h'. fsl_mdio_read (Some md) PSEDOPHY r w h =
      Some (0, if r = 24 then d0 else if r = 25 then d1 else if r = 26 then d2 else d3, h') \<and>
    mv_idle mv h' \<and> sv (mv_phys mv h') = s"
  using sw_access_rd [OF b i, of r w] r d s by (elim disjE) (auto simp: sw_in_def)

text \<open>
  What a read returns depends on the switch being done at the first look at the command register:
  if not, it is what the data registers had before, and the command is still running afterwards.
\<close>

lemma switch_read:
  assumes b: "switch_bus md mv ph sv delay" and i: "mv_idle mv h"
    and n: "sv_run (sv (mv_phys mv h)) = 0" and p: "\<not> port_page page"
  shows "\<exists>p h'. bcm53101_read (Some md) page addr h =
      Some (0, if delay p \<le> 1 then sv_regs (sv (mv_phys mv h)) page addr else sv_data (sv (mv_phys mv h)), h') \<and>
    mv_idle mv h' \<and> sv_regs (sv (mv_phys mv h')) = sv_regs (sv (mv_phys mv h)) \<and>
    sv_run (sv (mv_phys mv h')) = delay p - 1"
proof -
  let ?s = "sv (mv_phys mv h)"
  let ?pw = "push_bit 8 (ucast page) OR 1 :: u16"
  let ?aw = "push_bit 8 (ucast addr) OR 2 :: u16"
  obtain h1 where h1: "fsl_mdio_write (Some md) PSEDOPHY 16 ?pw h = Some (0, h1)" "mv_idle mv h1"
      "sv (mv_phys mv h1) = ?s\<lparr>sv_page := ?pw\<rparr>"
    using sw_access_wr [OF b i, of 16 ?pw] n by (auto simp: sw_out_simps)
  let ?d = "delay (mv_phys mv h1)"
  obtain h2 where h2: "fsl_mdio_write (Some md) PSEDOPHY 17 ?aw h1 = Some (0, h2)" "mv_idle mv h2"
      "sv (mv_phys mv h2) = sw_out 17 ?aw ?d (sv (mv_phys mv h1))"
    using sw_access_wr [OF b h1(2), of 17 ?aw] h1(3) n by auto
  have "sv_op (sv (mv_phys mv h2)) = ?aw"
    using h2(3) by (simp add: sw_out_simps)
  then obtain w h3 where h3: "rd_wait (Some md) 0xffff ?aw h2 = Some (w, h3)" "mv_idle mv h3"
      "sv (mv_phys mv h3) = sw_tick (sv (mv_phys mv h2))"
    using rd_wait_once [OF b h2(2), of addr 65534 ?aw] by auto
  let ?t = "sv (mv_phys mv h3)"
  have e: "?s\<lparr>sv_page := ?pw, sv_op := ?aw, sv_run := k\<rparr> =
      \<lparr>sv_page = ?pw, sv_op = ?aw, sv_data = sv_data ?s, sv_regs = sv_regs ?s, sv_run = k\<rparr>" for k by simp
  have t: "sv_regs ?t = sv_regs ?s" "sv_run ?t = ?d - 1"
      "sv_data ?t = (if ?d \<le> 1 then sv_regs ?s page addr else sv_data ?s)"
    unfolding h3(3) h2(3) h1(3) sw_out_simps e by (simp_all add: sw_tick_def sw_complete_cmd)
  obtain d0 d1 d2 d3 where d: "sv_data ?t = (d0, d1, d2, d3)" by (cases "sv_data ?t")
  obtain h4 where h4: "fsl_mdio_read (Some md) PSEDOPHY 24 w h3 = Some (0, d0, h4)" "mv_idle mv h4" "sv (mv_phys mv h4) = ?t"
    using sw_data_rd [OF b h3(2) refl _ d, of 24 w] by auto
  obtain h5 where h5: "fsl_mdio_read (Some md) PSEDOPHY 25 d0 h4 = Some (0, d1, h5)" "mv_idle mv h5" "sv (mv_phys mv h5) = ?t"
    using sw_data_rd [OF b h4(2,3) _ d, of 25 d0] by auto
  obtain h6 where h6: "fsl_mdio_read (Some md) PSEDOPHY 26 d1 h5 = Some (0, d2, h6)" "mv_idle mv h6" "sv (mv_phys mv h6) = ?t"
    using sw_data_rd [OF b h5(2,3) _ d, of 26 d1] by auto
  obtain h7 where h7: "fsl_mdio_read (Some md) PSEDOPHY 27 d2 h6 = Some (0, d3, h7)" "mv_idle mv h7" "sv (mv_phys mv h7) = ?t"
    using sw_data_rd [OF b h6(2,3) _ d, of 27 d2] by auto
  have "bcm53101_read (Some md) page addr h = Some (0, sv_data ?t, h7)"
    using p h1(1) h2(1) h3(1) h4(1) h5(1) h6(1) h7(1) d by (simp add: bcm53101_read_def register_consts Let_def)
  then show ?thesis using t h7(2,3) by auto
qed

section \<open>Setting up\<close>

fun set_regs :: "(byte \<times> byte \<times> u16) list \<Rightarrow> (byte \<Rightarrow> byte \<Rightarrow> val4) \<Rightarrow> byte \<Rightarrow> byte \<Rightarrow> val4" where
  "set_regs [] f = f"
| "set_regs ((page, addr, v) # ws) f = set_regs ws (set_reg page addr (v, 0, 0, 0) f)"

lemma switch_writes:
  assumes b: "switch_bus md mv ph sv delay" and d: "\<And>p. delay p \<le> 65535" and "mv_idle mv h"
    and "sv_run (sv (mv_phys mv h)) = 0" and "list_all (\<lambda>(page, addr, v). \<not> port_page page) ws"
  shows "\<exists>h'. bcm_writes (Some md) ws h = Some h' \<and> mv_idle mv h' \<and> sv_run (sv (mv_phys mv h')) = 0 \<and>
    sv_regs (sv (mv_phys mv h')) = set_regs ws (sv_regs (sv (mv_phys mv h)))"
  using assms(3-)
proof (induction ws arbitrary: h)
  case (Cons w ws)
  obtain page addr v where w: "w = (page, addr, v)" by (cases w)
  obtain h1 where h1: "bcm53101_write (Some md) page addr (v, 0, 0, 0) h = Some (0, h1)" "mv_idle mv h1"
      "sv_run (sv (mv_phys mv h1)) = 0"
      "sv_regs (sv (mv_phys mv h1)) = set_reg page addr (v, 0, 0, 0) (sv_regs (sv (mv_phys mv h)))"
    using switch_write [OF b d Cons.prems(1,2), of page addr "(v, 0, 0, 0)"] Cons.prems(3) w by auto
  from Cons.IH [OF h1(2,3)] Cons.prems(3) show ?case using h1(1,4) w by auto
qed simp

lemma c_wr_wait_eq: "c_wr_wait preg n v h = wr_wait preg n v h"
proof (induction n arbitrary: v h)
  case (Suc n)
  have "bcm_fsl_mdio_read preg PSEDOPHY PSEPHY_RDWR_CTRL v h = fsl_mdio_read preg PSEDOPHY PSEPHY_RDWR_CTRL v h"
    by (simp add: bcm_fsl_mdio_read_def fsl_mdio_read_def)
  then show ?case using Suc.IH
    by (cases "fsl_mdio_read preg PSEDOPHY PSEPHY_RDWR_CTRL v h") auto
qed simp

lemma c_write_eq: "bcm53101_c_write preg page addr v h = bcm53101_write preg page addr v h"
proof -
  have "bcm_fsl_mdio_write preg m a w h = fsl_mdio_write preg m a w h" for m a w h
    by (simp add: bcm_fsl_mdio_write_def fsl_mdio_write_def)
  then show ?thesis by (simp add: bcm53101_c_write_def bcm53101_write_def c_wr_wait_eq split_beta)
qed

lemma c_writes_eq: "c_writes preg ws h = bcm_writes preg ws h"
proof (induction ws arbitrary: h)
  case (Cons w ws)
  obtain page addr v where w: "w = (page, addr, v)" by (cases w)
  show ?case using Cons.IH w
    by (cases "bcm53101_write preg page addr (v, 0, 0, 0) h") (auto simp: c_write_eq)
qed simp

section \<open>A board for the examples\<close>

text \<open>A controller that is busy for two looks, with any PHYs.\<close>

record 'p board =
  bd_com :: u32
  bd_add :: u32
  bd_stat :: u16
  bd_busy :: nat
  bd_sw :: 'p

definition ctl :: "'p phys \<Rightarrow> 'p board mdio_hw" where
  "ctl ph =
     \<lparr>md_in = \<lambda>r h. if r = Miimind then (if bd_busy h = 0 then 0 else 1, h\<lparr>bd_busy := bd_busy h - 1\<rparr>)
        else (ucast (bd_stat h), h),
      md_out = \<lambda>r v h.
        if r = Miimadd then h\<lparr>bd_add := v\<rparr>
        else if r = Miimcon then
          h\<lparr>bd_sw := ph_wr ph (phy_of (bd_add h)) (reg_of (bd_add h)) (ucast v) (bd_sw h), bd_busy := 2\<rparr>
        else if r = Miimcom \<and> v = 1 then
          (case ph_rd ph (phy_of (bd_add h)) (reg_of (bd_add h)) (bd_sw h) of
             (w, s) \<Rightarrow> h\<lparr>bd_com := v, bd_stat := w, bd_sw := s, bd_busy := 2\<rparr>)
        else if r = Miimcom then h\<lparr>bd_com := v\<rparr> else h,
      md_gpio = \<lambda>n b h. h\<lparr>bd_sw := ph_gpio ph n b (bd_sw h)\<rparr>\<rparr>"

definition board_view :: "('p board, 'p) mdio_view" where
  "board_view =
     \<lparr>mv_idle = \<lambda>h. bd_busy h = 0, mv_valid = \<lambda>h. bd_busy h = 0, mv_com = bd_com, mv_add = bd_add,
      mv_stat = bd_stat, mv_left = bd_busy, mv_phys = bd_sw\<rparr>"

lemma mv_phys_board [simp]: "mv_phys board_view = bd_sw"
  by (simp add: board_view_def)

lemma ctl_contract: "mdio_contract (ctl ph) board_view ph"
  unfolding mdio_contract_def by (simp add: ctl_def board_view_def split_beta)

text \<open>One switch, whose commands take \<open>d\<close> looks.\<close>

definition board_phys :: "nat \<Rightarrow> sw_view phys" where
  "board_phys d =
     \<lparr>ph_rd = \<lambda>phy r s. if phy = 30 then sw_in r s else (0xffff, s),
      ph_wr = \<lambda>phy r v s. if phy = 30 then sw_out r v d s else s,
      ph_gpio = \<lambda>n b s. s\<rparr>"

definition board_mdio :: "nat \<Rightarrow> sw_view board mdio_hw" where
  "board_mdio d = ctl (board_phys d)"

lemma board_switch: "switch_bus (board_mdio d) board_view (board_phys d) id (\<lambda>p. d)"
  by (simp add: switch_bus_def board_mdio_def ctl_contract pseudo_phy_def) (simp add: board_phys_def)

definition board0 :: "sw_view board" where
  "board0 = \<lparr>bd_com = 0, bd_add = 0, bd_stat = 0, bd_busy = 0,
     bd_sw = \<lparr>sv_page = 0, sv_op = 0, sv_data = (0, 0, 0, 0), sv_regs = (\<lambda>page addr. (7, 0, 0, 0)), sv_run = 0\<rparr>\<rparr>"

section \<open>Properties\<close>

lemma C_init_switch:
  assumes b: "switch_bus md mv ph sv delay" and d: "\<And>p. delay p \<le> 65535" and i: "mv_idle mv h"
    and p: "p = ph_gpio ph 13 True (ph_gpio ph 8 True (ph_gpio ph 5 True (ph_gpio ph 5 False (mv_phys mv h))))"
    and n: "sv_run (sv p) = 0"
  shows "\<exists>h'. BCM53101_C_init md (Some md) h = Some (0, h') \<and> mv_idle mv h' \<and> sv_run (sv (mv_phys mv h')) = 0 \<and>
    sv_regs (sv (mv_phys mv h')) =
      set_regs [(0, 0x12, 0x2012), (2, 0x00, 0x80), (0, 0x08, 0x1c), (2, 0x03, 0x00), (0, 0x0b, 0x03),
        (0, 0x0e, 0x8b), (0, 0x60, 0x03)] (sv_regs (sv p))"
proof -
  have c: "mdio_contract md mv ph" using b by (simp add: switch_bus_def)
  let ?h = "md_gpio md 13 True (md_gpio md 8 True (md_gpio md 5 True (md_gpio md 5 False h)))"
  let ?ws = "[(0, 0x12, 0x2012), (2, 0x00, 0x80), (0, 0x08, 0x1c), (2, 0x03, 0x00), (0, 0x0b, 0x03),
    (0, 0x0e, 0x8b), (0, 0x60, 0x03)] :: (byte \<times> byte \<times> u16) list"
  have g: "mv_idle mv ?h" "mv_phys mv ?h = p"
    using contract_out(10,11) [OF c] i p by simp_all
  obtain h' where h': "bcm_writes (Some md) ?ws ?h = Some h'" "mv_idle mv h'" "sv_run (sv (mv_phys mv h')) = 0"
      "sv_regs (sv (mv_phys mv h')) = set_regs ?ws (sv_regs (sv p))"
    using switch_writes [OF b d g(1), of ?ws] g(2) n by (auto simp: port_page_def)
  then show ?thesis
    by (simp add: BCM53101_C_init_def c_writes_eq del: bcm_writes.simps c_writes.simps set_regs.simps)
qed

text \<open>
  C15. The set-up of the outband switch at boot ends and leaves the switch that the pins select with
  the seven registers it is meant to have, and every other register as it was, for a switch that
  takes at most 65535 looks for a command.
\<close>

theorem outband_switch_setup:
  assumes b: "switch_bus md mv ph sv delay" and d: "\<And>p. delay p \<le> 65535" and i: "mv_idle mv h"
    and p: "p = ph_gpio ph 13 True (ph_gpio ph 8 True (ph_gpio ph 5 True (ph_gpio ph 5 False (mv_phys mv h))))"
    and n: "sv_run (sv p) = 0"
  shows "\<exists>h'. BCM53101_C_init md (Some md) h = Some (0, h') \<and> mv_idle mv h' \<and> sv_run (sv (mv_phys mv h')) = 0 \<and>
    (\<forall>page addr. sv_regs (sv (mv_phys mv h')) page addr =
       (case map_of [((0, 0x12), 0x2012), ((2, 0x00), 0x80), ((0, 0x08), 0x1c), ((2, 0x03), 0x00),
            ((0, 0x0b), 0x03), ((0, 0x0e), 0x8b), ((0, 0x60), 0x03)] (page, addr) of
          Some v \<Rightarrow> (v, 0, 0, 0)
        | None \<Rightarrow> sv_regs (sv p) page addr))"
proof -
  obtain h' where h': "BCM53101_C_init md (Some md) h = Some (0, h')" "mv_idle mv h'" "sv_run (sv (mv_phys mv h')) = 0"
      "sv_regs (sv (mv_phys mv h')) = set_regs [(0, 0x12, 0x2012), (2, 0x00, 0x80), (0, 0x08, 0x1c), (2, 0x03, 0x00),
        (0, 0x0b, 0x03), (0, 0x0e, 0x8b), (0, 0x60, 0x03)] (sv_regs (sv p))"
    using C_init_switch [OF assms] by blast
  have m: "set_regs [(0, 0x12, 0x2012), (2, 0x00, 0x80), (0, 0x08, 0x1c), (2, 0x03, 0x00), (0, 0x0b, 0x03),
        (0, 0x0e, 0x8b), (0, 0x60, 0x03)] f page addr =
      (case map_of [((0, 0x12), 0x2012), ((2, 0x00), 0x80), ((0, 0x08), 0x1c), ((2, 0x03), 0x00),
            ((0, 0x0b), 0x03), ((0, 0x0e), 0x8b), ((0, 0x60), 0x03)] (page, addr) of
          Some v \<Rightarrow> (v, 0, 0, 0) | None \<Rightarrow> f page addr)" for f page addr
    by (simp add: set_reg_def)
  show ?thesis
    by (intro exI [of _ h'] conjI allI) (simp_all only: h' m)
qed

theorem outband_switch_setup_witness:
  "\<exists>h'. BCM53101_C_init (board_mdio 300) (Some (board_mdio 300)) board0 = Some (0, h') \<and>
     sv_regs (bd_sw h') 0 0x12 = (0x2012, 0, 0, 0) \<and> sv_regs (bd_sw h') 0 0x60 = (3, 0, 0, 0) \<and>
     sv_regs (bd_sw h') 1 0 = (7, 0, 0, 0)"
proof -
  have "mv_idle board_view board0" "sv_run (bd_sw board0) = 0"
      "sv_regs (bd_sw board0) 1 0 = (7, 0, 0, 0)"
    by (simp_all add: board_view_def board0_def)
  with outband_switch_setup [OF board_switch [of 300], of board0 "bd_sw board0"]
  show ?thesis by (simp add: board_phys_def) (elim exE conjE, rule exI, auto)
qed

text \<open>
  C34. A read of a switch register returns the register, and leaves the switch idle, when the switch
  is done at the first look at the command register. When it takes longer, the read does not wait, although
  it has a loop to do so: it reports success with what the data registers had before, here the value of the
  last write, and the command is still running when it returns.
\<close>

theorem switch_read_stale:
  assumes b: "switch_bus md mv ph sv delay" and i: "mv_idle mv h" and n: "sv_run (sv (mv_phys mv h)) = 0"
    and p: "\<not> port_page page" "\<not> port_page page2" and d: "\<And>p. delay p = k" "k \<le> 65535"
    and w: "bcm53101_write (Some md) page2 addr2 v h = Some (r, h1)"
  shows "\<exists>h'. bcm53101_read (Some md) page addr h1 =
      Some (0, if k \<le> 1 then set_reg page2 addr2 v (sv_regs (sv (mv_phys mv h))) page addr else v, h') \<and>
    mv_idle mv h' \<and> sv_run (sv (mv_phys mv h')) = k - 1"
proof -
  have h1: "mv_idle mv h1" "sv_run (sv (mv_phys mv h1)) = 0" "sv_data (sv (mv_phys mv h1)) = v"
      "sv_regs (sv (mv_phys mv h1)) = set_reg page2 addr2 v (sv_regs (sv (mv_phys mv h)))"
    using switch_write [OF b _ i n p(2), of addr2 v] d w by auto
  show ?thesis using switch_read [OF b h1(1,2) p(1), of addr] h1(3,4) d(1) by auto
qed

theorem switch_read_stale_witness:
  "\<exists>h1 h'. bcm53101_write (Some (board_mdio 2)) 0 0x60 (3, 0, 0, 0) board0 = Some (0, h1) \<and>
     sv_regs (bd_sw h1) 1 0 = (7, 0, 0, 0) \<and>
     bcm53101_read (Some (board_mdio 2)) 1 0 h1 = Some (0, (3, 0, 0, 0), h') \<and> sv_run (bd_sw h') = 1"
proof -
  have i: "mv_idle board_view board0" "sv_run (id (mv_phys board_view board0)) = 0" "sv_regs (bd_sw board0) 1 0 = (7, 0, 0, 0)"
    by (simp_all add: board_view_def board0_def)
  obtain h1 where h1: "bcm53101_write (Some (board_mdio 2)) 0 0x60 (3, 0, 0, 0) board0 = Some (0, h1)"
      "sv_regs (bd_sw h1) = set_reg 0 0x60 (3, 0, 0, 0) (sv_regs (bd_sw board0))"
    using switch_write [OF board_switch [of 2] _ i(1,2), of 0 "0x60" "(3, 0, 0, 0)"] by (auto simp: port_page_def)
  from switch_read_stale [OF board_switch [of 2] i(1,2) _ _ _ _ h1(1), of 1 2 0] i(3) h1 show ?thesis
    by (auto simp: port_page_def word_le_nat_alt set_reg_def)
qed

text \<open>
  The module sets up the switch that the pins select, when the switch is done at the first look: the six
  registers have their values and all others are as they were. A switch that takes longer gives no such
  guarantee, since the one read of the set-up leaves its command running under the next write.
\<close>

theorem module_switch_setup:
  assumes b: "switch_bus md mv ph sv delay" and d: "\<And>p. delay p \<le> 1" and i: "mv_idle mv h"
    and p: "p = ph_gpio ph 8 False (ph_gpio ph 13 False (ph_gpio ph 8 False (mv_phys mv h)))"
    and n: "sv_run (sv p) = 0"
  shows "\<exists>h'. bcm53101_init md (Some md) h = Some (0, Some md, h') \<and> mv_idle mv h' \<and>
    (\<forall>page addr. sv_regs (sv (mv_phys mv h')) page addr =
       (case map_of [((2, 0x00), 0x80), ((0, 0x08), 0x1c), ((2, 0x03), 0x00), ((0, 0x0e), 0x8b),
            ((0, 0x60), 0x03), ((0, 0x0b), 0x03)] (page, addr) of
          Some v \<Rightarrow> (v, 0, 0, 0)
        | None \<Rightarrow> sv_regs (sv p) page addr))"
proof -
  have c: "mdio_contract md mv ph" using b by (simp add: switch_bus_def)
  have d2: "delay p \<le> 65535" for p using d [of p] by simp
  let ?h = "md_gpio md 8 False (md_gpio md 13 False (md_gpio md 8 False h))"
  let ?ws = "[(2, 0x00, 0x80), (0, 0x08, 0x1c), (2, 0x03, 0x00), (0, 0x0e, 0x8b), (0, 0x60, 0x03)]
    :: (byte \<times> byte \<times> u16) list"
  have g: "mv_idle mv ?h" "mv_phys mv ?h = p"
    using contract_out(10,11) [OF c] i p by simp_all
  obtain h1 where h1: "bcm_writes (Some md) ?ws ?h = Some h1" "mv_idle mv h1" "sv_run (sv (mv_phys mv h1)) = 0"
      "sv_regs (sv (mv_phys mv h1)) = set_regs ?ws (sv_regs (sv p))"
    using switch_writes [OF b d2 g(1), of ?ws] g(2) n by (auto simp: port_page_def)
  have "\<not> port_page 0" by (simp add: port_page_def)
  from switch_read [OF b h1(2,3) this, of "0x0b"]
  obtain q v h2 where h2: "bcm53101_read (Some md) 0 0x0b h1 = Some (0, v, h2)" "mv_idle mv h2"
      "sv_regs (sv (mv_phys mv h2)) = set_regs ?ws (sv_regs (sv p))" "sv_run (sv (mv_phys mv h2)) = 0"
    unfolding h1(4) using d by (metis diff_is_0_eq)
  obtain h3 where h3: "bcm_writes (Some md) [(0, 0x0b, 0x03)] h2 = Some h3" "mv_idle mv h3"
      "sv_regs (sv (mv_phys mv h3)) = set_regs [(0, 0x0b, 0x03)] (set_regs ?ws (sv_regs (sv p)))"
    using switch_writes [OF b d2 h2(2,4), of "[(0, 0x0b, 0x03)]"] h2(3)
    by (auto simp: port_page_def simp del: set_regs.simps bcm_writes.simps)
  have e: "bcm53101_init md (Some md) h = Some (0, Some md, h3)"
    using h1(1) h2(1) h3(1)
    by (simp add: bcm53101_init_def bcm53101_cfg_init_def bcm53101_get_preg_def BCM53101_GPIO_SEL_def
        BCM53101_GPIO_SEL1_def Let_def del: bcm_writes.simps)
  have m: "set_regs [(0, 0x0b, 0x03)] (set_regs ?ws f) page addr =
      (case map_of [((2, 0x00), 0x80), ((0, 0x08), 0x1c), ((2, 0x03), 0x00), ((0, 0x0e), 0x8b),
            ((0, 0x60), 0x03), ((0, 0x0b), 0x03)] (page, addr) of
          Some v \<Rightarrow> (v, 0, 0, 0) | None \<Rightarrow> f page addr)" for f page addr
    by (simp add: set_reg_def)
  show ?thesis
    by (intro exI [of _ h3] conjI allI) (simp_all only: e h3(2,3) m)
qed

theorem module_switch_setup_witness:
  "\<exists>h'. bcm53101_init (board_mdio 1) (Some (board_mdio 1)) board0 = Some (0, Some (board_mdio 1), h') \<and>
     sv_regs (bd_sw h') 0 0x0b = (3, 0, 0, 0) \<and> sv_regs (bd_sw h') 1 0 = (7, 0, 0, 0)"
proof -
  have "mv_idle board_view board0" "sv_run (bd_sw board0) = 0"
      "sv_regs (bd_sw board0) 1 0 = (7, 0, 0, 0)"
    by (simp_all add: board_view_def board0_def)
  with module_switch_setup [OF board_switch [of 1], of board0 "bd_sw board0"]
  show ?thesis by (simp add: board_phys_def) (elim exE conjE, rule exI, auto)
qed

section \<open>The device file\<close>

text \<open>
  C35. The device file does not check the size of a request: a call leaves the ten bytes it has for it
  on the stack exactly when the caller asks for more of its own memory than that.
\<close>

theorem bcm_request_overrun:
  assumes "length stack = 10"
  shows "(bcm53101_fs_write preg stack buf count um h = Fault \<longleftrightarrow> 10 < copy_span buf count) \<and>
    (bcm53101_fs_read preg stack buf count um h = Fault \<longleftrightarrow> 10 < copy_span buf count)"
proof (cases "memcpy_at stack 0 (snd (copy_from_user_k um buf count))")
  case None
  then have "10 < copy_span buf count"
    using assms by (simp add: memcpy_at_eq_None length_copy_from_user_k)
  then show ?thesis using None unfolding bcm53101_fs_write_def bcm53101_fs_read_def None by simp
next
  case (Some req)
  have n: "\<not> 10 < copy_span buf count" "length req = 10"
    using Some assms length_copy_from_user_k [of um buf count] length_memcpy_at [OF Some]
    by (auto simp: memcpy_at_eq_Some)
  have w: "kbind (of_wait m) (\<lambda>(r, h). Done (0 :: int, h)) \<noteq> Fault" for m :: "(int \<times> 'a) option"
    by (cases m) auto
  have c: "\<exists>b. memcpy_at req 2 (be_val4 v) = Some b" for v
    using n(2) by (cases v) (simp add: memcpy_at_def)
  have r: "kbind (of_wait m) (\<lambda>(r, v, h). kbind (of_opt (memcpy_at req 2 (be_val4 v))) (\<lambda>b. Done (f b h)))
      \<noteq> Fault" for m :: "(int \<times> val4 \<times> 'a) option" and f :: "byte list \<Rightarrow> 'a \<Rightarrow> int \<times> user_mem \<times> 'a"
  proof (cases m)
    case (Some x)
    obtain k v h where x: "x = (k, v, h)" by (cases x) blast
    obtain b where "memcpy_at req 2 (be_val4 v) = Some b" using c by blast
    then show ?thesis using Some x by simp
  qed simp
  show ?thesis
    using Some n w r [where f = "\<lambda>b h. (0, snd (copy_to_user_k um buf b), h)"]
    by (simp add: bcm53101_fs_write_def bcm53101_fs_read_def)
qed

theorem bcm_request_overrun_witness:
  "bcm53101_fs_write (Some (board_mdio 0)) (replicate 10 0) 0x1000 11 \<lparr>um_byte = \<lambda>a. Some 0, um_writable = \<lambda>a. True\<rparr> board0
     = Fault"
  using bcm_request_overrun [where stack = "replicate 10 0" and buf = "0x1000" and count = 11
      and preg = "Some (board_mdio 0)" and h = board0]
  by (simp add: copy_span_def access_ok_def TASK_SIZE_def)

text \<open>
  C26. What is written through the device file is read back through it, for a switch that is done at the
  first look: after a write of a request, a request for the same register gives the process page,
  address and the four values of the write.
\<close>

theorem bcm_request_roundtrip:
  assumes b: "switch_bus md mv ph sv delay" and d: "\<And>p. delay p \<le> 1" and i: "mv_idle mv h"
    and n: "sv_run (sv (mv_phys mv h)) = 0" and p: "\<not> port_page page"
    and s: "length stack = 10" "length stack2 = 10"
    and w: "copy_from_user_k um buf 10 = (0, page # addr # be_val4 v)"
    and r: "copy_from_user_k um2 buf2 10 = (0, page # addr # bs)" "length bs = 8"
  shows "\<exists>h1 h2. bcm53101_fs_write (Some md) stack buf 10 um h = Done (0, h1) \<and>
    bcm53101_fs_read (Some md) stack2 buf2 10 um2 h1 =
      Done (0, snd (copy_to_user_k um2 buf2 (page # addr # be_val4 v)), h2)"
proof -
  have d2: "delay p \<le> 65535" for p using d [of p] by simp
  have v: "req_val (page # addr # be_val4 v) = v" "length (be_val4 v) = 8"
    by (cases v, simp add: req_val_def)+
  have m: "memcpy_at stack 0 (page # addr # be_val4 v) = Some (page # addr # be_val4 v)"
      "memcpy_at stack2 0 (page # addr # bs) = Some (page # addr # bs)"
      "memcpy_at (page # addr # bs) 2 (be_val4 v) = Some (page # addr # be_val4 v)"
    using s v(2) r(2) by (simp_all add: memcpy_at_def)
  obtain h1 where h1: "bcm53101_write (Some md) page addr v h = Some (0, h1)" "mv_idle mv h1"
      "sv_run (sv (mv_phys mv h1)) = 0" "sv_regs (sv (mv_phys mv h1)) page addr = v"
    using switch_write [OF b d2 i n p, of addr v] by (auto simp: set_reg_def)
  obtain h2 where h2: "bcm53101_read (Some md) page addr h1 = Some (0, v, h2)"
    using switch_read [OF b h1(2,3) p, of addr] h1(4) d by auto
  have "bcm53101_fs_write (Some md) stack buf 10 um h = Done (0, h1)"
    using w m(1) v(1) h1(1) by (simp add: bcm53101_fs_write_def req_page_def req_addr_def)
  moreover have "bcm53101_fs_read (Some md) stack2 buf2 10 um2 h1 =
      Done (0, snd (copy_to_user_k um2 buf2 (page # addr # be_val4 v)), h2)"
    using r(1) m(2,3) h2 by (simp add: bcm53101_fs_read_def req_page_def req_addr_def)
  ultimately show ?thesis by blast
qed

definition demo_req :: "byte list \<Rightarrow> user_mem" where
  "demo_req bs = \<lparr>um_byte = \<lambda>a. Some (bs ! unat a), um_writable = \<lambda>a. True\<rparr>"

theorem bcm_request_roundtrip_witness:
  "\<exists>h1 h2. bcm53101_fs_write (Some (board_mdio 1)) (replicate 10 0) 0 10 (demo_req [2, 0x10, 0, 5, 0, 6, 0, 7, 0, 8]) board0 =
      Done (0, h1) \<and>
    bcm53101_fs_read (Some (board_mdio 1)) (replicate 10 0) 0 10 (demo_req [2, 0x10, 0, 0, 0, 0, 0, 0, 0, 0]) h1 =
      Done (0, snd (copy_to_user_k (demo_req [2, 0x10, 0, 0, 0, 0, 0, 0, 0, 0]) 0 [2, 0x10, 0, 5, 0, 6, 0, 7, 0, 8]), h2)"
proof -
  have i: "mv_idle board_view board0" "sv_run (id (mv_phys board_view board0)) = 0"
    by (simp_all add: board_view_def board0_def)
  have v: "2 # 0x10 # be_val4 (5, 6, 7, 8) = [2, 0x10, 0, 5, 0, 6, 0, 7, 0, 8]"
    by (simp add: hi8_def lo8_def)
  have c: "copy_from_user_k (demo_req [2, 0x10, 0, a, 0, b, 0, c, 0, d]) 0 10 = (0, [2, 0x10, 0, a, 0, b, 0, c, 0, d])"
    for a b c d
  proof -
    have "readable (demo_req bs) a n = map (\<lambda>i. bs ! unat (a + of_nat i)) [0..<n]" for bs a n
      by (induction n arbitrary: a) (simp_all add: demo_req_def upt_conv_Cons map_Suc_upt [symmetric] ac_simps del: upt_Suc)
    then show ?thesis by (simp add: copy_from_user_k_def access_ok_def TASK_SIZE_def tofrom_read_def upt_rec)
  qed
  show ?thesis
    using bcm_request_roundtrip [OF board_switch [of 1] _ i, of 2 "replicate 10 0" "replicate 10 0"
        "demo_req [2, 0x10, 0, 5, 0, 6, 0, 7, 0, 8]" 0 "0x10" "(5, 6, 7, 8)"
        "demo_req [2, 0x10, 0, 0, 0, 0, 0, 0, 0, 0]" 0 "[0, 0, 0, 0, 0, 0, 0, 0]"] c v
    by (simp add: port_page_def)
qed

end
