(* ===== verification/Mdio_Proofs.thy ===== *)
theory Mdio_Proofs
  imports Bcm53101_Proofs
begin

text \<open>
  The bus as a whole: any sequence of accesses returns and does to the PHYs what it says, a
  controller that stays busy is waited for without end, the reset gives up after its bound, and the
  search for a free address begins outside the addresses of the bus.
\<close>

section \<open>Sequences of accesses\<close>

datatype mdio_op = MRead u32 u32 | MWrite u32 u32 u16

fun mdio_do :: "'h mdio_hw \<Rightarrow> mdio_op \<Rightarrow> 'h \<Rightarrow> (int \<times> 'h) option" where
  "mdio_do md (MRead phy r) h = fsl_pq_mdio_read md phy r h"
| "mdio_do md (MWrite phy r v) h = fsl_pq_mdio_write md phy r v h"

fun mdio_ops :: "'h mdio_hw \<Rightarrow> mdio_op list \<Rightarrow> 'h \<Rightarrow> (int list \<times> 'h) option" where
  "mdio_ops md [] h = Some ([], h)"
| "mdio_ops md (x # xs) h =
     do { (r, h) \<leftarrow> mdio_do md x h; (rs, h) \<leftarrow> mdio_ops md xs h; Some (r # rs, h) }"

fun phys_op :: "'p phys \<Rightarrow> mdio_op \<Rightarrow> 'p \<Rightarrow> int \<times> 'p" where
  "phys_op ph (MRead phy r) p = (case ph_rd ph phy r p of (v, p) \<Rightarrow> (uint v, p))"
| "phys_op ph (MWrite phy r v) p = (0, ph_wr ph phy r v p)"

fun on_bus :: "mdio_op \<Rightarrow> bool" where
  "on_bus (MRead phy r) \<longleftrightarrow> phy < 32 \<and> r < 32"
| "on_bus (MWrite phy r v) \<longleftrightarrow> phy < 32 \<and> r < 32"

lemma mdio_op_phys:
  assumes "mdio_contract md vw ph" "mv_idle vw h" "on_bus x"
  shows "\<exists>h'. mdio_do md x h = Some (fst (phys_op ph x (mv_phys vw h)), h') \<and> mv_idle vw h' \<and>
    mv_phys vw h' = snd (phys_op ph x (mv_phys vw h))"
proof (cases x)
  case (MRead phy r)
  then show ?thesis
    using mdio_read_phys [OF assms(1,2), of phy r] assms(3) by (simp add: fsl_pq_mdio_read_def split_beta)
next
  case (MWrite phy r v)
  then show ?thesis
    using mdio_write_phys [OF assms(1,2), of phy r v] assms(3) by (simp add: fsl_pq_mdio_write_def)
qed

text \<open>
  C14. Any sequence of reads and writes on the bus returns, with the values that the PHYs have at that point of
  the sequence, and leaves the PHYs as the sequence says and the controller idle, although no wait of
  the driver has a bound: it is enough that the controller is idle in the end after each command.
\<close>

theorem mdio_accesses_refine:
  assumes "mdio_contract md vw ph" "mv_idle vw h" "list_all on_bus xs"
  shows "\<exists>h'. mdio_ops md xs h = Some (fst (run_list (phys_op ph) xs (mv_phys vw h)), h') \<and> mv_idle vw h' \<and>
    mv_phys vw h' = snd (run_list (phys_op ph) xs (mv_phys vw h))"
  using assms(2,3)
proof (induction xs arbitrary: h)
  case (Cons x xs)
  obtain h1 where h1: "mdio_do md x h = Some (fst (phys_op ph x (mv_phys vw h)), h1)" "mv_idle vw h1"
      "mv_phys vw h1 = snd (phys_op ph x (mv_phys vw h))"
    using mdio_op_phys [OF assms(1) Cons.prems(1)] Cons.prems(2) by auto
  then show ?case using Cons.IH [OF h1(2)] Cons.prems(2) by (auto simp: split_beta Let_def)
qed simp

theorem mdio_accesses_refine_witness:
  "\<exists>h'. mdio_ops (board_mdio 3) [MWrite 30 24 5, MRead 30 24, MRead 7 2] board0 = Some ([0, 5, 0xffff], h')"
proof -
  have "mdio_contract (board_mdio 3) board_view (board_phys 3)"
    by (simp add: board_mdio_def ctl_contract)
  from mdio_accesses_refine [OF this, of board0 "[MWrite 30 24 5, MRead 30 24, MRead 7 2]"]
  show ?thesis
    by (simp add: board_view_def board0_def board_phys_def sw_out_simps sw_in_def Let_def del: mdio_ops.simps)
       blast
qed

section \<open>A controller that stays busy\<close>

lemma wait_ind_looks:
  assumes "wait_ind md flags h = Some h'"
  shows "\<exists>h0. fst (md_in md Miimind h0) AND flags = 0"
proof (rule wait_ind.raw_induct [where P = "\<lambda>md flags h y. \<exists>h0. fst (md_in md Miimind h0) AND flags = 0", OF _ assms])
  fix wait md and flags :: u32 and h h' :: 'a
  assume IH: "\<And>md flags h y. wait md flags h = Some y \<Longrightarrow> \<exists>h0. fst (md_in md Miimind h0) AND flags = 0"
    and step: "(case md_in md Miimind h of (v, h) \<Rightarrow> if v AND flags \<noteq> 0 then wait md flags h else Some h) = Some h'"
  obtain v h1 where v: "md_in md Miimind h = (v, h1)" by fastforce
  show "\<exists>h0. fst (md_in md Miimind h0) AND flags = 0"
  proof (cases "v AND flags = 0")
    case True
    then show ?thesis using v by (intro exI [of _ h]) simp
  next
    case False
    then have "wait md flags h1 = Some h'" using step v by simp
    then show ?thesis by (rule IH)
  qed
qed

text \<open>
  C31. There is no way out of the wait for the controller: as long as it shows busy, neither a read
  nor a write of a PHY register returns.
\<close>

theorem mdio_busy_hangs:
  assumes "\<And>h. fst (md_in md Miimind h) AND MIIMIND_BUSY \<noteq> 0"
  shows "fsl_pq_mdio_read md mii_id regnum h = None \<and> fsl_pq_mdio_write md mii_id regnum val h = None"
proof -
  have "fst (md_in md Miimind h) AND (MIIMIND_NOTVALID OR MIIMIND_BUSY) \<noteq> 0" for h
  proof
    assume "fst (md_in md Miimind h) AND (MIIMIND_NOTVALID OR MIIMIND_BUSY) = 0"
    then have "(fst (md_in md Miimind h) AND (MIIMIND_NOTVALID OR MIIMIND_BUSY)) AND MIIMIND_BUSY = 0" by simp
    then show False using assms [of h] by (simp add: register_consts and.assoc)
  qed
  then have "wait_ind md (MIIMIND_NOTVALID OR MIIMIND_BUSY) h = None" for h
    using wait_ind_looks [of md "MIIMIND_NOTVALID OR MIIMIND_BUSY" h] by (metis option.exhaust)
  moreover have "wait_ind md MIIMIND_BUSY h = None" for h
    using wait_ind_looks [of md MIIMIND_BUSY h] assms by (metis option.exhaust)
  ultimately show ?thesis
    by (simp add: fsl_pq_mdio_read_def fsl_pq_mdio_write_def fsl_pq_local_mdio_read_def fsl_pq_local_mdio_write_def Let_def)
qed

theorem mdio_busy_hangs_witness:
  "fsl_pq_mdio_read \<lparr>md_in = \<lambda>r h. (1, h), md_out = \<lambda>r v h. h, md_gpio = \<lambda>n b h. h\<rparr> 30 16 (0 :: nat) = None"
  using mdio_busy_hangs [of "\<lparr>md_in = \<lambda>r h. (1, h), md_out = \<lambda>r v h. h, md_gpio = \<lambda>n b h. h\<rparr>" 30 16 "0 :: nat"]
  by (simp add: MIIMIND_BUSY_def)

section \<open>Reset\<close>

lemma reset_wait_iff:
  "fst (reset_wait md n h) < 0 \<longleftrightarrow>
     (\<forall>k \<le> n. fst (md_in md Miimind (after_reads (md_in md Miimind) k h)) AND MIIMIND_BUSY \<noteq> 0)"
proof (induction n arbitrary: h)
  case 0
  then show ?case by (simp add: split_beta)
next
  case (Suc n)
  have "(\<forall>k \<le> Suc n. P k) \<longleftrightarrow> P 0 \<and> (\<forall>k \<le> n. P (Suc k))" for P
    by (metis Suc_le_mono le0 not0_implies_Suc)
  then show ?case using Suc.IH by (simp add: split_beta)
qed

text \<open>
  The reset of the bus always returns: with \<open>EBUSY\<close> when the controller is busy at each of
  100001 looks after it is configured, with 0 otherwise.
\<close>

theorem mdio_reset_bounded:
  assumes "h0 = md_out md Miimcfg 7 (md_out md Miimcfg 0x80000000 h)"
  shows "fst (fsl_pq_mdio_reset md h) =
    (if \<forall>k \<le> 100000. fst (md_in md Miimind (after_reads (md_in md Miimind) k h0)) AND 1 \<noteq> 0
     then - EBUSY else 0)"
  using reset_wait_iff [of md 100000 h0] assms
  by (simp add: fsl_pq_mdio_reset_def MIIMCFG_RESET_def MIIMCFG_INIT_VALUE_def MIIMIND_BUSY_def
      PHY_INIT_TIMEOUT_def split_beta Let_def del: reset_wait.simps)

theorem mdio_reset_bounded_witness:
  "fst (fsl_pq_mdio_reset \<lparr>md_in = \<lambda>r h. (1, h), md_out = \<lambda>r v h. h, md_gpio = \<lambda>n b h. h\<rparr> (0 :: nat)) = - EBUSY"
  using mdio_reset_bounded [of "0 :: nat" "\<lparr>md_in = \<lambda>r h. (1, h), md_out = \<lambda>r v h. h, md_gpio = \<lambda>n b h. h\<rparr>" "0"]
  by simp

section \<open>The free address\<close>

text \<open>PHYs with fixed identifiers; an absent one reads as ones.\<close>

definition phy_ids :: "'p phys \<Rightarrow> (u32 \<Rightarrow> u32) \<Rightarrow> bool" where
  "phy_ids ph ids \<longleftrightarrow>
     (\<forall>phy p. ph_rd ph phy 2 p = (ucast (drop_bit 16 (ids phy)), p) \<and> ph_rd ph phy 3 p = (ucast (ids phy), p))"

lemma phy_id_halves:
  "push_bit 16 (word_of_int (uint (ucast (drop_bit 16 w) :: u16)) AND 0xffff) OR
     (word_of_int (uint (ucast w :: u16)) AND 0xffff) = (w :: u32)"
proof -
  have m: "(0xffff :: u32) = mask 16" by (simp add: mask_numeral)
  show ?thesis
    unfolding m by (rule bit_word_eqI) (auto simp: bit_simps)
qed

lemma probe_fields:
  assumes "n \<le> 32" "r < 32"
  shows "phy_of (push_bit 8 (of_nat n) OR r) = of_nat (n mod 32)" "reg_of (push_bit 8 (of_nat n) OR r) = r"
proof (atomize (full), cases "n = 32")
  case True
  have e: "push_bit 8 (of_nat n :: u32) = push_bit 13 1" using True by simp
  have m: "(0x1f :: u32) = mask 5" by (simp add: mask_numeral)
  have "phy_of (push_bit 13 1 OR r) = phy_of (push_bit 8 0 OR r)" "reg_of (push_bit 13 1 OR r) = reg_of (push_bit 8 0 OR r)"
    unfolding phy_of_def reg_of_def m bit_eq_iff
    by (simp_all only: bit_and_iff bit_drop_bit_eq comp_def bit_or_iff bit_push_bit_iff bit_mask_iff bit_1_iff) auto
  then have "phy_of (push_bit 8 (of_nat n) OR r) = phy_of (push_bit 8 0 OR r)"
      "reg_of (push_bit 8 (of_nat n) OR r) = reg_of (push_bit 8 0 OR r)"
    unfolding e .
  then show "phy_of (push_bit 8 (of_nat n) OR r) = of_nat (n mod 32) \<and> reg_of (push_bit 8 (of_nat n) OR r) = r"
    using True mdio_fields [of 0 r] assms(2) by simp
next
  case False
  then have "of_nat n < (32 :: u32)" using assms(1) by (simp add: word_less_nat_alt unat_of_nat)
  then show "phy_of (push_bit 8 (of_nat n) OR r) = of_nat (n mod 32) \<and> reg_of (push_bit 8 (of_nat n) OR r) = r"
    using mdio_fields [of "of_nat n" r] assms False by simp
qed

lemma get_phy_id_ids:
  assumes c: "mdio_contract md vw ph" and p: "phy_ids ph ids" and i: "mv_idle vw h" and n: "n \<le> 32"
  shows "\<exists>h'. get_phy_id md (of_nat n) w h = Some (0, ids (of_nat (n mod 32)), h') \<and> mv_idle vw h' \<and>
    mv_phys vw h' = mv_phys vw h"
proof -
  let ?id = "ids (of_nat (n mod 32))"
  obtain h1 where h1: "fsl_pq_local_mdio_read md (of_nat n) 2 h = Some (uint (ucast (drop_bit 16 ?id) :: u16), h1)"
      "mv_idle vw h1" "mv_phys vw h1 = mv_phys vw h"
    using mdio_read_field [OF c i refl refl, of "of_nat n" 2] probe_fields [OF n, of 2] p by (auto simp: phy_ids_def)
  obtain h2 where h2: "fsl_pq_local_mdio_read md (of_nat n) 3 h1 = Some (uint (ucast ?id :: u16), h2)"
      "mv_idle vw h2" "mv_phys vw h2 = mv_phys vw h1"
    using mdio_read_field [OF c h1(2) refl refl, of "of_nat n" 3] probe_fields [OF n, of 3] p by (auto simp: phy_ids_def)
  have "get_phy_id md (of_nat n) w h = Some (0, ?id, h2)"
    using h1(1) h2(1) phy_id_halves [of ?id] not_less [THEN iffD2, OF uint_nonnegative]
    by (simp add: get_phy_id_def fsl_pq_mdio_read_def MII_PHYSID1_def MII_PHYSID2_def Let_def)
  then show ?thesis using h2 h1(3) by auto
qed

lemma find_free_from_ids:
  fixes name ids
  defines "P \<equiv> \<lambda>n. strcasecmp_eq name ''mdio@ffe26000'' \<and> n = 2 \<or> ids (of_nat (n mod 32)) = 0xffffffff"
  assumes c: "mdio_contract md vw ph" and p: "phy_ids ph ids" and "mv_idle vw h" "n \<le> 32"
  shows "\<exists>h'. find_free_from md name n w h = Some (int (hd (filter P (rev [1..<Suc n]) @ [0])), h') \<and>
    mv_idle vw h' \<and> mv_phys vw h' = mv_phys vw h"
  using assms(4,5)
proof (induction n arbitrary: w h)
  case (Suc n)
  obtain h1 where h1: "get_phy_id md (of_nat (Suc n)) w h = Some (0, ids (of_nat (Suc n mod 32)), h1)"
      "mv_idle vw h1" "mv_phys vw h1 = mv_phys vw h"
    using get_phy_id_ids [OF c p Suc.prems] by blast
  show ?case
  proof (cases "P (Suc n)")
    case True
    then show ?thesis using h1 by (auto simp: P_def simp del: of_nat_Suc)
  next
    case False
    then show ?thesis using h1 Suc.IH [OF h1(2)] Suc.prems(2) by (auto simp: P_def simp del: of_nat_Suc)
  qed
qed simp

text \<open>
  C30. The search returns the highest address from 32 down to 1 whose PHY is absent, with address 2
  taken as free on the bus of the switch, and 0 when there is none. It begins one above the
  addresses of the bus: 32 is looked for at PHY 0, and is the result whenever that is absent.
\<close>

theorem find_free_highest:
  assumes "mdio_contract md vw ph" "phy_ids ph ids" "mv_idle vw h"
  shows "\<exists>h'. fsl_pq_mdio_find_free md name h =
      Some (int (hd (filter (\<lambda>n. strcasecmp_eq name ''mdio@ffe26000'' \<and> n = 2 \<or> ids (of_nat (n mod 32)) = 0xffffffff)
        (rev [1..<33]) @ [0])), h') \<and> mv_phys vw h' = mv_phys vw h"
  using find_free_from_ids [OF assms, of 32 name 0]
  by (auto simp: fsl_pq_mdio_find_free_def PHY_MAX_ADDR_def simp del: upt_Suc)

theorem find_free_highest_witness:
  "\<exists>h'. fsl_pq_mdio_find_free
      (ctl \<lparr>ph_rd = \<lambda>phy r p. (if phy = 0 \<or> phy = 9 then 0xffff else 0x1234, p), ph_wr = \<lambda>phy r v p. p, ph_gpio = \<lambda>n b p. p\<rparr>)
      ''mdio@ffe25000'' \<lparr>bd_com = 0, bd_add = 0, bd_stat = 0, bd_busy = 0, bd_sw = 0 :: nat\<rparr> = Some (32, h')"
proof -
  let ?ph = "\<lparr>ph_rd = \<lambda>phy r p. (if phy = 0 \<or> phy = 9 then 0xffff else 0x1234, p), ph_wr = \<lambda>phy r v p. p,
    ph_gpio = \<lambda>n b p. p\<rparr> :: nat phys"
  let ?ids = "\<lambda>phy :: u32. if phy = 0 \<or> phy = 9 then 0xffffffff else 0x12341234 :: u32"
  have "phy_ids ?ph ?ids" by (simp add: phy_ids_def)
  moreover have "rev [1..<33 :: nat] = 32 # rev [1..<32]" by (subst upt_rec) (simp add: upt_conv_Cons)
  ultimately show ?thesis
    using find_free_highest [OF ctl_contract [of ?ph], of ?ids
        "\<lparr>bd_com = 0, bd_add = 0, bd_stat = 0, bd_busy = 0, bd_sw = 0 :: nat\<rparr>" "''mdio@ffe25000''"]
    by (auto simp: board_view_def)
qed

end
