(* ===== verification/Mdio_Probe.thy ===== *)
theory Mdio_Probe
  imports Mdio_Proofs
begin

text \<open>
  Binding and unbinding the driver of the management bus: \<open>fsl_pq_mdio_probe\<close> and
  \<open>fsl_pq_mdio_remove\<close> of \<open>drivers/net/fsl_pq_mdio.c\<close>, for one device. What the platform answers to a
  probe is a record of results. \<open>None\<close> is a call that waits for the bus without end.
\<close>

section \<open>Probe\<close>

text \<open>A UCC of the device tree: its range or an error, and the two properties that may have its number.\<close>

record ucc_node =
  ucc_range :: "int + int \<times> int"
  ucc_cell_index :: "u32 option"
  ucc_device_id :: "u32 option"

text \<open>The loop over the UCCs; \<open>err\<close> is the result for the last one seen.\<close>

fun get_ucc_id_for_range :: "ucc_node list \<Rightarrow> int \<Rightarrow> int \<Rightarrow> int \<Rightarrow> int + u32" where
  "get_ucc_id_for_range [] start stop err = Inl (if err \<noteq> 0 then err else - EINVAL)"
| "get_ucc_id_for_range (np # nps) start stop err =
     (case ucc_range np of
        Inl err \<Rightarrow> get_ucc_id_for_range nps start stop err
      | Inr (rs, re) \<Rightarrow>
          if rs \<le> start \<and> stop \<le> re then
            (case ucc_cell_index np of
               Some i \<Rightarrow> Inr i
             | None \<Rightarrow>
                 (case ucc_device_id np of
                    Some i \<Rightarrow> Inr i
                  | None \<Rightarrow> get_ucc_id_for_range nps start stop 0))
          else get_ucc_id_for_range nps start stop 0)"

text \<open>How a node describes the controller: a gianfar with its TBI register, if that can be had, a UCC, or neither.\<close>

datatype mdio_kind = Gfar bool | Ucc "ucc_node list" | Unknown

record mdio_probe_in =
  q_priv :: bool
  q_bus :: bool
  q_addr :: bool
  q_phys :: "int option"
  q_size :: int
  q_map :: bool
  q_irq :: bool
  q_kind :: mdio_kind
  q_tbi_reg :: "u32 option"
  q_name :: string
  q_register :: int

text \<open>
  What the driver holds: its private data, the bus, the mapping of the registers, the tables of
  interrupts it has allocated, the registration, and the pointer to the registers for the switch. The
  number of the UCC that is master is kept for all devices.
\<close>

record mdio_res =
  mr_priv :: bool
  mr_bus :: bool
  mr_mapped :: bool
  mr_irqs :: nat
  mr_registered :: bool
  mr_preg :: bool
  mr_master :: u32

definition err_free_priv :: "mdio_res \<Rightarrow> mdio_res" where
  "err_free_priv b = b\<lparr>mr_priv := False\<rparr>"

definition err_free_bus :: "mdio_res \<Rightarrow> mdio_res" where
  "err_free_bus b = err_free_priv (b\<lparr>mr_bus := False\<rparr>)"

definition err_unmap_regs :: "mdio_res \<Rightarrow> mdio_res" where
  "err_unmap_regs b = err_free_bus (b\<lparr>mr_mapped := False\<rparr>)"

definition err_free_irqs :: "mdio_res \<Rightarrow> mdio_res" where
  "err_free_irqs b = err_unmap_regs (b\<lparr>mr_irqs := mr_irqs b - 1\<rparr>)"

text \<open>The registers outside the bus: the address of the TBI PHY and the master of a UCC.\<close>

record 'h tbi_io =
  tbi_out :: "u32 \<Rightarrow> 'h \<Rightarrow> 'h"
  ucc_set_master :: "u32 \<Rightarrow> 'h \<Rightarrow> 'h"

text \<open>Finding the TBI register: an error, or the state with the UCC made master.\<close>

definition probe_tbipa :: "'h tbi_io \<Rightarrow> mdio_probe_in \<Rightarrow> int \<Rightarrow> mdio_res \<Rightarrow> 'h \<Rightarrow> int \<times> mdio_res \<times> 'h" where
  "probe_tbipa io q addr b h =
     (case q_kind q of
        Gfar tbipa \<Rightarrow> (if tbipa then 0 else - EINVAL, b, h)
      | Ucc nps \<Rightarrow>
          (case get_ucc_id_for_range nps addr (addr + q_size q) 0 of
             Inl err \<Rightarrow> (err, b, h)
           | Inr i \<Rightarrow>
               if mr_master b = 0 then (0, b\<lparr>mr_master := i\<rparr>, ucc_set_master io (i - 1) h) else (0, b, h))
      | Unknown \<Rightarrow> (- ENODEV, b, h))"

text \<open>The address of the TBI PHY, from the device tree or a free one.\<close>

definition probe_tbiaddr :: "'h mdio_hw \<Rightarrow> 'h tbi_io \<Rightarrow> mdio_probe_in \<Rightarrow> 'h \<Rightarrow> (int \<times> 'h) option" where
  "probe_tbiaddr hw io q h =
     (let tbiaddr = (case q_tbi_reg q of None \<Rightarrow> - 1 | Some a \<Rightarrow> sint a)
      in if tbiaddr = - 1 then fsl_pq_mdio_find_free hw (q_name q) (tbi_out io 0 h) else Some (tbiaddr, h))"

definition fsl_pq_mdio_probe ::
  "'h mdio_hw \<Rightarrow> 'h tbi_io \<Rightarrow> mdio_probe_in \<Rightarrow> mdio_res \<Rightarrow> 'h \<Rightarrow> (int \<times> mdio_res \<times> 'h) option" where
  "fsl_pq_mdio_probe hw io q b h =
     (if \<not> q_priv q then Some (- ENOMEM, b, h)
      else
        (let b = b\<lparr>mr_priv := True\<rparr>
         in if \<not> q_bus q then Some (- ENOMEM, err_free_priv b, h)
            else
              (let b = b\<lparr>mr_bus := True\<rparr>
               in if \<not> q_addr q then Some (- EINVAL, err_free_bus b, h)
                  else
                    (case q_phys q of
                       None \<Rightarrow> Some (- EINVAL, err_free_bus b, h)
                     | Some addr \<Rightarrow>
                         if \<not> q_map q then Some (- ENOMEM, err_free_bus b, h)
                         else
                           (let b = b\<lparr>mr_mapped := True\<rparr>
                            in if \<not> q_irq q then Some (- ENOMEM, err_unmap_regs b, h)
                               else
                                 (let b = b\<lparr>mr_irqs := mr_irqs b + 1\<rparr>;
                                      (err, b, h) = probe_tbipa io q addr b h
                                  in if err \<noteq> 0 then Some (err, err_free_irqs b, h)
                                     else do {
                                       (tbiaddr, h) \<leftarrow> probe_tbiaddr hw io q h;
                                       if tbiaddr = 0 then Some (- EBUSY, err_free_irqs b, h)
                                       else do {
                                         let h = tbi_out io (word_of_int tbiaddr) h;
                                         if q_register q \<noteq> 0 then Some (q_register q, err_free_irqs b, h)
                                         else do {
                                           let b = b\<lparr>mr_registered := True\<rparr>;
                                           if strcasecmp_eq (q_name q) ''mdio@ffe24000'' then do {
                                             let b = b\<lparr>mr_preg := True\<rparr>;
                                             (r, h) \<leftarrow> BCM53101_C_init hw (Some hw) h;
                                             Some (0, b, h)
                                           } else Some (0, b, h)
                                         }
                                       }
                                     }))))))"

definition fsl_pq_mdio_remove :: "mdio_res \<Rightarrow> int \<times> mdio_res" where
  "fsl_pq_mdio_remove b =
     (let b = b\<lparr>mr_registered := False\<rparr>; b = b\<lparr>mr_mapped := False\<rparr>; b = b\<lparr>mr_bus := False\<rparr>
      in (0, b\<lparr>mr_priv := False\<rparr>))"

section \<open>What a bound and an unbound driver hold\<close>

definition holds_nothing :: "mdio_res \<Rightarrow> bool" where
  "holds_nothing b \<longleftrightarrow> \<not> mr_priv b \<and> \<not> mr_bus b \<and> \<not> mr_mapped b \<and> \<not> mr_registered b"

definition holds_all :: "mdio_res \<Rightarrow> bool" where
  "holds_all b \<longleftrightarrow> mr_priv b \<and> mr_bus b \<and> mr_mapped b \<and> mr_registered b \<and> mr_irqs b \<noteq> 0"

lemmas mdio_exits = err_free_irqs_def err_unmap_regs_def err_free_bus_def err_free_priv_def

lemma probe_tbipa_res:
  "probe_tbipa io q addr b h = (err, b', h') \<Longrightarrow> \<exists>m. b' = b\<lparr>mr_master := m\<rparr>"
  by (auto simp: probe_tbipa_def split: mdio_kind.splits sum.splits if_splits
      intro: exI [of _ "mr_master b"])

text \<open>The probe after the allocations.\<close>

lemma probe_unwinds:
  assumes "fsl_pq_mdio_probe hw io q b h = Some (ret, b', h')" "holds_nothing b"
  shows "if ret = 0 then holds_all b' \<and> mr_irqs b' = mr_irqs b + 1
    else holds_nothing b' \<and> mr_irqs b' = mr_irqs b \<and> mr_preg b' = mr_preg b"
proof (cases "q_priv q \<and> q_bus q \<and> q_addr q \<and> q_phys q \<noteq> None \<and> q_map q \<and> q_irq q")
  case False
  then show ?thesis
    using assms by (auto simp: fsl_pq_mdio_probe_def mdio_exits holds_nothing_def Let_def split: if_splits option.splits)
next
  case True
  then obtain addr where q: "q_priv q" "q_bus q" "q_addr q" "q_phys q = Some addr" "q_map q" "q_irq q" by auto
  let ?b = "b\<lparr>mr_priv := True, mr_bus := True, mr_mapped := True, mr_irqs := mr_irqs b + 1\<rparr>"
  obtain err h1 m where t: "probe_tbipa io q addr ?b h = (err, ?b\<lparr>mr_master := m\<rparr>, h1)"
    by (metis probe_tbipa_res prod_cases3)
  show ?thesis
  proof (cases "err = 0")
    case False
    then show ?thesis using assms q t
      by (auto simp: fsl_pq_mdio_probe_def mdio_exits holds_nothing_def)
  next
    case True
    obtain a h2 where a: "probe_tbiaddr hw io q h1 = Some (a, h2)"
      using assms(1) q t True by (cases "probe_tbiaddr hw io q h1") (auto simp: fsl_pq_mdio_probe_def)
    show ?thesis
    proof (cases "a = 0 \<or> q_register q \<noteq> 0")
      case True
      then show ?thesis using assms q t a \<open>err = 0\<close>
        by (auto simp: fsl_pq_mdio_probe_def mdio_exits holds_nothing_def Let_def split: if_splits)
    next
      case False
      then show ?thesis using assms q t a \<open>err = 0\<close>
        by (auto simp: fsl_pq_mdio_probe_def holds_all_def bind_eq_Some_conv Let_def split: if_splits)
    qed
  qed
qed

section \<open>Binding and unbinding\<close>

text \<open>The other registers leave the bus alone, and the switches that can be selected are idle.\<close>

definition quiet_io :: "('h, 'p) mdio_view \<Rightarrow> 'h tbi_io \<Rightarrow> bool" where
  "quiet_io mv io \<longleftrightarrow>
     (\<forall>v h. mv_idle mv h \<longrightarrow> mv_idle mv (tbi_out io v h) \<and> mv_phys mv (tbi_out io v h) = mv_phys mv h) \<and>
     (\<forall>v h. mv_idle mv h \<longrightarrow> mv_idle mv (ucc_set_master io v h) \<and> mv_phys mv (ucc_set_master io v h) = mv_phys mv h)"

definition pins_idle :: "'p phys \<Rightarrow> ('p \<Rightarrow> sw_view) \<Rightarrow> bool" where
  "pins_idle ph sv \<longleftrightarrow> (\<forall>n b p. sv_run (sv p) = 0 \<longrightarrow> sv_run (sv (ph_gpio ph n b p)) = 0)"

definition probe_board ::
  "'h mdio_hw \<Rightarrow> 'h tbi_io \<Rightarrow> ('h, 'p) mdio_view \<Rightarrow> 'p phys \<Rightarrow> ('p \<Rightarrow> sw_view) \<Rightarrow> ('p \<Rightarrow> nat) \<Rightarrow> (u32 \<Rightarrow> u32) \<Rightarrow> bool" where
  "probe_board hw io mv ph sv delay ids \<longleftrightarrow>
     switch_bus hw mv ph sv delay \<and> (\<forall>p. delay p \<le> 65535) \<and> phy_ids ph ids \<and> quiet_io mv io \<and> pins_idle ph sv"

definition bus_idle :: "('h, 'p) mdio_view \<Rightarrow> ('p \<Rightarrow> sw_view) \<Rightarrow> 'h \<Rightarrow> bool" where
  "bus_idle mv sv h \<longleftrightarrow> mv_idle mv h \<and> sv_run (sv (mv_phys mv h)) = 0"

lemma probe_tbipa_idle:
  "quiet_io mv io \<Longrightarrow> bus_idle mv sv h \<Longrightarrow> bus_idle mv sv (snd (snd (probe_tbipa io q addr b h)))"
  by (auto simp: probe_tbipa_def quiet_io_def bus_idle_def split: mdio_kind.splits sum.splits)

lemma probe_tbiaddr_returns:
  assumes "probe_board hw io mv ph sv delay ids" "bus_idle mv sv h"
  shows "\<exists>a h'. probe_tbiaddr hw io q h = Some (a, h') \<and> bus_idle mv sv h'"
proof -
  have c: "mdio_contract hw mv ph" "phy_ids ph ids" "quiet_io mv io"
    using assms(1) by (simp_all add: probe_board_def switch_bus_def)
  have t: "mv_idle mv (tbi_out io 0 h)" "mv_phys mv (tbi_out io 0 h) = mv_phys mv h"
    using c(3) assms(2) by (simp_all add: quiet_io_def bus_idle_def)
  obtain k h' where "fsl_pq_mdio_find_free hw (q_name q) (tbi_out io 0 h) = Some (k, h')" "bus_idle mv sv h'"
    using find_free_from_ids [OF c(1,2) t(1), of 32 "q_name q" 0] t(2) assms(2)
    by (auto simp: fsl_pq_mdio_find_free_def PHY_MAX_ADDR_def bus_idle_def simp del: upt_Suc)
  then show ?thesis using assms(2) by (auto simp: probe_tbiaddr_def Let_def)
qed

lemma probe_returns:
  assumes pb: "probe_board hw io mv ph sv delay ids" and i: "bus_idle mv sv h"
  shows "\<exists>ret b' h'. fsl_pq_mdio_probe hw io q b h = Some (ret, b', h') \<and> bus_idle mv sv h'"
proof -
  have c: "\<exists>h'. BCM53101_C_init hw (Some hw) h = Some (0, h') \<and> bus_idle mv sv h'" if "bus_idle mv sv h" for h
    using C_init_switch [of hw mv ph sv delay h, OF _ _ _ refl] that pb
    by (auto simp: probe_board_def pins_idle_def bus_idle_def)
  have o: "bus_idle mv sv (tbi_out io v h)" if "bus_idle mv sv h" for v h
    using that pb by (simp add: probe_board_def quiet_io_def bus_idle_def)
  have p: "bus_idle mv sv (snd (snd (probe_tbipa io q addr b h)))" for addr b
    using probe_tbipa_idle [of mv io sv h q addr b] pb i by (simp add: probe_board_def)
  show ?thesis
  proof (cases "q_priv q \<and> q_bus q \<and> q_addr q \<and> q_phys q \<noteq> None \<and> q_map q \<and> q_irq q")
    case False
    then show ?thesis using i by (auto simp: fsl_pq_mdio_probe_def Let_def split: option.splits)
  next
    case True
    then obtain addr where q: "q_priv q" "q_bus q" "q_addr q" "q_phys q = Some addr" "q_map q" "q_irq q" by auto
    obtain err b1 h1 where t: "probe_tbipa io q addr
        (b\<lparr>mr_priv := True, mr_bus := True, mr_mapped := True, mr_irqs := mr_irqs b + 1\<rparr>) h = (err, b1, h1)"
      by (metis prod_cases3)
    then have h1: "bus_idle mv sv h1" using p by (metis snd_conv)
    obtain a h2 where a: "probe_tbiaddr hw io q h1 = Some (a, h2)" "bus_idle mv sv h2"
      using probe_tbiaddr_returns [OF pb h1] by blast
    have h3: "bus_idle mv sv (tbi_out io (word_of_int a) h2)" using o [OF a(2)] .
    obtain h4 where "BCM53101_C_init hw (Some hw) (tbi_out io (word_of_int a) h2) = Some (0, h4)" "bus_idle mv sv h4"
      using c [OF h3] by blast
    then show ?thesis using q t h1 a h3 by (auto simp: fsl_pq_mdio_probe_def Let_def)
  qed
qed

text \<open>The driver core probes an unbound device and removes a bound one.\<close>

datatype mdio_bind = Mdio_Bind mdio_probe_in | Mdio_Unbind

fun mdio_bind_step ::
  "'h mdio_hw \<Rightarrow> 'h tbi_io \<Rightarrow> mdio_bind \<Rightarrow> bool \<times> mdio_res \<times> 'h \<Rightarrow> (bool \<times> mdio_res \<times> 'h) option" where
  "mdio_bind_step hw io (Mdio_Bind q) (bnd, b, h) =
     (if bnd then Some (bnd, b, h)
      else map_option (\<lambda>(ret, b, h). (ret = 0, b, h)) (fsl_pq_mdio_probe hw io q b h))"
| "mdio_bind_step hw io Mdio_Unbind (bnd, b, h) =
     (if bnd then Some (False, snd (fsl_pq_mdio_remove b), h) else Some (bnd, b, h))"

fun mdio_bind_run ::
  "'h mdio_hw \<Rightarrow> 'h tbi_io \<Rightarrow> mdio_bind list \<Rightarrow> bool \<times> mdio_res \<times> 'h \<Rightarrow> (bool \<times> mdio_res \<times> 'h) option" where
  "mdio_bind_run hw io [] s = Some s"
| "mdio_bind_run hw io (x # xs) s = do { s \<leftarrow> mdio_bind_step hw io x s; mdio_bind_run hw io xs s }"

definition holds :: "bool \<Rightarrow> mdio_res \<Rightarrow> bool" where
  "holds bnd b \<longleftrightarrow> (if bnd then holds_all b else holds_nothing b)"

lemma bind_step_holds:
  assumes pb: "probe_board hw io mv ph sv delay ids" and "bus_idle mv sv h" "holds bnd b"
  shows "\<exists>bnd' b' h'. mdio_bind_step hw io x (bnd, b, h) = Some (bnd', b', h') \<and> bus_idle mv sv h' \<and> holds bnd' b' \<and>
    mr_irqs b \<le> mr_irqs b'"
proof (cases x)
  case (Mdio_Bind q)
  show ?thesis
  proof (cases bnd)
    case False
    obtain ret b' h' where p: "fsl_pq_mdio_probe hw io q b h = Some (ret, b', h')" "bus_idle mv sv h'"
      using probe_returns [OF pb assms(2)] by blast
    then show ?thesis
      using probe_unwinds [OF p(1)] assms(3) False Mdio_Bind by (auto simp: holds_def split: if_splits)
  qed (use assms Mdio_Bind in auto)
next
  case Mdio_Unbind
  then show ?thesis using assms
    by (cases bnd) (simp_all add: holds_def holds_all_def holds_nothing_def fsl_pq_mdio_remove_def, blast+)
qed

definition no_mdio :: mdio_res where
  "no_mdio = \<lparr>mr_priv = False, mr_bus = False, mr_mapped = False, mr_irqs = 0, mr_registered = False,
     mr_preg = False, mr_master = 0\<rparr>"


text \<open>A board for the examples: all PHYs but that of the switch are absent.\<close>

definition demo_phys :: "sw_view phys" where
  "demo_phys =
     \<lparr>ph_rd = \<lambda>phy r s. if phy = 30 \<and> r \<notin> set [2, 3] then sw_in r s else (0xffff, s),
      ph_wr = \<lambda>phy r v s. if phy = 30 then sw_out r v 1 s else s, ph_gpio = \<lambda>n b s. s\<rparr>"

definition demo_tbi :: "sw_view board tbi_io" where
  "demo_tbi = \<lparr>tbi_out = \<lambda>v h. h, ucc_set_master = \<lambda>v h. h\<rparr>"

definition demo_probe :: mdio_probe_in where
  "demo_probe = \<lparr>q_priv = True, q_bus = True, q_addr = True, q_phys = Some 0xffe24000, q_size = 0x1000, q_map = True,
     q_irq = True, q_kind = Gfar True, q_tbi_reg = Some 0x11, q_name = ''mdio@ffe24000'', q_register = 0\<rparr>"

lemma demo_probe_board: "probe_board (ctl demo_phys) demo_tbi board_view demo_phys id (\<lambda>p. 1) (\<lambda>phy. 0xffffffff)"
proof -
  have "pseudo_phy demo_phys id (\<lambda>p. 1)" "phy_ids demo_phys (\<lambda>phy. 0xffffffff)"
    by (simp_all add: pseudo_phy_def phy_ids_def demo_phys_def)
  then show ?thesis
    by (simp add: probe_board_def switch_bus_def ctl_contract)
       (simp add: quiet_io_def pins_idle_def demo_tbi_def demo_phys_def)
qed

lemma demo_bus_idle: "bus_idle board_view id board0"
  by (simp add: bus_idle_def) (simp add: board_view_def board0_def)


text \<open>
  C39. Unbinding the bus of the switch unmaps the registers but leaves the pointer to them that the switch driver
  uses, so the next access to a switch goes to an address that is no longer mapped. The table of
  interrupts is never freed.
\<close>

theorem mdio_unbind_dangling:
  assumes "fsl_pq_mdio_probe hw io q b h = Some (0, b', h')" "strcasecmp_eq (q_name q) ''mdio@ffe24000''" "holds_nothing b"
  shows "mr_preg (snd (fsl_pq_mdio_remove b')) \<and> \<not> mr_mapped (snd (fsl_pq_mdio_remove b')) \<and>
    mr_irqs (snd (fsl_pq_mdio_remove b')) = mr_irqs b + 1"
proof -
  have "mr_irqs b' = mr_irqs b + 1" using probe_unwinds [OF assms(1,3)] by simp
  moreover have "mr_preg b'"
  proof -
    obtain addr where q: "q_priv q" "q_bus q" "q_addr q" "q_phys q = Some addr" "q_map q" "q_irq q"
      using assms(1) by (auto simp: fsl_pq_mdio_probe_def Let_def split: if_splits option.splits)
    obtain err b1 h1 where t: "probe_tbipa io q addr
        (b\<lparr>mr_priv := True, mr_bus := True, mr_mapped := True, mr_irqs := mr_irqs b + 1\<rparr>) h = (err, b1, h1)"
      by (metis prod_cases3)
    show ?thesis
      using assms(1,2) q t
      by (auto simp: fsl_pq_mdio_probe_def Let_def bind_eq_Some_conv split: if_splits)
  qed
  ultimately show ?thesis by (simp add: fsl_pq_mdio_remove_def)
qed

theorem mdio_unbind_dangling_witness:
  "\<exists>b' h'. fsl_pq_mdio_probe (ctl demo_phys) demo_tbi demo_probe no_mdio board0 = Some (0, b', h') \<and>
     mr_preg (snd (fsl_pq_mdio_remove b')) \<and> \<not> mr_mapped (snd (fsl_pq_mdio_remove b'))"
proof -
  have n: "holds_nothing no_mdio" "strcasecmp_eq (q_name demo_probe) ''mdio@ffe24000''"
    by (simp_all add: holds_nothing_def no_mdio_def strcasecmp_eq_def demo_probe_def)
  have q: "q_priv demo_probe" "q_bus demo_probe" "q_addr demo_probe" "q_phys demo_probe = Some 0xffe24000"
      "q_map demo_probe" "q_irq demo_probe" "q_register demo_probe = 0"
    by (simp_all add: demo_probe_def)
  have t: "probe_tbipa demo_tbi demo_probe addr b h = (0, b, h)" for addr b h
    by (simp add: probe_tbipa_def demo_probe_def)
  have a: "probe_tbiaddr (ctl demo_phys) demo_tbi demo_probe h = Some (17, h)" for h
    by (simp add: probe_tbiaddr_def demo_probe_def)
  have o: "tbi_out demo_tbi v h = h" for v h by (simp add: demo_tbi_def)
  obtain h' where "BCM53101_C_init (ctl demo_phys) (Some (ctl demo_phys)) board0 = Some (0, h')"
    using C_init_switch [of "ctl demo_phys" board_view demo_phys id "\<lambda>p. 1" board0, OF _ _ _ refl]
      demo_probe_board demo_bus_idle
    by (auto simp: probe_board_def bus_idle_def pins_idle_def)
  then have "\<exists>b' h'. fsl_pq_mdio_probe (ctl demo_phys) demo_tbi demo_probe no_mdio board0 = Some (0, b', h')"
    using n(2) q t a o by (simp add: fsl_pq_mdio_probe_def Let_def)
  then obtain b' h1 where "fsl_pq_mdio_probe (ctl demo_phys) demo_tbi demo_probe no_mdio board0 = Some (0, b', h1)"
    by blast
  from this mdio_unbind_dangling [OF this n(2,1)] show ?thesis by blast
qed

end
