(* ===== verification/Mdio_Race.thy ===== *)
theory Mdio_Race
  imports Mdio_Proofs
begin

text \<open>
  Several tasks on one management bus. The accesses of \<open>drivers/net/fsl_pq_mdio.c\<close> are taken apart into their
  single register accesses, which may interleave. A request through \<open>mdiobus_read\<close> and
  \<open>mdiobus_write\<close> (\<open>drivers/net/phy/mdio_bus.c\<close>) holds the lock of the bus, a request of the switch driver
  does not.
\<close>

section \<open>One register access at a time\<close>

text \<open>Where an access is: the next register it is going to read or write, or its result.\<close>

datatype acc =
    Wr_add u32 u32 u16 | Wr_con u16 | Wr_wait
  | Rd_add u32 u32 | Rd_clear | Rd_command | Rd_wait | Rd_stat
  | Ret int

fun acc_start :: "mdio_op \<Rightarrow> acc" where
  "acc_start (MRead phy r) = Rd_add phy r"
| "acc_start (MWrite phy r v) = Wr_add phy r v"

fun acc_step :: "'h mdio_hw \<Rightarrow> acc \<Rightarrow> 'h \<Rightarrow> acc \<times> 'h" where
  "acc_step md (Wr_add phy r v) h = (Wr_con v, md_out md Miimadd (push_bit 8 phy OR r) h)"
| "acc_step md (Wr_con v) h = (Wr_wait, md_out md Miimcon (ucast v) h)"
| "acc_step md Wr_wait h =
     (case md_in md Miimind h of (v, h) \<Rightarrow> (if v AND MIIMIND_BUSY \<noteq> 0 then Wr_wait else Ret 0, h))"
| "acc_step md (Rd_add phy r) h = (Rd_clear, md_out md Miimadd (push_bit 8 phy OR r) h)"
| "acc_step md Rd_clear h = (Rd_command, md_out md Miimcom 0 h)"
| "acc_step md Rd_command h = (Rd_wait, md_out md Miimcom MII_READ_COMMAND h)"
| "acc_step md Rd_wait h =
     (case md_in md Miimind h of
        (v, h) \<Rightarrow> (if v AND (MIIMIND_NOTVALID OR MIIMIND_BUSY) \<noteq> 0 then Rd_wait else Rd_stat, h))"
| "acc_step md Rd_stat h = (case md_in md Miimstat h of (v, h) \<Rightarrow> (Ret (uint (ucast v :: u16)), h))"
| "acc_step md (Ret r) h = (Ret r, h)"

fun acc_run :: "'h mdio_hw \<Rightarrow> nat \<Rightarrow> acc \<Rightarrow> 'h \<Rightarrow> acc \<times> 'h" where
  "acc_run md 0 a h = (a, h)"
| "acc_run md (Suc n) a h = (case acc_step md a h of (a, h) \<Rightarrow> acc_run md n a h)"

section \<open>Requests\<close>

text \<open>A request waits for its turn, is at some point of its access, or has its result; the flag says that it uses the lock.\<close>

datatype request = Queued bool mdio_op | Running bool acc | Finished int

record 'h bus_sys =
  bus_lock :: "nat option"
  bus_req :: "nat \<Rightarrow> request"
  bus_hw :: 'h

inductive bus_step :: "'h mdio_hw \<Rightarrow> 'h bus_sys \<Rightarrow> 'h bus_sys \<Rightarrow> bool" for md :: "'h mdio_hw" where
  mutex_lock: "bus_req s i = Queued True x \<Longrightarrow> bus_lock s = None \<Longrightarrow>
    bus_step md s (s\<lparr>bus_lock := Some i, bus_req := (bus_req s)(i := Running True (acc_start x))\<rparr>)"
| direct: "bus_req s i = Queued False x \<Longrightarrow>
    bus_step md s (s\<lparr>bus_req := (bus_req s)(i := Running False (acc_start x))\<rparr>)"
| register: "bus_req s i = Running b a \<Longrightarrow> acc_step md a (bus_hw s) = (a', h') \<Longrightarrow>
    bus_step md s (s\<lparr>bus_req := (bus_req s)(i := Running b a'), bus_hw := h'\<rparr>)"
| mutex_unlock: "bus_req s i = Running True (Ret r) \<Longrightarrow>
    bus_step md s (s\<lparr>bus_lock := None, bus_req := (bus_req s)(i := Finished r)\<rparr>)"
| direct_return: "bus_req s i = Running False (Ret r) \<Longrightarrow>
    bus_step md s (s\<lparr>bus_req := (bus_req s)(i := Finished r)\<rparr>)"

abbreviation bus_steps :: "'h mdio_hw \<Rightarrow> 'h bus_sys \<Rightarrow> 'h bus_sys \<Rightarrow> bool" where
  "bus_steps md \<equiv> (bus_step md)\<^sup>*\<^sup>*"

section \<open>An access alone\<close>

lemma acc_run_Ret [simp]: "acc_run md n (Ret r) h = (Ret r, h)"
  by (induction n) simp_all

lemma acc_run_add: "acc_run md (m + n) a h = (case acc_run md m a h of (a, h) \<Rightarrow> acc_run md n a h)"
  by (induction m arbitrary: a h) (simp_all add: split_beta)

lemma wait_run:
  assumes "wait_ind md flags h = Some h'"
    and "\<And>h. acc_step md a h = (case md_in md Miimind h of (v, h) \<Rightarrow> (if v AND flags \<noteq> 0 then a else b, h))"
  shows "\<exists>n. acc_run md n a h = (b, h')"
proof -
  have "(\<forall>h. acc_step md a h = (case md_in md Miimind h of (v, h) \<Rightarrow> (if v AND flags \<noteq> 0 then a else b, h))) \<longrightarrow>
      (\<exists>n. acc_run md n a h = (b, h'))"
  proof (rule wait_ind.raw_induct [where P = "\<lambda>md flags h h'.
        (\<forall>h. acc_step md a h = (case md_in md Miimind h of (v, h) \<Rightarrow> (if v AND flags \<noteq> 0 then a else b, h))) \<longrightarrow>
        (\<exists>n. acc_run md n a h = (b, h'))", OF _ assms(1)], rule impI)
    fix wait md and flags :: u32 and h h' :: 'a
    assume IH: "\<And>md flags h h'. wait md flags h = Some h' \<Longrightarrow>
        (\<forall>h. acc_step md a h = (case md_in md Miimind h of (v, h) \<Rightarrow> (if v AND flags \<noteq> 0 then a else b, h))) \<longrightarrow>
        (\<exists>n. acc_run md n a h = (b, h'))"
      and step: "(case md_in md Miimind h of (v, h) \<Rightarrow> if v AND flags \<noteq> 0 then wait md flags h else Some h) = Some h'"
      and a: "\<forall>h. acc_step md a h = (case md_in md Miimind h of (v, h) \<Rightarrow> (if v AND flags \<noteq> 0 then a else b, h))"
    obtain v g where v: "md_in md Miimind h = (v, g)" by fastforce
    show "\<exists>n. acc_run md n a h = (b, h')"
    proof (cases "v AND flags = 0")
      case True
      then show ?thesis using v step a by (intro exI [of _ 1]) simp
    next
      case False
      then have "wait md flags g = Some h'" using step v by simp
      then obtain n where "acc_run md n a g = (b, h')" using IH a by blast
      then show ?thesis using False v a by (intro exI [of _ "Suc n"]) simp
    qed
  qed
  with assms(2) show ?thesis by blast
qed

lemma run_wait:
  assumes "acc_run md n a h = (Ret r, h')" "\<And>x. a \<noteq> Ret x"
    and a: "\<And>h. acc_step md a h = (case md_in md Miimind h of (v, h) \<Rightarrow> (if v AND flags \<noteq> 0 then a else b, h))"
  shows "\<exists>g m. wait_ind md flags h = Some g \<and> acc_run md m b g = (Ret r, h')"
  using assms(1)
proof (induction n arbitrary: h)
  case 0
  then show ?case using assms(2) by simp
next
  case (Suc n)
  obtain v g where v: "md_in md Miimind h = (v, g)" by fastforce
  show ?case
  proof (cases "v AND flags = 0")
    case True
    then show ?thesis using v Suc.prems a by (subst wait_ind.simps) auto
  next
    case False
    then have "acc_run md n a g = (Ret r, h')" using v Suc.prems a by simp
    from Suc.IH [OF this] show ?thesis using False v by (subst wait_ind.simps) simp
  qed
qed

lemma run_step:
  assumes "acc_run md n a h = (Ret r, h')" "\<And>x. a \<noteq> Ret x"
  shows "\<exists>m. acc_run md m (fst (acc_step md a h)) (snd (acc_step md a h)) = (Ret r, h')"
  using assms by (cases n) (auto simp: split_beta)

lemma read_steps:
  "mdio_do md (MRead phy k) h = Some (r, h') \<longleftrightarrow> (\<exists>n. acc_run md n (acc_start (MRead phy k)) h = (Ret r, h'))"
proof -
  let ?h = "md_out md Miimcom MII_READ_COMMAND (md_out md Miimcom 0 (md_out md Miimadd (push_bit 8 phy OR k) h))"
  have s: "acc_run md (Suc (Suc (Suc n))) (Rd_add phy k) h = acc_run md n Rd_wait ?h" for n
    by simp
  have w: "acc_step md Rd_wait h = (case md_in md Miimind h of
      (v, h) \<Rightarrow> (if v AND (MIIMIND_NOTVALID OR MIIMIND_BUSY) \<noteq> 0 then Rd_wait else Rd_stat, h))" for h
    by simp
  show ?thesis
  proof
    assume "mdio_do md (MRead phy k) h = Some (r, h')"
    then obtain g v where g: "wait_ind md (MIIMIND_NOTVALID OR MIIMIND_BUSY) ?h = Some g"
        "md_in md Miimstat g = (v, h')" "r = uint (ucast v :: u16)"
      by (auto simp: fsl_pq_mdio_read_def fsl_pq_local_mdio_read_def Let_def bind_eq_Some_conv split_beta prod_eq_iff)
    obtain n where "acc_run md n Rd_wait ?h = (Rd_stat, g)" using wait_run [OF g(1) w] by blast
    then have "acc_run md (n + 1) Rd_wait ?h = (Ret r, h')" using g(2,3) by (subst acc_run_add) simp
    then show "\<exists>n. acc_run md n (acc_start (MRead phy k)) h = (Ret r, h')" using s by (metis acc_start.simps(1))
  next
    assume "\<exists>n. acc_run md n (acc_start (MRead phy k)) h = (Ret r, h')"
    then obtain n where "acc_run md n (Rd_add phy k) h = (Ret r, h')" by auto
    from run_step [OF this] obtain n where "acc_run md n Rd_clear (md_out md Miimadd (push_bit 8 phy OR k) h) = (Ret r, h')" by auto
    from run_step [OF this] obtain n where "acc_run md n Rd_command (md_out md Miimcom 0 (md_out md Miimadd (push_bit 8 phy OR k) h)) = (Ret r, h')" by auto
    from run_step [OF this] obtain n where "acc_run md n Rd_wait ?h = (Ret r, h')" by auto
    from run_wait [OF this _ w] obtain g m where g: "wait_ind md (MIIMIND_NOTVALID OR MIIMIND_BUSY) ?h = Some g" "acc_run md m Rd_stat g = (Ret r, h')" by auto
    from run_step [OF g(2)] have "md_in md Miimstat g = (v, h1) \<Longrightarrow> r = uint (ucast v :: u16) \<and> h' = h1" for v h1 by auto
    then show "mdio_do md (MRead phy k) h = Some (r, h')"
      using g(1) by (simp add: fsl_pq_mdio_read_def fsl_pq_local_mdio_read_def Let_def split_beta prod_eq_iff)
  qed
qed

lemma write_steps:
  "mdio_do md (MWrite phy k u) h = Some (r, h') \<longleftrightarrow> (\<exists>n. acc_run md n (acc_start (MWrite phy k u)) h = (Ret r, h'))"
proof -
  let ?h = "md_out md Miimcon (ucast u) (md_out md Miimadd (push_bit 8 phy OR k) h)"
  have s: "acc_run md (Suc (Suc n)) (Wr_add phy k u) h = acc_run md n Wr_wait ?h" for n
    by simp
  have w: "acc_step md Wr_wait h = (case md_in md Miimind h of (v, h) \<Rightarrow> (if v AND MIIMIND_BUSY \<noteq> 0 then Wr_wait else Ret 0, h))" for h
    by simp
  show ?thesis
  proof
    assume "mdio_do md (MWrite phy k u) h = Some (r, h')"
    then have g: "wait_ind md MIIMIND_BUSY ?h = Some h'" "r = 0"
      by (auto simp: fsl_pq_mdio_write_def fsl_pq_local_mdio_write_def Let_def bind_eq_Some_conv)
    then obtain n where "acc_run md n Wr_wait ?h = (Ret r, h')" using wait_run [OF g(1) w] by auto
    then show "\<exists>n. acc_run md n (acc_start (MWrite phy k u)) h = (Ret r, h')" using s by (metis acc_start.simps(2))
  next
    assume "\<exists>n. acc_run md n (acc_start (MWrite phy k u)) h = (Ret r, h')"
    then obtain n where "acc_run md n (Wr_add phy k u) h = (Ret r, h')" by auto
    from run_step [OF this] obtain n where "acc_run md n (Wr_con u) (md_out md Miimadd (push_bit 8 phy OR k) h) = (Ret r, h')" by auto
    from run_step [OF this] obtain n where "acc_run md n Wr_wait ?h = (Ret r, h')" by auto
    from run_wait [OF this _ w] show "mdio_do md (MWrite phy k u) h = Some (r, h')"
      by (auto simp: fsl_pq_mdio_write_def fsl_pq_local_mdio_write_def Let_def)
  qed
qed

text \<open>
  Taking the accesses apart changes nothing: an access alone on the bus returns a result exactly
  when its register accesses, one after the other, get there in some number of steps, with the same result and the same state of
  the controller.
\<close>

lemma mdio_steps_equiv:
  "mdio_do md x h = Some (r, h') \<longleftrightarrow> (\<exists>n. acc_run md n (acc_start x) h = (Ret r, h'))"
  by (cases x) (simp_all only: read_steps write_steps)

section \<open>With the lock\<close>

text \<open>
  What holds in every state when all requests use the lock: the finished requests have an order in which they give their
  results one after the other, and the state of the controller is the one after them, or the one that the holder of the
  lock has made of it so far.
\<close>

definition serial :: "'h mdio_hw \<Rightarrow> (nat \<Rightarrow> mdio_op) \<Rightarrow> 'h \<Rightarrow> nat list \<Rightarrow> 'h bus_sys \<Rightarrow> bool" where
  "serial md ops h0 order s \<longleftrightarrow>
     (\<exists>rs h. mdio_ops md (map ops order) h0 = Some (rs, h) \<and> distinct order \<and>
        map (bus_req s) order = map Finished rs \<and>
        (\<forall>i. i \<notin> set order \<longrightarrow> bus_req s i = Queued True (ops i) \<or> bus_lock s = Some i) \<and>
        (case bus_lock s of
           None \<Rightarrow> bus_hw s = h
         | Some j \<Rightarrow> j \<notin> set order \<and>
             (\<exists>n a. acc_run md n (acc_start (ops j)) h = (a, bus_hw s) \<and> bus_req s j = Running True a)))"

lemma mdio_ops_append:
  "mdio_ops md (xs @ ys) h =
     do { (rs, h) \<leftarrow> mdio_ops md xs h; (rs', h) \<leftarrow> mdio_ops md ys h; Some (rs @ rs', h) }"
  by (induction xs arbitrary: h) (auto simp: bind_eq_Some_conv split: bind_splits prod.splits)

lemma serial_step:
  assumes "bus_step md s s'" "serial md ops h0 order s"
  shows "\<exists>order'. serial md ops h0 order' s'"
proof -
  obtain rs h where o: "mdio_ops md (map ops order) h0 = Some (rs, h)" "distinct order"
      "map (bus_req s) order = map Finished rs"
    and q: "\<And>i. i \<notin> set order \<Longrightarrow> bus_req s i = Queued True (ops i) \<or> bus_lock s = Some i"
    and l: "case bus_lock s of None \<Rightarrow> bus_hw s = h
      | Some j \<Rightarrow> j \<notin> set order \<and> (\<exists>n a. acc_run md n (acc_start (ops j)) h = (a, bus_hw s) \<and> bus_req s j = Running True a)"
    using assms(2) unfolding serial_def by blast
  have fin: "\<exists>r. bus_req s i = Finished r" if "i \<in> set order" for i
    using o(3) that by (metis (no_types, lifting) image_iff list.set_map)
  have kinds: "i \<in> set order \<and> (\<exists>r. bus_req s i = Finished r) \<or>
      i \<notin> set order \<and> (bus_req s i = Queued True (ops i) \<or>
        bus_lock s = Some i \<and> (\<exists>n a. acc_run md n (acc_start (ops i)) h = (a, bus_hw s) \<and> bus_req s i = Running True a))" for i
    using fin [of i] q [of i] l by (auto split: option.splits)
  have upd: "map ((bus_req s)(i := x)) order = map (bus_req s) order" if "i \<notin> set order" for i x
    using that by simp
  from assms(1) show ?thesis
  proof cases
    case (mutex_lock i x)
    then have "i \<notin> set order" "ops i = x" using kinds [of i] by auto
    then have "serial md ops h0 order s'"
      unfolding serial_def using o q l mutex_lock upd [of i]
      by (intro exI [of _ rs] exI [of _ h]) (auto intro!: exI [of _ "0 :: nat"])
    then show ?thesis by blast
  next
    case (direct i x)
    then show ?thesis using kinds [of i] by simp
  next
    case (register i b a a' h')
    then obtain n where i: "i \<notin> set order" "bus_lock s = Some i" "b" "acc_run md n (acc_start (ops i)) h = (a, bus_hw s)"
      using kinds [of i] by auto
    then have "acc_run md (n + 1) (acc_start (ops i)) h = (a', h')" using register by (subst acc_run_add) simp
    then have "\<exists>n. acc_run md n (acc_start (ops i)) h = (a', h')" by (rule exI)
    then have "serial md ops h0 order s'"
      unfolding serial_def using o q i register upd [of i] by (intro exI [of _ rs] exI [of _ h]) auto
    then show ?thesis by blast
  next
    case (mutex_unlock i r)
    then obtain n where i: "i \<notin> set order" "bus_lock s = Some i" "acc_run md n (acc_start (ops i)) h = (Ret r, bus_hw s)"
      using kinds [of i] by auto
    then have "mdio_do md (ops i) h = Some (r, bus_hw s)" by (intro mdio_steps_equiv [THEN iffD2] exI)
    then have "mdio_ops md (map ops (order @ [i])) h0 = Some (rs @ [r], bus_hw s)" using o(1) by (simp add: mdio_ops_append)
    then have "serial md ops h0 (order @ [i]) s'"
      unfolding serial_def using o(2,3) q i mutex_unlock upd [of i]
      by (intro exI [of _ "rs @ [r]"] exI [of _ "bus_hw s"]) auto
    then show ?thesis by blast
  next
    case (direct_return i r)
    then show ?thesis using kinds [of i] by simp
  qed
qed

definition bus_init :: "(nat \<Rightarrow> mdio_op) \<Rightarrow> 'h \<Rightarrow> 'h bus_sys" where
  "bus_init ops h = \<lparr>bus_lock = None, bus_req = \<lambda>i. Queued True (ops i), bus_hw = h\<rparr>"

lemma serial_init: "serial md ops h [] (bus_init ops h)"
  by (simp add: serial_def bus_init_def)

interpretation lockq: invariant_system "\<lambda>s. s = bus_init ops h" "bus_step md" "\<lambda>s. \<exists>order. serial md ops h order s" for md ops h
  by unfold_locales (blast intro: serial_init serial_step)+

text \<open>A request that runs to some point of its access, with the others standing still.\<close>

lemma run_register:
  assumes "bus_req s i = Running b a" "acc_run md n a (bus_hw s) = (a', h')"
  shows "bus_steps md s (s\<lparr>bus_req := (bus_req s)(i := Running b a'), bus_hw := h'\<rparr>)"
  using assms
proof (induction n arbitrary: s a)
  case 0
  then show ?case by (auto simp: fun_upd_idem)
next
  case (Suc n)
  obtain c g where c: "acc_step md a (bus_hw s) = (c, g)" by fastforce
  let ?s = "s\<lparr>bus_req := (bus_req s)(i := Running b c), bus_hw := g\<rparr>"
  have "bus_step md s ?s" by (rule bus_step.register [OF Suc.prems(1) c])
  moreover have "bus_steps md ?s (?s\<lparr>bus_req := (bus_req ?s)(i := Running b a'), bus_hw := h'\<rparr>)"
    using Suc.prems(2) c by (intro Suc.IH [of _ c]) simp_all
  ultimately have "bus_steps md s (?s\<lparr>bus_req := (bus_req ?s)(i := Running b a'), bus_hw := h'\<rparr>)"
    by (rule converse_rtranclp_into_rtranclp)
  moreover have "?s\<lparr>bus_req := (bus_req ?s)(i := Running b a'), bus_hw := h'\<rparr> =
      s\<lparr>bus_req := (bus_req s)(i := Running b a'), bus_hw := h'\<rparr>"
    by simp
  ultimately show ?case by (simp only:)
qed

lemma locked_request:
  assumes "bus_lock s = None" "bus_req s i = Queued True x" "mdio_do md x (bus_hw s) = Some (r, h')"
  shows "bus_steps md s (s\<lparr>bus_req := (bus_req s)(i := Finished r), bus_hw := h'\<rparr>)"
proof -
  let ?s = "s\<lparr>bus_lock := Some i, bus_req := (bus_req s)(i := Running True (acc_start x))\<rparr>"
  let ?t = "?s\<lparr>bus_req := (bus_req s)(i := Running True (Ret r)), bus_hw := h'\<rparr>"
  obtain n where n: "acc_run md n (acc_start x) (bus_hw s) = (Ret r, h')" using mdio_steps_equiv [THEN iffD1, OF assms(3)] by blast
  have "bus_step md s ?s" using assms(1,2) by (intro bus_step.mutex_lock)
  also have "bus_steps md ?s ?t" using run_register [of ?s i True "acc_start x" md n "Ret r" h'] n by simp
  also have "bus_step md ?t (?t\<lparr>bus_lock := None, bus_req := (bus_req ?t)(i := Finished r)\<rparr>)"
    by (intro bus_step.mutex_unlock) simp
  finally show ?thesis using assms(1) by (cases s) simp
qed

text \<open>
  C10. The lock of the bus makes the accesses atomic: however the register accesses of any number of requests through
  the bus interleave, whenever the lock is free the finished requests have an order such that performing them one after the
  other gives exactly their results and the state of the controller; the other requests have not touched it.
\<close>

theorem mdio_lock_serialises:
  assumes "reachable (\<lambda>s. s = bus_init ops h) (bus_step md) s" "bus_lock s = None"
  shows "\<exists>order rs. distinct order \<and> mdio_ops md (map ops order) h = Some (rs, bus_hw s) \<and>
    map (bus_req s) order = map Finished rs \<and> (\<forall>i. i \<notin> set order \<longrightarrow> bus_req s i = Queued True (ops i))"
  using lockq.inv_reachable [OF assms(1)] assms(2) by (auto simp: serial_def)

theorem mdio_lock_serialises_witness:
  "\<exists>s. reachable (\<lambda>s. s = bus_init (\<lambda>i. MRead 7 2) board0) (bus_step (board_mdio 3)) s \<and>
     bus_req s 4 = Finished 0xffff \<and> (\<exists>order rs. (4 :: nat) \<in> set order \<and>
       mdio_ops (board_mdio 3) (map (\<lambda>i. MRead 7 2) order) board0 = Some (rs, bus_hw s))"
proof -
  let ?s = "bus_init (\<lambda>i. MRead 7 2) board0"
  have "mdio_contract (board_mdio 3) board_view (board_phys 3)" by (simp add: board_mdio_def ctl_contract)
  from mdio_op_phys [OF this, of board0 "MRead 7 2"]
  obtain h' where "mdio_do (board_mdio 3) (MRead 7 2) board0 = Some (0xffff, h')"
    by (auto simp: board_view_def board0_def board_phys_def simp del: mdio_do.simps)
  then have "bus_steps (board_mdio 3) ?s (?s\<lparr>bus_req := (bus_req ?s)(4 := Finished 0xffff), bus_hw := h'\<rparr>)"
    by (intro locked_request) (simp_all add: bus_init_def del: mdio_do.simps)
  then have r: "reachable (\<lambda>s. s = ?s) (bus_step (board_mdio 3)) (?s\<lparr>bus_req := (bus_req ?s)(4 := Finished 0xffff), bus_hw := h'\<rparr>)"
    by (simp add: reachable_def)
  from mdio_lock_serialises [OF this] obtain order :: "nat list" and rs where o:
      "mdio_ops (board_mdio 3) (map (\<lambda>i. MRead 7 2) order) board0 = Some (rs, h')"
      "\<forall>i. i \<notin> set order \<longrightarrow> ((\<lambda>i. Queued True (MRead 7 2))(4 := Finished 0xffff)) i = Queued True (MRead 7 2)"
    by (auto simp: bus_init_def)
  then have "4 \<in> set order" by (metis fun_upd_same request.distinct(3))
  let ?t = "?s\<lparr>bus_req := (bus_req ?s)(4 := Finished 0xffff), bus_hw := h'\<rparr>"
  have "bus_req ?t 4 = Finished 0xffff \<and> (\<exists>order rs. (4 :: nat) \<in> set order \<and>
      mdio_ops (board_mdio 3) (map (\<lambda>i. MRead 7 2) order) board0 = Some (rs, bus_hw ?t))"
    using o(1) \<open>4 \<in> set order\<close> by auto
  with r show ?thesis by blast
qed

section \<open>Without the lock\<close>

text \<open>
  C33. The switch driver does not take the lock, so a write through the bus that reports success may go to the wrong PHY: there is
  a run in which the value for register \<open>r\<close> of PHY \<open>p\<close> ends in the register that an access of the switch driver
  has addressed meanwhile; no register of PHY \<open>p\<close> is written in it unless that is the register addressed.
\<close>

theorem mdio_unlocked_race:
  assumes c: "mdio_contract md vw ph" and i: "mv_idle vw h" and b: "q < 32" "t < 32"
  shows "\<exists>s. bus_steps md \<lparr>bus_lock = None,
      bus_req = (\<lambda>i. Finished 0)(0 := Queued True (MWrite p r v), 1 := Queued False (MWrite q t w)), bus_hw = h\<rparr> s \<and>
    bus_lock s = None \<and> bus_req s 0 = Finished 0 \<and> mv_phys vw (bus_hw s) = ph_wr ph q t v (mv_phys vw h)"
proof -
  let ?S = "\<lambda>l x y h. \<lparr>bus_lock = l, bus_req = (\<lambda>i :: nat. Finished 0)(0 := x, 1 := y), bus_hw = h\<rparr>"
  let ?h1 = "md_out md Miimadd (push_bit 8 p OR r) h"
  let ?h2 = "md_out md Miimadd (push_bit 8 q OR t) ?h1"
  let ?h3 = "md_out md Miimcon (ucast v) ?h2"
  note o1 = contract_out [OF c i]
  note o2 = contract_out [OF c o1(1) [of "push_bit 8 p OR r"]]
  note o3 = contract_out(4) [OF c o2(1) [of "push_bit 8 q OR t"]]
  have p3: "mv_phys vw ?h3 = ph_wr ph q t v (mv_phys vw h)" using o3 [of "ucast v"] o2(2,3) o1(3) mdio_fields [OF b] by simp
  obtain h4 where h4: "wait_ind md MIIMIND_BUSY ?h3 = Some h4" "mv_phys vw h4 = mv_phys vw ?h3"
    using wait_ind_ends [OF c, of 1 ?h3] by (auto simp: MIIMIND_BUSY_def)
  obtain n where n: "acc_run md n Wr_wait ?h3 = (Ret 0, h4)" using wait_run [OF h4(1), of Wr_wait "Ret 0"] by auto
  note upd = fun_upd_twist [of 0 "Suc 0"]
  have "bus_steps md (?S None (Queued True (MWrite p r v)) (Queued False (MWrite q t w)) h)
      (?S (Some 0) (Running True (Wr_add p r v)) (Queued False (MWrite q t w)) h)"
    using bus_step.mutex_lock [of "?S None (Queued True (MWrite p r v)) (Queued False (MWrite q t w)) h" 0 "MWrite p r v" md] by (intro r_into_rtranclp) (simp add: upd)
  also have "bus_step md (?S (Some 0) (Running True (Wr_add p r v)) (Queued False (MWrite q t w)) h)
      (?S (Some 0) (Running True (Wr_con v)) (Queued False (MWrite q t w)) ?h1)"
    using bus_step.register [of "?S (Some 0) (Running True (Wr_add p r v)) (Queued False (MWrite q t w)) h" 0 True "Wr_add p r v" md] by (simp add: upd)
  also have "bus_step md (?S (Some 0) (Running True (Wr_con v)) (Queued False (MWrite q t w)) ?h1)
      (?S (Some 0) (Running True (Wr_con v)) (Running False (Wr_add q t w)) ?h1)"
    using bus_step.direct [of "?S (Some 0) (Running True (Wr_con v)) (Queued False (MWrite q t w)) ?h1" 1 "MWrite q t w" md] by simp
  also have "bus_step md (?S (Some 0) (Running True (Wr_con v)) (Running False (Wr_add q t w)) ?h1)
      (?S (Some 0) (Running True (Wr_con v)) (Running False (Wr_con w)) ?h2)"
    using bus_step.register [of "?S (Some 0) (Running True (Wr_con v)) (Running False (Wr_add q t w)) ?h1" 1 False "Wr_add q t w" md] by simp
  also have "bus_steps md (?S (Some 0) (Running True (Wr_con v)) (Running False (Wr_con w)) ?h2)
      (?S (Some 0) (Running True (Ret 0)) (Running False (Wr_con w)) h4)"
    using run_register [of "?S (Some 0) (Running True (Wr_con v)) (Running False (Wr_con w)) ?h2" 0 True "Wr_con v" md "Suc n" "Ret 0" h4] n
    by (simp add: upd)
  also have "bus_step md (?S (Some 0) (Running True (Ret 0)) (Running False (Wr_con w)) h4)
      (?S None (Finished 0) (Running False (Wr_con w)) h4)"
    using bus_step.mutex_unlock [of "?S (Some 0) (Running True (Ret 0)) (Running False (Wr_con w)) h4" 0 0 md] by (simp add: upd)
  finally show ?thesis using p3 h4(2) by (intro exI conjI) (assumption | simp)+
qed

theorem mdio_unlocked_race_witness:
  "\<exists>s. bus_steps (board_mdio 3) \<lparr>bus_lock = None,
      bus_req = (\<lambda>i. Finished 0)(0 := Queued True (MWrite 7 2 9), 1 := Queued False (MWrite 30 24 5)), bus_hw = board0\<rparr> s \<and>
    bus_req s 0 = Finished 0 \<and> fst (sv_data (bd_sw (bus_hw s))) = 9"
proof -
  have "mdio_contract (board_mdio 3) board_view (board_phys 3)" by (simp add: board_mdio_def ctl_contract)
  from mdio_unlocked_race [OF this, of board0 30 24 7 2 9 5] show ?thesis
    by (auto simp: board_view_def board0_def board_phys_def sw_out_simps)
qed

end
