(* ===== verification/Log2file.thy ===== *)
theory Log2file
  imports H2000_Prelude
begin

text \<open>
  The logger: the program that keeps the last log files (\<open>drivers/log2file/log2file.c\<close>) and the
  kernel module with the switch for logging to a file (\<open>drivers/log2file/drv_log2file.c\<close>). Files are a map from
  names to contents. Whether a rename that the files allow succeeds is up to the system.
\<close>

section \<open>The files\<close>

type_synonym 'c files = "string \<Rightarrow> 'c option"
type_synonym rename_ok = "string \<Rightarrow> string \<Rightarrow> bool"

definition LOG_FILE :: string where "LOG_FILE = ''/home/log/logfile''"
definition FILE_NUM :: nat where "FILE_NUM = 5"

text \<open>The name with a number behind it, for numbers of one digit.\<close>

definition log_name :: "nat \<Rightarrow> string" where
  "log_name i = LOG_FILE @ [char_of (48 + i)]"

definition missing :: "'c files \<Rightarrow> string \<Rightarrow> bool" where
  "missing fs f \<longleftrightarrow> fs f = None"

definition unlink :: "string \<Rightarrow> 'c files \<Rightarrow> 'c files" where
  "unlink f fs = fs(f := None)"

definition rename :: "rename_ok \<Rightarrow> string \<Rightarrow> string \<Rightarrow> 'c files \<Rightarrow> 'c files option" where
  "rename ok old new fs =
     (if fs old = None \<or> \<not> ok old new then None else Some ((fs(old := None))(new := fs old)))"

section \<open>Keeping old files\<close>

text \<open>The first loop: the number it ends with and the last name it made.\<close>

fun find_missing :: "'c files \<Rightarrow> nat \<Rightarrow> nat \<Rightarrow> string \<Rightarrow> nat \<times> string" where
  "find_missing fs i 0 filen = (i, filen)"
| "find_missing fs i (Suc n) filen =
     (if missing fs (log_name i) then (i, log_name i) else find_missing fs (i + 1) n (log_name i))"

text \<open>The second loop, with \<open>n\<close> rounds to go.\<close>

fun rotate_files :: "rename_ok \<Rightarrow> nat \<Rightarrow> nat \<Rightarrow> string \<Rightarrow> 'c files \<Rightarrow> int \<times> 'c files" where
  "rotate_files ok i 0 filen fs = (0, fs)"
| "rotate_files ok i (Suc n) filen fs =
     (let fileold = filen; filen = log_name i
      in if i = 1 then rotate_files ok (i + 1) n filen (unlink filen fs)
         else
           (case rename ok (if i = FILE_NUM + 1 then LOG_FILE else filen) fileold fs of
              None \<Rightarrow> (- 1, fs)
            | Some fs \<Rightarrow> rotate_files ok (i + 1) n filen fs))"

definition backup_logfile :: "rename_ok \<Rightarrow> 'c files \<Rightarrow> int \<times> 'c files" where
  "backup_logfile ok fs =
     (if missing fs LOG_FILE then (0, fs)
      else
        (let (i, filen) = find_missing fs 1 FILE_NUM []
         in if i = FILE_NUM + 1 then rotate_files ok 1 (FILE_NUM + 1) filen fs
            else
              (case rename ok LOG_FILE filen fs of None \<Rightarrow> (- 1, fs) | Some fs \<Rightarrow> (0, fs))))"

section \<open>The switch and the main program\<close>

definition LOG2FILE_ENABLE :: u32 where "LOG2FILE_ENABLE = 1"
definition LOG2FILE_DISABLE :: u32 where "LOG2FILE_DISABLE = 2"
definition LOG2FILE_SIZE :: int where "LOG2FILE_SIZE = 2 * 1024 * 1024"

definition log2file_fs_ioctl :: "u32 \<Rightarrow> u32 \<Rightarrow> int \<times> u32" where
  "log2file_fs_ioctl cmd flag =
     (if cmd = LOG2FILE_ENABLE then (0, 0x55)
      else if cmd = LOG2FILE_DISABLE then (0, 0)
      else (- EINVAL, flag))"

definition log2file_exit :: "u32 \<Rightarrow> u32" where
  "log2file_exit flag = 0"

text \<open>What the system answers: whether the directory is there or can be made, and whether the device opens.\<close>

record log_env =
  le_opendir :: bool
  le_mkdir :: int
  le_rename :: rename_ok
  le_open :: bool

definition mk_dir :: "log_env \<Rightarrow> int" where
  "mk_dir e = (if \<not> le_opendir e then (if le_mkdir e \<noteq> 0 then - 1 else 0) else 0)"

text \<open>The program up to its loop: whether it gets there, the files and the switch.\<close>

definition log_start :: "log_env \<Rightarrow> 'c files \<Rightarrow> u32 \<Rightarrow> bool \<times> 'c files \<times> u32" where
  "log_start e fs flag =
     (if mk_dir e = - 1 then (False, fs, flag)
      else
        (case backup_logfile (le_rename e) fs of
           (r, fs) \<Rightarrow>
             if r = - 1 then (False, fs, flag)
             else if \<not> le_open e then (False, fs, flag)
             else (True, fs, snd (log2file_fs_ioctl LOG2FILE_ENABLE flag))))"

text \<open>
  A round of the loop, every five seconds: \<open>sz\<close> is the size of a file by its content. The answer is whether the
  loop goes on and the switch.
\<close>

definition log_round :: "bool \<Rightarrow> ('c \<Rightarrow> int) \<Rightarrow> 'c files \<Rightarrow> u32 \<Rightarrow> bool \<times> u32" where
  "log_round stat_ok sz fs flag =
     (case fs LOG_FILE of
        None \<Rightarrow> (True, flag)
      | Some c \<Rightarrow>
          if \<not> stat_ok then (False, flag)
          else if LOG2FILE_SIZE < sz c then (True, snd (log2file_fs_ioctl LOG2FILE_DISABLE flag))
          else (True, flag))"

section \<open>The files as a queue\<close>

text \<open>
  The log in writing, and the old ones from the oldest to the newest: logs are kept in the order of
  their numbers, without a gap.
\<close>

definition kept :: "'c files \<Rightarrow> 'c option list" where
  "kept fs = map (\<lambda>i. fs (log_name i)) [1..<6]"

definition no_gap :: "'c files \<Rightarrow> bool" where
  "no_gap fs \<longleftrightarrow> (\<forall>i \<in> {2..5}. fs (log_name i) \<noteq> None \<longrightarrow> fs (log_name (i - 1)) \<noteq> None)"

definition log_abs :: "'c files \<Rightarrow> 'c option \<times> 'c list" where
  "log_abs fs = (fs LOG_FILE, map the (takeWhile (\<lambda>c. c \<noteq> None) (kept fs)))"

text \<open>The operations: the kernel writes the log, and the program starts.\<close>

datatype 'c log_op = Log_Write 'c | Log_Backup

fun log_do :: "'c log_op \<Rightarrow> 'c files \<Rightarrow> int \<times> 'c files" where
  "log_do (Log_Write c) fs = (0, fs(LOG_FILE \<mapsto> c))"
| "log_do Log_Backup fs = backup_logfile (\<lambda>old new. True) fs"

fun log_spec :: "'c log_op \<Rightarrow> 'c option \<times> 'c list \<Rightarrow> int \<times> 'c option \<times> 'c list" where
  "log_spec (Log_Write c) (cur, olds) = (0, Some c, olds)"
| "log_spec Log_Backup (cur, olds) =
     (0, None, case cur of None \<Rightarrow> olds | Some c \<Rightarrow> (if length olds = 5 then tl olds else olds) @ [c])"

lemma log_name_simps [simp]:
  "log_name i \<noteq> LOG_FILE" "LOG_FILE \<noteq> log_name i"
  by (simp_all add: log_name_def)

lemma log_name_eq [simp]: "i < 10 \<Longrightarrow> j < 10 \<Longrightarrow> log_name i = log_name j \<longleftrightarrow> i = j"
  using char_of_eq_iff [of "48 + i" "char_of (48 + j)"] by (auto simp: log_name_def)

lemma kept_eq: "kept fs = [fs (log_name 1), fs (log_name 2), fs (log_name 3), fs (log_name 4), fs (log_name 5)]"
  by (simp add: kept_def upt_rec numeral_eq_Suc)

lemma find_missing_eq:
  "find_missing fs 1 FILE_NUM f =
     (if fs (log_name 1) = None then (1, log_name 1)
      else if fs (log_name 2) = None then (2, log_name 2)
      else if fs (log_name 3) = None then (3, log_name 3)
      else if fs (log_name 4) = None then (4, log_name 4)
      else if fs (log_name 5) = None then (5, log_name 5) else (6, log_name 5))"
  by (simp add: FILE_NUM_def missing_def numeral_eq_Suc)

lemma rotate_all:
  assumes "fs LOG_FILE = Some c" "fs (log_name 2) = Some c2" "fs (log_name 3) = Some c3" "fs (log_name 4) = Some c4"
    "fs (log_name 5) = Some c5"
  shows "rotate_files (\<lambda>old new. True) 1 (FILE_NUM + 1) f fs =
     (0, fs(log_name 1 \<mapsto> c2, log_name 2 \<mapsto> c3, log_name 3 \<mapsto> c4, log_name 4 \<mapsto> c5, log_name 5 \<mapsto> c,
       LOG_FILE := None))"
  using assms by (simp add: FILE_NUM_def rename_def unlink_def numeral_eq_Suc Let_def) (auto simp: fun_eq_iff)

lemma no_gap_eq:
  "no_gap fs \<longleftrightarrow> (fs (log_name 2) \<noteq> None \<longrightarrow> fs (log_name 1) \<noteq> None) \<and> (fs (log_name 3) \<noteq> None \<longrightarrow> fs (log_name 2) \<noteq> None) \<and>
     (fs (log_name 4) \<noteq> None \<longrightarrow> fs (log_name 3) \<noteq> None) \<and> (fs (log_name 5) \<noteq> None \<longrightarrow> fs (log_name 4) \<noteq> None)"
proof -
  have "{2..5 :: nat} = {2, 3, 4, 5}" by auto
  then show ?thesis by (simp add: no_gap_def)
qed

lemma backup_refines:
  assumes g: "no_gap fs"
  shows "no_gap (snd (backup_logfile (\<lambda>old new. True) fs)) \<and> fst (backup_logfile (\<lambda>old new. True) fs) = 0 \<and>
    log_abs (snd (backup_logfile (\<lambda>old new. True) fs)) = snd (log_spec Log_Backup (log_abs fs))"
proof (cases "fs LOG_FILE")
  case None
  then show ?thesis using g by (simp add: backup_logfile_def missing_def log_abs_def)
next
  case (Some c)
  consider "fs (log_name 1) = None" | c1 where "fs (log_name 1) = Some c1" "fs (log_name 2) = None"
    | c1 c2 where "fs (log_name 1) = Some c1" "fs (log_name 2) = Some c2" "fs (log_name 3) = None"
    | c1 c2 c3 where "fs (log_name 1) = Some c1" "fs (log_name 2) = Some c2" "fs (log_name 3) = Some c3" "fs (log_name 4) = None"
    | c1 c2 c3 c4 where "fs (log_name 1) = Some c1" "fs (log_name 2) = Some c2" "fs (log_name 3) = Some c3"
        "fs (log_name 4) = Some c4" "fs (log_name 5) = None"
    | c1 c2 c3 c4 c5 where "fs (log_name 1) = Some c1" "fs (log_name 2) = Some c2" "fs (log_name 3) = Some c3"
        "fs (log_name 4) = Some c4" "fs (log_name 5) = Some c5"
    by (metis option.exhaust)
  note c = this
  have b: "backup_logfile (\<lambda>old new. True) fs = (0, fs(LOG_FILE := None, log_name k \<mapsto> c))"
    if "find_missing fs 1 FILE_NUM [] = (k, log_name k)" "k \<le> 5" for k
    using Some that(2) unfolding backup_logfile_def that(1) missing_def by (simp add: rename_def FILE_NUM_def)
  note e = b [unfolded find_missing_eq] log_abs_def kept_eq no_gap_eq
  show ?thesis using c
  proof cases
    case 1
    then show ?thesis using g Some by (auto simp: e)
  next
    case 2
    then show ?thesis using g Some by (auto simp: e)
  next
    case 3
    then show ?thesis using g Some by (auto simp: e)
  next
    case 4
    then show ?thesis using g Some by (auto simp: e)
  next
    case 5
    then show ?thesis using g Some by (auto simp: e)
  next
    case 6
    have "backup_logfile (\<lambda>old new. True) fs = rotate_files (\<lambda>old new. True) 1 (FILE_NUM + 1) (log_name 5) fs"
      using Some 6 unfolding backup_logfile_def find_missing_eq missing_def
      by (simp add: FILE_NUM_def del: rotate_files.simps)
    with rotate_all [OF Some 6(2-), of "log_name 5"] show ?thesis
      using Some 6 by (simp add: log_abs_def kept_eq no_gap_eq del: rotate_files.simps)
  qed
qed

lemma log_do_refines:
  assumes "no_gap fs"
  shows "no_gap (snd (log_do x fs)) \<and> fst (log_do x fs) = fst (log_spec x (log_abs fs)) \<and>
    log_abs (snd (log_do x fs)) = snd (log_spec x (log_abs fs))"
proof (cases x)
  case (Log_Write c)
  then show ?thesis using assms by (simp add: no_gap_eq log_abs_def kept_eq)
next
  case Log_Backup
  then show ?thesis using backup_refines [OF assms] by (cases "log_abs fs") simp
qed

interpretation logq: refines_ops log_abs no_gap "\<lambda>x. True" log_do log_spec
  by unfold_locales (use log_do_refines in blast)+

text \<open>
  C16. The log files are a queue of five: whatever is written, and however often the logger starts, as long as
  renaming works every start succeeds and puts the current log behind the old ones, in the order of
  age, and drops the oldest only when there are five.
\<close>

theorem log_rotation_refines:
  assumes "no_gap fs"
  shows "no_gap (snd (run_list log_do xs fs)) \<and>
    fst (run_list log_do xs fs) = fst (run_list log_spec xs (log_abs fs)) \<and>
    log_abs (snd (run_list log_do xs fs)) = snd (run_list log_spec xs (log_abs fs))"
  using logq.run_refines [OF assms, of xs] by (simp add: list_all_iff)

theorem log_rotation_refines_witness:
  "log_abs (snd (run_list log_do (concat (map (\<lambda>n. [Log_Write n, Log_Backup]) [1, 2, 3, 4, 5, 6, 7 :: nat])) (\<lambda>f. None))) =
     (None, [3, 4, 5, 6, 7])"
proof -
  have e: "no_gap (\<lambda>f. None :: nat option)" "log_abs (\<lambda>f. None :: nat option) = (None, [])"
    by (simp_all add: no_gap_eq log_abs_def kept_eq)
  show ?thesis
    using log_rotation_refines [OF e(1), of "concat (map (\<lambda>n. [Log_Write n, Log_Backup]) [1, 2, 3, 4, 5, 6, 7])"]
    unfolding e(2) by simp
qed

text \<open>
  A rotation that fails half-way spoils the order for good. When all five files are there and the
  second rename fails, the oldest log is gone, and the next start stores the current log in its place, as the oldest:
  of all logs it is the first that a later rotation deletes.
\<close>

theorem failed_rotation_misorders:
  assumes fs: "fs LOG_FILE = Some c" "map fs (map log_name [1, 2, 3, 4, 5]) = map Some [c1, c2, c3, c4, c5]"
    and ok: "ok (log_name 2) (log_name 1) = False"
  shows "\<exists>fs1 fs2. backup_logfile ok fs = (- 1, fs1) \<and> backup_logfile (\<lambda>old new. True) fs1 = (0, fs2) \<and>
    log_abs fs2 = (None, [c, c2, c3, c4, c5])"
proof -
  let ?fs1 = "unlink (log_name 1) fs"
  have r: "rotate_files ok 1 (FILE_NUM + 1) f fs = (- 1, ?fs1)" for f
    using fs ok by (simp add: FILE_NUM_def rename_def unlink_def numeral_eq_Suc Let_def)
  have b1: "backup_logfile ok fs = (- 1, ?fs1)"
    using fs r [of "log_name 5"] unfolding backup_logfile_def find_missing_eq missing_def
    by (simp add: FILE_NUM_def del: rotate_files.simps)
  have b2: "backup_logfile (\<lambda>old new. True) ?fs1 = (0, ?fs1(LOG_FILE := None, log_name 1 \<mapsto> c))"
    using fs unfolding backup_logfile_def find_missing_eq missing_def
    by (simp add: FILE_NUM_def rename_def unlink_def del: rotate_files.simps)
  show ?thesis using b1 b2 fs by (simp add: log_abs_def kept_eq unlink_def)
qed

theorem failed_rotation_misorders_witness:
  "\<exists>fs1 fs2. backup_logfile (\<lambda>old new. old \<noteq> log_name 2)
      ((\<lambda>f. None)(LOG_FILE \<mapsto> 6, log_name 1 \<mapsto> 1, log_name 2 \<mapsto> 2, log_name 3 \<mapsto> 3, log_name 4 \<mapsto> 4, log_name 5 \<mapsto> 5 :: nat)) =
      (- 1, fs1) \<and> backup_logfile (\<lambda>old new. True) fs1 = (0, fs2) \<and> log_abs fs2 = (None, [6, 2, 3, 4, 5])"
  by (rule failed_rotation_misorders) simp_all

text \<open>The loop, as the system answers it.\<close>

fun log_rounds :: "(bool \<times> 'c files) list \<Rightarrow> ('c \<Rightarrow> int) \<Rightarrow> u32 \<Rightarrow> u32" where
  "log_rounds [] sz flag = flag"
| "log_rounds ((ok, fs) # rs) sz flag =
     (case log_round ok sz fs flag of (True, flag) \<Rightarrow> log_rounds rs sz flag | (False, flag) \<Rightarrow> flag)"

lemma log_rounds_off: "log_rounds rs sz 0 = 0"
  by (induction rs sz "0 :: u32" rule: log_rounds.induct)
     (auto simp: log_round_def log2file_fs_ioctl_def LOG2FILE_ENABLE_def LOG2FILE_DISABLE_def split: option.splits if_splits)

lemma log_rounds_flag:
  "list_all fst rs \<Longrightarrow> log_rounds rs sz 0x55 =
     (if \<exists>(ok, fs) \<in> set rs. \<exists>c. fs LOG_FILE = Some c \<and> LOG2FILE_SIZE < sz c then 0 else 0x55)"
proof (induction rs)
  case (Cons r rs)
  obtain fs where r: "r = (True, fs)" using Cons.prems by (cases r) auto
  show ?case
  proof (cases "\<exists>c. fs LOG_FILE = Some c \<and> LOG2FILE_SIZE < sz c")
    case True
    then show ?thesis using r log_rounds_off [of rs sz]
      by (auto simp: log_round_def log2file_fs_ioctl_def LOG2FILE_ENABLE_def LOG2FILE_DISABLE_def)
  next
    case False
    then have "log_round True sz fs 0x55 = (True, 0x55)" by (auto simp: log_round_def split: option.splits)
    then show ?thesis using r Cons False by auto
  qed
qed simp

text \<open>
  The logger limits the log: from a start on, the first look that finds the log larger than two megabytes
  switches logging off, and no later look switches it on again.
\<close>

theorem log_size_limited:
  assumes "log_start e fs flag = (True, fs', flag')" "list_all fst rs"
  shows "log_rounds rs sz flag' =
    (if \<exists>(ok, fs) \<in> set rs. \<exists>c. fs LOG_FILE = Some c \<and> LOG2FILE_SIZE < sz c then 0 else 0x55)"
proof -
  have "flag' = 0x55"
    using assms(1) by (auto simp: log_start_def log2file_fs_ioctl_def split: prod.splits if_splits)
  then show ?thesis using log_rounds_flag [OF assms(2)] by simp
qed

theorem log_size_limited_witness:
  "log_rounds [(True, (\<lambda>f. None)(LOG_FILE \<mapsto> 100)), (True, (\<lambda>f. None)(LOG_FILE \<mapsto> 3000000)), (True, \<lambda>f. None)] id
     (snd (snd (log_start \<lparr>le_opendir = True, le_mkdir = 0, le_rename = \<lambda>old new. True, le_open = True\<rparr> (\<lambda>f. None :: int option) 0))) = 0"
proof -
  let ?e = "\<lparr>le_opendir = True, le_mkdir = 0, le_rename = \<lambda>old new. True, le_open = True\<rparr>"
  have "log_start ?e (\<lambda>f. None :: int option) 0 = (True, \<lambda>f. None, 0x55)"
    by (simp add: log_start_def mk_dir_def backup_logfile_def missing_def log2file_fs_ioctl_def)
  from log_size_limited [OF this, of "[(True, (\<lambda>f. None)(LOG_FILE \<mapsto> 100)), (True, (\<lambda>f. None)(LOG_FILE \<mapsto> 3000000)),
      (True, \<lambda>f. None)]" id] this show ?thesis by (simp add: LOG2FILE_SIZE_def)
qed

end
