(* ===== verification/Board_Api.thy ===== *)
theory Board_Api
  imports Pxm_Fpga "HOL-Library.Signed_Division"
begin

text \<open>
  The management interface of the card (\<open>drivers/externdrv\<close>): fans, power supplies, alarm LEDs and the
  EEPROMs behind the FPGA (\<open>fpgardwr.c\<close>, \<open>fan.c\<close>, \<open>power.c\<close>, \<open>sysled.c\<close>, \<open>eeprom_api.c\<close>), over the device
  file of the FPGA. A pointer argument that may be null is an option.
\<close>

section \<open>Messages to the FPGA\<close>

record fpga_msg =
  msg_addr :: u16
  msg_len :: u16
  msg_buf :: "byte list"

text \<open>
  A read fills the first \<open>len\<close> bytes of a buffer; the result has what the call returned. A message has four
  bytes.
\<close>

definition read_at :: "'h chardev \<Rightarrow> int \<Rightarrow> u16 \<Rightarrow> u16 \<Rightarrow> byte list \<Rightarrow> 'h \<Rightarrow> (int \<times> byte list) \<times> 'h" where
  "read_at dev fd addr len buf h =
     (let h = cd_lseek dev fd (ucast addr) h;
          ((n, bs), h) = read_fd dev fd (take (unat len) buf) h
      in ((n, bs @ drop (unat len) buf), h))"

definition read_fpga_data :: "'h chardev \<Rightarrow> int \<Rightarrow> fpga_msg \<Rightarrow> 'h \<Rightarrow> (int \<times> fpga_msg) \<times> 'h" where
  "read_fpga_data dev fd msg h =
     (if fd < 0 then ((- 1, msg), h)
      else
        (let ((n, buf), h) = read_at dev fd (msg_addr msg) (msg_len msg) (msg_buf msg) h
         in ((if n = uint (msg_len msg) then 1 else - 1, msg\<lparr>msg_buf := buf\<rparr>), h)))"

definition write_fpga_data :: "'h chardev \<Rightarrow> int \<Rightarrow> fpga_msg \<Rightarrow> 'h \<Rightarrow> int \<times> 'h" where
  "write_fpga_data dev fd msg h =
     (if fd < 0 then (- 1, h)
      else
        (let h = cd_lseek dev fd (ucast (msg_addr msg)) h;
             (n, h) = cd_write dev fd (take (unat (msg_len msg)) (msg_buf msg)) h
         in (if n = uint (msg_len msg) then 1 else - 1, h)))"

definition junk4 :: "'h chardev \<Rightarrow> byte list" where
  "junk4 dev = fit 4 (cd_stack dev)"

definition oper :: "'h chardev \<Rightarrow> int \<Rightarrow> 'h \<Rightarrow> 'h" where
  "oper dev fd h = snd (cd_ioctl dev fd SPI_IOC_OPER_FPGA h)"

definition oper_done :: "'h chardev \<Rightarrow> int \<Rightarrow> 'h \<Rightarrow> 'h" where
  "oper_done dev fd h = snd (cd_ioctl dev fd SPI_IOC_OPER_FPGA_DONE h)"

section \<open>Fans\<close>

text \<open>The reads of one bit, for the presence and for the state of the fans.\<close>

definition fan_bit :: "'h chardev \<Rightarrow> u16 \<Rightarrow> 'h \<Rightarrow> int \<times> 'h" where
  "fan_bit dev addr h =
     (let (fd, h) = cd_open dev h
      in if fd < 0 then (- 1, h)
         else
           (let h = oper dev fd h;
                ((n, buf), h) = read_at dev fd addr 4 (junk4 dev) h;
                h = cd_close dev fd (oper_done dev fd h)
            in (if n = 4 then uint (buf ! 3 AND 1) else - 1, h)))"

definition getFanHwState :: "'h chardev \<Rightarrow> 'h \<Rightarrow> int \<times> 'h" where
  "getFanHwState dev h = fan_bit dev 0xb h"

definition getFanRunState :: "'h chardev \<Rightarrow> 'h \<Rightarrow> int \<times> 'h" where
  "getFanRunState dev h = fan_bit dev 0x14 h"

text \<open>A round of the loop over the two fans. After a failure the file is closed, and the loop goes on.\<close>

definition fan_speed :: "'h chardev \<Rightarrow> int \<Rightarrow> u16 \<Rightarrow> 'h \<Rightarrow> u16 \<times> 'h" where
  "fan_speed dev fd addr h =
     (let ((r, msg), h) = read_fpga_data dev fd \<lparr>msg_addr = addr, msg_len = 4, msg_buf = junk4 dev\<rparr> h
      in if 0 < r then (of_be16 (msg_buf msg ! 2) (msg_buf msg ! 3) div 60, h)
         else (0, cd_close dev fd (oper_done dev fd h)))"

definition getFanSpeed :: "'h chardev \<Rightarrow> 'h \<Rightarrow> (int \<times> (u16 \<times> u16) option) \<times> 'h" where
  "getFanSpeed dev h =
     (let (fd, h) = cd_open dev h
      in if fd < 0 then ((- 1, None), h)
         else
           (let h = oper dev fd h;
                (f0, h) = fan_speed dev fd 0xc h;
                (f1, h) = fan_speed dev fd 0xe h;
                h = cd_close dev fd (oper_done dev fd h)
            in ((0, Some (f0, f1)), h)))"

definition enableFan :: "'h chardev \<Rightarrow> u16 \<Rightarrow> 'h \<Rightarrow> int \<times> 'h" where
  "enableFan dev on_off h =
     (let data = (if on_off = 1 then [0, 0, 0, 0] else [0, 0, 0xff, 0xff]);
          (fd, h) = cd_open dev h
      in if fd < 0 then (- 1, h)
         else
           (let h = oper dev fd h;
                h = cd_lseek dev fd 0x14 h;
                (n, h) = cd_write dev fd data h;
                h = cd_close dev fd (oper_done dev fd h)
            in (if n = 4 then 0 else - 1, h)))"

definition setFanRunLed :: "'h chardev \<Rightarrow> int \<Rightarrow> 'h \<Rightarrow> int \<times> 'h" where
  "setFanRunLed dev runStatus h =
     (let data = [0, if runStatus = 0 then 0 else 1];
          (fd, h) = cd_open dev h
      in if fd < 0 then (- 1, h)
         else
           (let h = oper dev fd h;
                h = cd_lseek dev fd 0x6e h;
                h = snd (cd_write dev fd data h);
                h = cd_close dev fd (oper_done dev fd h)
            in (0, h)))"

definition getFanState :: "'h chardev \<Rightarrow> u16 option \<Rightarrow> 'h \<Rightarrow> (int \<times> u16 option) \<times> 'h" where
  "getFanState dev fan h =
     (case fan of
        None \<Rightarrow> ((- 1, fan), h)
      | Some _ \<Rightarrow>
          (let (r, h) = getFanHwState dev h; f = word_of_int r
           in ((if f = 1 \<or> f = 0 then 0 else - 1, Some f), h)))"

definition FAN_SPEED_THRESH :: u16 where "FAN_SPEED_THRESH = 4000"

text \<open>The alarm that is computed with the speeds, and the information for the caller: identifier, states and speeds.\<close>

definition is_raise_alarm :: "u16 \<times> u16 \<Rightarrow> bool" where
  "is_raise_alarm s \<longleftrightarrow> fst s \<le> FAN_SPEED_THRESH \<or> snd s \<le> FAN_SPEED_THRESH"

record fan_info =
  fi_FanID :: int
  fi_HwState :: int
  fi_SubUnitHwState :: "int list"
  fi_RunSpeed :: "int list"
  fi_Voltage :: int
  fi_Intensity :: int

definition getFanInfo :: "'h chardev \<Rightarrow> int \<Rightarrow> fan_info option \<Rightarrow> 'h \<Rightarrow> (int \<times> fan_info option) \<times> 'h" where
  "getFanInfo dev index fan h =
     (if index \<noteq> 1 then ((- 1, fan), h)
      else
        (case fan of
           None \<Rightarrow> ((- 1, fan), h)
         | Some _ \<Rightarrow>
             (let f = \<lparr>fi_FanID = 0, fi_HwState = 0, fi_SubUnitHwState = replicate 8 0, fi_RunSpeed = replicate 8 0,
                  fi_Voltage = 0, fi_Intensity = 0\<rparr>
              in case getFanSpeed dev h of
                   ((r, Some (f0, f1)), h) \<Rightarrow>
                     if r < 0 then ((- 1, Some f), h)
                     else ((0, Some (f\<lparr>fi_RunSpeed := (replicate 8 0)[0 := uint f0, 1 := uint f1]\<rparr>)), h)
                 | ((r, None), h) \<Rightarrow> ((- 1, Some f), h))))"

section \<open>Power supplies\<close>

text \<open>The array \<open>power_plug\<close> is a pair.\<close>

type_synonym power_plug = "int \<times> int"

definition getPowerHwState :: "'h chardev \<Rightarrow> int \<Rightarrow> power_plug \<Rightarrow> 'h \<Rightarrow> int \<times> power_plug \<times> 'h" where
  "getPowerHwState dev number plug h =
     (if number < 1 \<or> 2 < number then (- 1, plug, h)
      else
        (let (fd, h) = cd_open dev h
         in if fd < 0 then (- 1, plug, h)
            else
              (let h = oper dev fd h;
                   ((n, buf), h) = read_at dev fd (if number = 1 then 0x70 else 0x72) 2 (junk4 dev) h;
                   v = uint (buf ! 1 AND 7);
                   plug = (if n = 2 then (if number = 1 then (v, snd plug) else (fst plug, v)) else plug);
                   h = cd_close dev fd (oper_done dev fd h)
               in (if n = 2 then v else - 1, plug, h))))"

text \<open>Waiting for the register that says a command is done: \<open>n\<close> reads at most, of two bytes.\<close>

fun valid_wait :: "'h chardev \<Rightarrow> int \<Rightarrow> u16 \<Rightarrow> nat \<Rightarrow> byte list \<Rightarrow> 'h \<Rightarrow> byte list \<times> 'h" where
  "valid_wait dev fd a 0 temp h = (temp, h)"
| "valid_wait dev fd a (Suc n) temp h =
     (let ((r, temp), h) = read_at dev fd a 2 temp h
      in if temp ! 1 \<noteq> 0 then (temp, h) else valid_wait dev fd a n temp h)"

definition wait_done :: "'h chardev \<Rightarrow> int \<Rightarrow> u16 \<Rightarrow> 'h \<Rightarrow> 'h" where
  "wait_done dev fd a h = snd (valid_wait dev fd a 0xfffff [fit 1 (cd_stack dev) ! 0, 0] h)"

text \<open>The wait for the flag that says data can be read: one read more than the counter.\<close>

fun enable_wait :: "'h chardev \<Rightarrow> int \<Rightarrow> nat \<Rightarrow> fpga_msg \<Rightarrow> 'h \<Rightarrow> fpga_msg \<times> 'h" where
  "enable_wait dev fd 0 msg h = (let ((r, msg), h) = read_fpga_data dev fd msg h in (msg, h))"
| "enable_wait dev fd (Suc n) msg h =
     (let ((r, msg), h) = read_fpga_data dev fd msg h
      in if msg_buf msg ! 1 AND 1 \<noteq> 0 then (msg, h) else enable_wait dev fd n msg h)"

definition msg2 :: "'h chardev \<Rightarrow> u16 \<Rightarrow> byte list \<Rightarrow> fpga_msg" where
  "msg2 dev addr bs = \<lparr>msg_addr = addr, msg_len = 2, msg_buf = bs @ drop (length bs) (junk4 dev)\<rparr>"

text \<open>Starting a conversion: register \<open>0x06\<close> of the supply is set.\<close>

definition power_control :: "'h chardev \<Rightarrow> int \<Rightarrow> u16 \<Rightarrow> 'h \<Rightarrow> 'h" where
  "power_control dev fd base h =
     (let valid_data = base + 0x0a;
          h = snd (write_fpga_data dev fd (msg2 dev (base + 4) [0xce, 0x06]) h);
          h = wait_done dev fd valid_data h;
          h = snd (write_fpga_data dev fd (msg2 dev (base + 6) [0x00, 0x20]) h);
          h = wait_done dev fd valid_data h;
          ((r, m), h) = read_fpga_data dev fd (msg2 dev base []) h;
          h = wait_done dev fd valid_data h;
          h = snd (write_fpga_data dev fd (msg2 dev base [0x00, msg_buf m ! 1 XOR 1]) h)
      in wait_done dev fd valid_data h)"

text \<open>
  Reading a register of the supply: the second byte of its value, or nothing when the flag does not come. The three
  messages for reading keep their buffers from one register to the next.
\<close>

type_synonym bufs = "byte list \<times> byte list \<times> byte list"

definition power_register :: "'h chardev \<Rightarrow> int \<Rightarrow> u16 \<Rightarrow> byte \<Rightarrow> bufs \<Rightarrow> 'h \<Rightarrow> (byte option \<times> bufs) \<times> 'h" where
  "power_register dev fd base reg bufs h =
     (case bufs of (b1, b3, b4) \<Rightarrow>
        let valid_data = base + 0x0a;
            h = snd (write_fpga_data dev fd (msg2 dev (base + 4) [0xce, reg]) h);
            h = wait_done dev fd valid_data h;
            ((r, m1), h) = read_fpga_data dev fd \<lparr>msg_addr = base + 2, msg_len = 2, msg_buf = b1\<rparr> h;
            h = snd (write_fpga_data dev fd (msg2 dev (base + 2) [0x00, msg_buf m1 ! 1 XOR 1]) h);
            h = wait_done dev fd valid_data h;
            (m3, h) = enable_wait dev fd 100 \<lparr>msg_addr = base + 0x0a, msg_len = 2, msg_buf = b3\<rparr> h
        in if msg_buf m3 ! 1 AND 1 \<noteq> 0
           then (let ((r, m4), h) = read_fpga_data dev fd \<lparr>msg_addr = base + 8, msg_len = 2, msg_buf = b4\<rparr> h
                 in ((Some (msg_buf m4 ! 1), msg_buf m1, msg_buf m3, msg_buf m4), h))
           else ((None, msg_buf m1, msg_buf m3, b4), h))"

text \<open>\<open>mem\<close> says which of the two allocations succeed.\<close>

definition getVoltageInfo :: "'h chardev \<Rightarrow> bool \<times> bool \<Rightarrow> int \<Rightarrow> power_plug \<Rightarrow> 'h \<Rightarrow> int \<times> power_plug \<times> 'h" where
  "getVoltageInfo dev mem number plug h =
     (let (r, plug, h) = getPowerHwState dev number plug h
      in if r = 7 \<or> r = - 1 then (- 1, plug, h)
         else
           (let (fd, h) = cd_open dev h
            in if fd < 0 then (- 1, plug, h)
               else
                 (let h = oper dev fd h; base = (if number = 1 then 0xb0 else 0xc0)
                  in if \<not> fst mem then (- 1, plug, cd_close dev fd (oper_done dev fd h))
                     else
                       (let h = power_control dev fd base h
                        in if \<not> snd mem then (- 1, plug, cd_close dev fd (oper_done dev fd h))
                           else
                             (case power_register dev fd base 0x02 (junk4 dev, junk4 dev, junk4 dev) h of
                                ((None, bufs), h) \<Rightarrow> (- 1, plug, cd_close dev fd (oper_done dev fd h))
                              | ((Some d0, bufs), h) \<Rightarrow>
                                  (case power_register dev fd base 0x03 bufs h of
                                     ((None, bufs), h) \<Rightarrow> (- 1, plug, cd_close dev fd (oper_done dev fd h))
                                   | ((Some d1, bufs), h) \<Rightarrow>
                                       (let tmp = (push_bit 4 (ucast d0) OR (drop_bit 4 (ucast d1) AND 0xf) :: u16);
                                            h = cd_close dev fd (oper_done dev fd h)
                                        in (uint tmp * 25 div 1000, plug, h))))))))"

definition getPowerState :: "'h chardev \<Rightarrow> (u16 \<times> u16) option \<Rightarrow> power_plug \<Rightarrow> 'h \<Rightarrow> (int \<times> (u16 \<times> u16) option) \<times> power_plug \<times> 'h" where
  "getPowerState dev pwrState plug h =
     (case pwrState of
        None \<Rightarrow> ((- 1, None), plug, h)
      | Some _ \<Rightarrow>
          (let (a, plug, h) = getPowerHwState dev 1 plug h;
               (b, plug, h) = getPowerHwState dev 2 plug h
           in ((0, Some (word_of_int a, word_of_int b)), plug, h)))"

text \<open>The result of this function is not defined when the read succeeds: it ends without a return.\<close>

definition getPowerOn :: "'h chardev \<Rightarrow> u16 \<Rightarrow> 'h \<Rightarrow> (int option \<times> u16) \<times> 'h" where
  "getPowerOn dev pwrOn h =
     (let (fd, h) = cd_open dev h
      in if fd < 0 then ((Some (- 1), pwrOn), h)
         else
           (let h = oper dev fd h;
                ((n, buf), h) = read_at dev fd 0x7b 2 (junk4 dev) h;
                h = cd_close dev fd (oper_done dev fd h)
            in if n = 2 then ((None, of_be16 (buf ! 0) (buf ! 1)), h) else ((Some (- 1), pwrOn), h)))"

record power_info =
  pi_PowerID :: int
  pi_HwState :: int
  pi_VoltageIn :: int
  pi_IntensityIn :: int
  pi_VoltageOut :: int
  pi_IntensityOut :: int

definition getPowerInfo ::
  "'h chardev \<Rightarrow> bool \<times> bool \<Rightarrow> int \<Rightarrow> power_info option \<Rightarrow> power_plug \<Rightarrow> 'h \<Rightarrow> (int \<times> power_info option) \<times> power_plug \<times> 'h" where
  "getPowerInfo dev mem index info plug h =
     (case info of
        None \<Rightarrow> ((- 1, None), plug, h)
      | Some _ \<Rightarrow>
          if index < 1 \<or> 2 < index then ((- 1, info), plug, h)
          else
            (let (s, plug, h) = getPowerHwState dev index plug h;
                 (v, plug, h) = getVoltageInfo dev mem index plug h
             in ((0, Some \<lparr>pi_PowerID = 0, pi_HwState = s, pi_VoltageIn = v, pi_IntensityIn = 0,
                  pi_VoltageOut = 0, pi_IntensityOut = 0\<rparr>), plug, h)))"

section \<open>LEDs\<close>

definition setAlarmLed :: "'h chardev \<Rightarrow> int \<Rightarrow> int \<Rightarrow> 'h \<Rightarrow> int \<times> 'h" where
  "setAlarmLed dev led_type led_color h =
     (let ty = (if led_type \<noteq> 0 then 3 else 2);
          (fd, h) = cd_open dev h
      in if fd < 0 then (- 1, h)
         else
           (let b = (0 :: byte);
                b = (if led_color \<noteq> 0 then b AND NOT (push_bit ty 1) else b OR push_bit ty 1);
                h = snd (write_fpga_data dev fd \<lparr>msg_addr = 0x15, msg_len = 4, msg_buf = [0, 0, 0, b]\<rparr> h)
            in (0, cd_close dev fd h)))"

section \<open>EEPROMs\<close>

datatype eeprom_addr = LOCALBOARD | BACKBOARD | FAN | PWR_A | PWR_B | CK01

fun eeprom_code :: "eeprom_addr \<Rightarrow> u32" where
  "eeprom_code LOCALBOARD = 0x00"
| "eeprom_code BACKBOARD = 0x50"
| "eeprom_code FAN = 0x51"
| "eeprom_code PWR_A = 0x52"
| "eeprom_code PWR_B = 0x53"
| "eeprom_code CK01 = 0x4f"

definition I2C_RSV :: u16 where "I2C_RSV = 0x1000"
definition I2C_CMD :: u16 where "I2C_CMD = 0x1001"
definition I2C_DATA :: u16 where "I2C_DATA = 0x1040"

definition eeprom_cmd :: "eeprom_addr \<Rightarrow> bool \<Rightarrow> u32" where
  "eeprom_cmd a rd =
     (let cmd = 0x00020000 OR push_bit 15 1;
          cmd = cmd OR (if rd then push_bit 14 1 else 0);
          cmd = cmd OR push_bit 13 1 OR push_bit 12 1;
          cmd = cmd OR (if eeprom_code a \<noteq> 0 then push_bit 11 1 else 0)
      in cmd OR push_bit 8 (eeprom_code a AND 7))"

definition i2c_cmdword_set :: "'h chardev \<Rightarrow> int \<Rightarrow> eeprom_addr \<Rightarrow> bool \<Rightarrow> 'h \<Rightarrow> int \<times> 'h" where
  "i2c_cmdword_set dev fd i2c_addr rd h =
     (let msg = \<lparr>msg_addr = I2C_RSV, msg_len = 4, msg_buf = be32 0x00010000\<rparr>;
          h = snd (write_fpga_data dev fd msg h);
          h = snd (read_fpga_data dev fd msg h);
          h = snd (write_fpga_data dev fd \<lparr>msg_addr = I2C_CMD, msg_len = 4, msg_buf = be32 (eeprom_cmd i2c_addr rd)\<rparr> h)
      in (0, h))"

text \<open>The loops over the 64 words of the buffer, from word \<open>i\<close> on.\<close>

fun eeprom_write_words :: "'h chardev \<Rightarrow> int \<Rightarrow> nat \<Rightarrow> nat \<Rightarrow> byte list \<Rightarrow> 'h \<Rightarrow> 'h" where
  "eeprom_write_words dev fd i 0 str h = h"
| "eeprom_write_words dev fd i (Suc n) str h =
     eeprom_write_words dev fd (i + 1) n (drop 4 str)
       (snd (write_fpga_data dev fd \<lparr>msg_addr = I2C_DATA + of_nat i, msg_len = 4, msg_buf = take 4 str\<rparr> h))"

fun eeprom_read_words :: "'h chardev \<Rightarrow> int \<Rightarrow> nat \<Rightarrow> nat \<Rightarrow> byte list \<Rightarrow> 'h \<Rightarrow> byte list \<times> 'h" where
  "eeprom_read_words dev fd i 0 mbuf h = ([], h)"
| "eeprom_read_words dev fd i (Suc n) mbuf h =
     (let ((r, msg), h) = read_fpga_data dev fd \<lparr>msg_addr = I2C_DATA + of_nat i, msg_len = 4, msg_buf = mbuf\<rparr> h;
          (bs, h) = eeprom_read_words dev fd (i + 1) n (msg_buf msg) h
      in (msg_buf msg @ bs, h))"

text \<open>The caller's buffer has at least the 256 bytes that the length says.\<close>

definition EepromWrite :: "'h chardev \<Rightarrow> eeprom_addr \<Rightarrow> byte list option \<Rightarrow> u16 \<Rightarrow> 'h \<Rightarrow> int \<times> 'h" where
  "EepromWrite dev a buf len h =
     (case buf of
        None \<Rightarrow> (- 1, h)
      | Some str \<Rightarrow>
          if len \<noteq> 256 then (- 1, h)
          else
            (let (fd, h) = cd_open dev h
             in if fd < 0 then (- 1, h)
                else
                  (let h = oper dev fd h;
                       h = eeprom_write_words dev fd 0 64 str h;
                       (r, h) = i2c_cmdword_set dev fd a False h
                   in (r, cd_close dev fd (oper_done dev fd h)))))"

definition EepromRead :: "'h chardev \<Rightarrow> eeprom_addr \<Rightarrow> byte list option \<Rightarrow> u16 \<Rightarrow> 'h \<Rightarrow> (int \<times> byte list option) \<times> 'h" where
  "EepromRead dev a buf len h =
     (case buf of
        None \<Rightarrow> ((- 1, buf), h)
      | Some str \<Rightarrow>
          if len \<noteq> 256 then ((- 1, buf), h)
          else
            (let (fd, h) = cd_open dev h
             in if fd < 0 then ((- 1, buf), h)
                else
                  (let h = oper dev fd h;
                       (r, h) = i2c_cmdword_set dev fd a True h;
                       (bs, h) = eeprom_read_words dev fd 0 64 (junk4 dev) h
                   in ((r, Some (bs @ drop 256 str)), cd_close dev fd (oper_done dev fd h)))))"

section \<open>Temperature and clock\<close>

text \<open>
  The sensor (\<open>temperature.c\<close>): \<open>i2c\<close> is the file of the bus, with the result of the transfer and the two bytes
  read. The result in floating point, \<open>temp / 256 * 10\<close> cut to an integer, is exact for the 16 bits of the sensor.
\<close>

record 'h i2c_bus =
  i2c_open :: "'h \<Rightarrow> int \<times> 'h"
  i2c_rdwr :: "int \<Rightarrow> 'h \<Rightarrow> (int \<times> byte \<times> byte) \<times> 'h"
  i2c_close :: "int \<Rightarrow> 'h \<Rightarrow> 'h"

definition getTemperature :: "'h i2c_bus \<Rightarrow> bool \<Rightarrow> int \<Rightarrow> 'h \<Rightarrow> (int \<times> int) \<times> 'h" where
  "getTemperature i2c mem temperature h =
     (let (fd, h) = i2c_open i2c h
      in if fd < 0 then ((- 1, temperature), h)
         else if \<not> mem then ((- 1, temperature), i2c_close i2c fd h)
         else
           (let ((ret, b0, b1), h) = i2c_rdwr i2c fd h; h = i2c_close i2c fd h
            in if ret < 0 then ((- 1, temperature), h)
               else (let temp = (sint (of_be16 b0 b1) * 10) sdiv 256 in ((temp, temp), h))))"

text \<open>The clock (\<open>rtc.c\<close>): the fields of a time and the file of the clock. Fields are 32-bit integers.\<close>

record rtc_time =
  tm_sec :: u32
  tm_min :: u32
  tm_hour :: u32
  tm_mday :: u32
  tm_mon :: u32
  tm_year :: u32

record 'h rtc_dev =
  rtc_open :: "'h \<Rightarrow> int \<times> 'h"
  rtc_rd :: "int \<Rightarrow> 'h \<Rightarrow> (int \<times> rtc_time) \<times> 'h"
  rtc_set :: "int \<Rightarrow> rtc_time \<Rightarrow> 'h \<Rightarrow> int \<times> 'h"
  rtc_close :: "int \<Rightarrow> 'h \<Rightarrow> 'h"

text \<open>
  The six pointers of the caller, year first: the result has the values that are stored. Year and month are stored
  whenever the pointer for the day is there, which is \<open>None\<close> when their own is not.
\<close>

record 'a date6 =
  d_year :: 'a
  d_month :: 'a
  d_day :: 'a
  d_hour :: 'a
  d_minute :: 'a
  d_second :: 'a

definition rtc_store :: "u32 option date6 \<Rightarrow> rtc_time \<Rightarrow> u32 option date6 option" where
  "rtc_store p t =
     (let put = (\<lambda>q v. map_option (\<lambda>_. v) q)
      in if d_day p \<noteq> None \<and> (d_month p = None \<or> d_year p = None) then None
         else Some
           \<lparr>d_year = (if d_day p \<noteq> None then Some (tm_year t + 1900) else d_year p),
            d_month = (if d_day p \<noteq> None then Some (tm_mon t + 1) else d_month p),
            d_day = put (d_day p) (tm_mday t), d_hour = put (d_hour p) (tm_hour t),
            d_minute = put (d_minute p) (tm_min t), d_second = put (d_second p) (tm_sec t)\<rparr>)"

definition rtc_get_time :: "'h rtc_dev \<Rightarrow> u32 option date6 \<Rightarrow> 'h \<Rightarrow> ((int \<times> u32 option date6) \<times> 'h) option" where
  "rtc_get_time rtc p h =
     (let (fd, h) = rtc_open rtc h
      in if 0 \<le> fd then
           (let ((ret, t), h) = rtc_rd rtc fd h
            in if ret < 0 then Some ((- 1, p), rtc_close rtc fd h)
               else do { p \<leftarrow> rtc_store p t; Some ((0, p), rtc_close rtc fd h) })
         else Some ((- 1, p), rtc_close rtc fd h))"

definition rtc_set_time :: "'h rtc_dev \<Rightarrow> u32 date6 \<Rightarrow> 'h \<Rightarrow> int \<times> 'h" where
  "rtc_set_time rtc d h =
     (let (fd, h) = rtc_open rtc h
      in if 0 \<le> fd then
           (let t = \<lparr>tm_sec = d_second d, tm_min = d_minute d, tm_hour = d_hour d, tm_mday = d_day d,
                  tm_mon = d_month d - 1, tm_year = d_year d - 1900\<rparr>;
                (ret, h) = rtc_set rtc fd t h
            in (if ret < 0 then - 1 else 0, rtc_close rtc fd h))
         else (- 1, rtc_close rtc fd h))"

text \<open>Setting the system's time from the clock; \<open>settime\<close> converts the fields and sets it.\<close>

definition rtc_recover_systime :: "'h rtc_dev \<Rightarrow> (rtc_time \<Rightarrow> 'h \<Rightarrow> 'h) \<Rightarrow> 'h \<Rightarrow> (int \<times> 'h) option" where
  "rtc_recover_systime rtc settime h =
     do {
       ((r, p), h) \<leftarrow> rtc_get_time rtc
         \<lparr>d_year = Some 0, d_month = Some 0, d_day = Some 0, d_hour = Some 0, d_minute = Some 0, d_second = Some 0\<rparr> h;
       let t = \<lparr>tm_sec = the (d_second p), tm_min = the (d_minute p), tm_hour = the (d_hour p),
           tm_mday = the (d_day p), tm_mon = the (d_month p) - 1, tm_year = the (d_year p) - 1900\<rparr>;
       Some (0, settime t h)
     }"

end
