(* ===== verification/Board_Proofs.thy ===== *)
theory Board_Proofs
  imports Board_Api Pxm_Proofs
begin

text \<open>
  What the management interface promises and where it falls short: the transport of EEPROM
  contents, the alarm LEDs, the ranges of the measured values and the clock.
\<close>

section \<open>Registers through messages\<close>

text \<open>Opening and closing the file leaves the registers alone.\<close>

definition fpga_session ::
  "'h chardev \<Rightarrow> int \<Rightarrow> ('h \<Rightarrow> u32) \<Rightarrow> ('h \<Rightarrow> 'r) \<Rightarrow> (u32 \<Rightarrow> nat \<Rightarrow> 'r \<Rightarrow> u32 list \<times> 'r) \<Rightarrow> (u32 \<Rightarrow> u32 \<Rightarrow> 'r \<Rightarrow> 'r) \<Rightarrow> bool" where
  "fpga_session dev fd pos regs rd wr \<longleftrightarrow> fpga_file dev fd pos regs rd wr \<and>
     (\<forall>h. fst (cd_open dev h) = fd \<and> regs (snd (cd_open dev h)) = regs h) \<and> (\<forall>h. regs (cd_close dev fd h) = regs h)"

lemma session_regs:
  assumes "fpga_session dev fd pos regs rd wr"
  shows "regs (oper dev fd h) = regs h" "regs (oper_done dev fd h) = regs h" "regs (cd_close dev fd h) = regs h"
    "fst (cd_open dev h) = fd" "regs (snd (cd_open dev h)) = regs h" "\<not> fd < 0"
  using assms by (simp_all add: fpga_session_def fpga_file_def oper_def oper_done_def prod_eq_iff)

lemma write_msg_regs:
  assumes "fpga_session dev fd pos regs rd wr"
  shows "regs (snd (write_fpga_data dev fd \<lparr>msg_addr = a, msg_len = 4, msg_buf = be32 w\<rparr> h)) = wr (ucast a) w (regs h)"
  using assms by (simp add: fpga_session_def fpga_file_def write_fpga_data_def split_beta Let_def)

lemma read_msg_regs:
  assumes "fpga_session dev fd pos regs rd wr" "length buf = 4"
  shows "\<exists>r h'. read_fpga_data dev fd \<lparr>msg_addr = a, msg_len = 4, msg_buf = buf\<rparr> h =
      ((r, \<lparr>msg_addr = a, msg_len = 4, msg_buf = be32 (fst (rd (ucast a) 1 (regs h)) ! 0)\<rparr>), h') \<and>
    regs h' = snd (rd (ucast a) 1 (regs h))"
proof -
  let ?h = "cd_lseek dev fd (ucast a) h"
  have f: "fpga_file dev fd pos regs rd wr" using assms(1) by (simp add: fpga_session_def)
  obtain n bs h2 where r: "cd_read dev fd buf ?h = ((n, bs), h2)" by (metis prod.collapse)
  have p: "pos ?h = ucast a" "regs ?h = regs h" "length (fst (rd (ucast a) 1 (regs h))) = 1" "\<not> fd < 0"
    using f by (simp_all add: fpga_file_def)
  have "bs = concat (map be32 (fst (rd (ucast a) 1 (regs h))))" "regs h2 = snd (rd (ucast a) 1 (regs h))"
    using f r p(1,2) assms(2) unfolding fpga_file_def by (metis fst_conv snd_conv mult.right_neutral)+
  moreover obtain w where "fst (rd (ucast a) 1 (regs h)) = [w]" using p(3) by (metis One_nat_def length_0_conv length_Suc_conv)
  ultimately show ?thesis
    using r p(4) assms(2) by (simp add: read_fpga_data_def read_at_def read_fd_def fit_id Let_def)
qed

section \<open>EEPROMs\<close>

text \<open>The words of a buffer.\<close>

definition word_of :: "byte list \<Rightarrow> nat \<Rightarrow> u32" where
  "word_of buf i = be32_at buf (4 * i)"

lemma take4: "4 \<le> length bs \<Longrightarrow> take 4 bs = be32 (be32_at bs 0)"
proof -
  assume "4 \<le> length bs"
  then have "Suc (Suc (Suc (Suc 0))) \<le> length bs" by simp
  then obtain a b c d bs' where "bs = a # b # c # d # bs'" by (auto simp: Suc_le_length_iff)
  then show ?thesis by (simp add: be32_at_def be32_of_be32)
qed

lemma be32_at_drop: "be32_at (drop k bs) i = be32_at bs (k + i)" if "k + i + 3 < length bs"
  using that by (simp add: be32_at_def ac_simps)

lemma data_addr: "i < 64 \<Longrightarrow> ucast (I2C_DATA + of_nat i) = (0x1040 + of_nat i :: u32)"
  using ucast_addr [of "0x1040 + int i"] by (simp add: I2C_DATA_def)

lemma data_addr_eq: "i < 64 \<Longrightarrow> k < 64 \<Longrightarrow> (0x1040 + of_nat k :: u32) = 0x1040 + of_nat i \<longleftrightarrow> k = i"
proof -
  assume "i < 64" "k < 64"
  then have "unat (of_nat k :: u32) = k" "unat (of_nat i :: u32) = i" by (simp_all add: unat_of_nat)
  then show ?thesis by (metis add_left_cancel)
qed

lemma data_addr_other: "k < 64 \<Longrightarrow> (0x1040 + of_nat k :: u32) \<noteq> 0x1000" "k < 64 \<Longrightarrow> (0x1040 + of_nat k :: u32) \<noteq> 0x1001"
proof -
  assume "k < 64"
  then have "unat (0x1040 + of_nat k :: u32) = 0x1040 + k"
    by (simp add: unat_word_ariths(1) unat_of_nat)
  then have "unat (0x1040 + of_nat k :: u32) \<noteq> unat (0x1000 :: u32)" "unat (0x1040 + of_nat k :: u32) \<noteq> unat (0x1001 :: u32)"
    by simp_all
  then show "(0x1040 + of_nat k :: u32) \<noteq> 0x1000" "(0x1040 + of_nat k :: u32) \<noteq> 0x1001" by metis+
qed

lemma write_words_regs:
  assumes s: "fpga_session dev fd pos regs plain_rd (\<lambda>a w r. r(a := w))" and "i + n \<le> 64" "4 * n \<le> length str" and k: "k < 64"
  shows "regs (eeprom_write_words dev fd i n str h) (0x1040 + of_nat k) =
    (if i \<le> k \<and> k < i + n then word_of str (k - i) else regs h (0x1040 + of_nat k))"
  using assms(2,3)
proof (induction n arbitrary: i str h)
  case (Suc n)
  let ?h = "snd (write_fpga_data dev fd \<lparr>msg_addr = I2C_DATA + of_nat i, msg_len = 4, msg_buf = take 4 str\<rparr> h)"
  have w: "regs ?h = (regs h)(0x1040 + of_nat i := be32_at str 0)"
    using write_msg_regs [OF s] Suc.prems by (simp add: take4 data_addr)
  have "regs (eeprom_write_words dev fd i (Suc n) str h) (0x1040 + of_nat k) =
      (if i + 1 \<le> k \<and> k < i + 1 + n then word_of (drop 4 str) (k - (i + 1)) else regs ?h (0x1040 + of_nat k))"
    using Suc.IH [of "i + 1" "drop 4 str" ?h] Suc.prems by simp
  moreover have "word_of (drop 4 str) (k - (i + 1)) = word_of str (k - i)" if "i + 1 \<le> k" "k < i + 1 + n"
  proof -
    have "4 + 4 * (k - (i + 1)) = 4 * (k - i)" using that by simp
    then show ?thesis using that Suc.prems by (simp add: word_of_def be32_at_drop)
  qed
  moreover have "regs ?h (0x1040 + of_nat k) = (if k = i then word_of str 0 else regs h (0x1040 + of_nat k))"
    using w k Suc.prems(1) data_addr_eq [of i k] by (simp add: word_of_def)
  ultimately show ?case by auto
qed auto

lemma cmdword_regs:
  assumes s: "fpga_session dev fd pos regs plain_rd (\<lambda>a w r. r(a := w))"
  shows "fst (i2c_cmdword_set dev fd a rd h) = 0"
    "regs (snd (i2c_cmdword_set dev fd a rd h)) = (regs h)(0x1000 := 0x10000, 0x1001 := eeprom_cmd a rd)"
proof -
  let ?h1 = "snd (write_fpga_data dev fd \<lparr>msg_addr = I2C_RSV, msg_len = 4, msg_buf = be32 0x10000\<rparr> h)"
  let ?h2 = "snd (read_fpga_data dev fd \<lparr>msg_addr = I2C_RSV, msg_len = 4, msg_buf = be32 0x10000\<rparr> ?h1)"
  have "regs ?h2 = regs ?h1"
    using read_msg_regs [OF s, of "be32 0x10000" I2C_RSV ?h1] by (auto simp: plain_rd_def)
  moreover have "regs ?h1 = (regs h)(0x1000 := 0x10000)"
    using write_msg_regs [OF s] by (simp add: I2C_RSV_def)
  ultimately show "regs (snd (i2c_cmdword_set dev fd a rd h)) = (regs h)(0x1000 := 0x10000, 0x1001 := eeprom_cmd a rd)"
    using write_msg_regs [OF s, of I2C_CMD "eeprom_cmd a rd" ?h2] by (simp add: i2c_cmdword_set_def I2C_CMD_def Let_def)
  show "fst (i2c_cmdword_set dev fd a rd h) = 0" by (simp add: i2c_cmdword_set_def Let_def)
qed

lemma read_words_regs:
  assumes s: "fpga_session dev fd pos regs plain_rd wr" and "i + n \<le> 64" "length mbuf = 4"
  shows "\<exists>h'. eeprom_read_words dev fd i n mbuf h =
      (concat (map (\<lambda>k. be32 (regs h (0x1040 + of_nat k))) [i..<i + n]), h') \<and> regs h' = regs h"
  using assms(2,3)
proof (induction n arbitrary: i mbuf h)
  case (Suc n)
  obtain r h1 where h1: "read_fpga_data dev fd \<lparr>msg_addr = I2C_DATA + of_nat i, msg_len = 4, msg_buf = mbuf\<rparr> h =
      ((r, \<lparr>msg_addr = I2C_DATA + of_nat i, msg_len = 4, msg_buf = be32 (regs h (0x1040 + of_nat i))\<rparr>), h1)"
      "regs h1 = regs h"
    using read_msg_regs [OF s Suc.prems(2), of "I2C_DATA + of_nat i" h] Suc.prems(1)
    by (auto simp: plain_rd_def data_addr)
  obtain h2 where h2: "eeprom_read_words dev fd (i + 1) n (be32 (regs h (0x1040 + of_nat i))) h1 =
      (concat (map (\<lambda>k. be32 (regs h1 (0x1040 + of_nat k))) [i + 1..<i + 1 + n]), h2)" "regs h2 = regs h1"
    using Suc.IH [of "i + 1" "be32 (regs h (0x1040 + of_nat i))" h1] Suc.prems(1) by auto
  show ?case using h1 h2 by (simp add: upt_conv_Cons del: upt_Suc)
qed simp

lemma eeprom_cmd_values:
  shows "eeprom_cmd LOCALBOARD False = 0x2b000" "eeprom_cmd LOCALBOARD True = 0x2f000"
    "eeprom_cmd BACKBOARD False = 0x2b800" "eeprom_cmd BACKBOARD True = 0x2f800"
    "eeprom_cmd FAN False = 0x2b900" "eeprom_cmd FAN True = 0x2f900"
    "eeprom_cmd PWR_A False = 0x2ba00" "eeprom_cmd PWR_A True = 0x2fa00"
    "eeprom_cmd PWR_B False = 0x2bb00" "eeprom_cmd PWR_B True = 0x2fb00"
    "eeprom_cmd CK01 False = 0x2bf00" "eeprom_cmd CK01 True = 0x2ff00"
  by (simp_all add: eeprom_cmd_def)

lemma eeprom_cmd_inj: "eeprom_cmd a rd = eeprom_cmd b rd' \<longleftrightarrow> a = b \<and> rd = rd'"
  by (cases a; cases b; cases rd; cases rd') (simp_all add: eeprom_cmd_values)

lemma concat_words: "length buf = 4 * n \<Longrightarrow> concat (map (\<lambda>k. be32 (word_of buf k)) [0..<n]) = buf"
proof (induction n arbitrary: buf)
  case (Suc n)
  have d: "word_of buf (Suc k) = word_of (drop 4 buf) k" if "k < n" for k
    using that Suc.prems by (simp add: word_of_def be32_at_drop)
  have "concat (map (\<lambda>k. be32 (word_of buf k)) [0..<Suc n]) =
      be32 (word_of buf 0) @ concat (map (\<lambda>k. be32 (word_of buf (Suc k))) [0..<n])"
    by (simp add: upt_conv_Cons map_Suc_upt [symmetric] comp_def del: upt_Suc)
  also have "\<dots> = be32 (word_of buf 0) @ concat (map (\<lambda>k. be32 (word_of (drop 4 buf) k)) [0..<n])"
    using d by (intro arg_cong2 [where f = append] arg_cong [where f = concat] refl map_cong) simp_all
  also have "\<dots> = take 4 buf @ drop 4 buf"
    using Suc.IH [of "drop 4 buf"] Suc.prems by (simp add: take4 word_of_def)
  finally show ?case by simp
qed simp

lemma eeprom_read_session:
  assumes s: "fpga_session dev fd pos regs plain_rd (\<lambda>a w r. r(a := w))"
    and rd: "eeprom_read_words dev fd 0 64 (junk4 dev) (snd (i2c_cmdword_set dev fd b True (oper dev fd (snd (cd_open dev h))))) = (bs, g)"
    and "length old = 256"
  shows "EepromRead dev b (Some old) 256 h = ((0, Some bs), cd_close dev fd (oper_done dev fd g))"
proof -
  have "\<not> fd < 0" "fst (cd_open dev h) = fd" "fst (i2c_cmdword_set dev fd b True g') = 0" for g'
    using session_regs [OF s] cmdword_regs(1) [OF s] by (simp_all add: not_less)
  then show ?thesis
    using rd assms(3) by (simp add: EepromRead_def split_beta Let_def del: eeprom_read_words.simps)
qed


lemma reg_file_session: "fpga_session reg_file 3 snd fst plain_rd (\<lambda>a w r. r(a := w))"
  using reg_file_fpga by (simp add: fpga_session_def) (simp add: reg_file_def)


section \<open>LEDs\<close>

text \<open>
  Setting one alarm LED sets both: the call writes the whole register, with 0 for an LED to be switched on and the one bit of
  an LED to be switched off. The bits are active low, so the other LED is always on afterwards, and an LED cannot be off
  while the other one is set.
\<close>

theorem alarm_led_clobbers:
  assumes s: "fpga_session dev fd pos regs rd wr"
  shows "\<exists>h'. setAlarmLed dev led_type led_color h = (0, h') \<and>
    regs h' = wr 0x15 (if led_color \<noteq> 0 then 0 else push_bit (if led_type \<noteq> 0 then 3 else 2) 1) (regs h) \<and>
    \<not> bit (if led_color \<noteq> 0 then 0 else push_bit (if led_type \<noteq> 0 then 3 else 2) 1 :: u32) (if led_type \<noteq> 0 then 2 else 3)"
proof -
  let ?b = "if led_color \<noteq> 0 then 0 else push_bit (if led_type \<noteq> 0 then 3 else 2) 1 :: byte"
  let ?w = "if led_color \<noteq> 0 then 0 else push_bit (if led_type \<noteq> 0 then 3 else 2) 1 :: u32"
  have "[0, 0, 0, ?b] = be32 ?w" by (simp add: be32_def)
  then have "regs (snd (write_fpga_data dev fd \<lparr>msg_addr = 0x15, msg_len = 4, msg_buf = [0, 0, 0, ?b]\<rparr> h1)) =
      wr 0x15 ?w (regs h1)" for h1
    using write_msg_regs [OF s, where a = "0x15" and w = ?w and h = h1] by simp
  then show ?thesis
    using session_regs [OF s]
    by (cases "led_color = 0"; cases "led_type = 0") (simp_all add: setAlarmLed_def split_beta Let_def)
qed

theorem alarm_led_clobbers_witness:
  "\<exists>h'. setAlarmLed reg_file 0 0 (\<lambda>a. 8, 0) = (0, h') \<and> fst h' 0x15 = 4"
  using alarm_led_clobbers [OF reg_file_session, of 0 0 "(\<lambda>a. 8, 0)"] by auto

section \<open>Ranges\<close>

text \<open>
  Whatever the FPGA delivers, a fan speed is at most 1092 after the division, below the threshold of 4000 for the
  alarm: the alarm is computed for every fan that runs, and for one that stands.
\<close>

theorem fan_alarm_always:
  assumes "getFanSpeed dev h = ((r, Some s), h')"
  shows "fst s \<le> 1092 \<and> snd s \<le> 1092 \<and> is_raise_alarm s"
proof -
  have d: "w div 60 \<le> 1092" for w :: u16
  proof -
    have "unat w < 65536" using unsigned_less [of w] by simp
    then have "unat w div 60 \<le> 1092" by linarith
    then show ?thesis by (simp add: word_le_nat_alt unat_div)
  qed
  have "fst (fan_speed dev fd a h) \<le> 1092" for fd a h
    using d by (simp add: fan_speed_def split_beta Let_def)
  then have "fst s \<le> 1092" "snd s \<le> 1092"
    using assms by (auto simp: getFanSpeed_def split_beta Let_def split: if_splits)
  moreover from this(1) have "fst s \<le> FAN_SPEED_THRESH"
    by (simp add: FAN_SPEED_THRESH_def word_le_nat_alt)
  ultimately show ?thesis by (simp add: is_raise_alarm_def)
qed

theorem fan_alarm_always_witness:
  "is_raise_alarm (the (snd (fst (getFanSpeed reg_file (\<lambda>a. 0xffffffff, 0)))))"
proof -
  obtain s h' where "getFanSpeed reg_file (\<lambda>a. 0xffffffff, 0) = ((0, Some s), h')"
    by (auto simp: getFanSpeed_def reg_file_def split_beta Let_def)
  with fan_alarm_always [OF this] show ?thesis by simp
qed

lemma voltage_result:
  assumes "P (- 1)" "\<And>(d0 :: byte) (d1 :: byte). P (uint (push_bit 4 (ucast d0) OR (drop_bit 4 (ucast d1) AND 0xf) :: u16) * 25 div 1000)"
  shows "P (fst (getVoltageInfo dev mem number plug h))"
  unfolding getVoltageInfo_def Let_def split_beta using assms
  by (auto split: option.split)

text \<open>
  A voltage is -1, for a supply that is absent or does not answer, or between 0 and 102, for any device: the
  twelve bits of the converter in steps of 25 millivolts.
\<close>

theorem voltage_bounds:
  "fst (getVoltageInfo dev mem number plug h) = - 1 \<or> fst (getVoltageInfo dev mem number plug h) \<in> {0..102}"
proof (rule voltage_result [where P = "\<lambda>v. v = - 1 \<or> v \<in> {0..102}"])
  fix d0 d1 :: byte
  obtain w where w: "w = (push_bit 4 (ucast d0) OR (drop_bit 4 (ucast d1) AND 0xf) :: u16)" by blast
  have m: "(0xf :: u16) = mask 4" by (simp add: mask_numeral)
  have "take_bit 12 w = w"
    unfolding w m by (rule bit_word_eqI) (auto simp: bit_simps dest: bit_imp_le_length)
  then have "uint w < 2 ^ 12" by (metis take_bit_int_less_exp unsigned_take_bit_eq)
  then have "uint w div 40 \<le> 4095 div 40" by (intro zdiv_mono1) simp_all
  then have "uint w * 25 div 1000 = - 1 \<or> uint w * 25 div 1000 \<in> {0..102}"
    by (simp add: pos_imp_zdiv_nonneg_iff)
  then show "uint (push_bit 4 (ucast d0) OR (drop_bit 4 (ucast d1) AND 0xf) :: u16) * 25 div 1000 = - 1 \<or>
      uint (push_bit 4 (ucast d0) OR (drop_bit 4 (ucast d1) AND 0xf) :: u16) * 25 div 1000 \<in> {0..102}"
    unfolding w .
qed simp

section \<open>Temperature\<close>

text \<open>The sensor: a bus file that opens and delivers the two bytes of \<open>w\<close>.\<close>

definition sensor :: "'h i2c_bus \<Rightarrow> u16 \<Rightarrow> bool" where
  "sensor i2c w \<longleftrightarrow> (\<forall>h. 0 \<le> fst (i2c_open i2c h)) \<and> (\<forall>fd h. fst (i2c_rdwr i2c fd h) = (0, hi8 w, lo8 w))"

text \<open>
  The temperature is the value of the sensor, in units of 1/256 degree, in tenths of a degree and cut towards zero. It is
  between -1280 and 1279. A value from -51 to -26, which is between -0.2 and -0.1 degrees, is
  reported as -1, which callers take for an error.
\<close>

theorem temperature_value:
  assumes "sensor i2c w"
  shows "\<exists>t h'. getTemperature i2c True t0 h = ((t, t), h') \<and> t = sgn (sint w) * (10 * \<bar>sint w\<bar> div 256) \<and>
    - 1280 \<le> t \<and> t \<le> 1279 \<and> (t = - 1 \<longleftrightarrow> - 51 \<le> sint w \<and> sint w \<le> - 26)"
proof -
  let ?s = "sint w"
  have r: "- 32768 \<le> ?s" "?s < 32768"
    using sint_greater_eq [of w] sint_less [of w] by simp_all
  have e: "(?s * 10) sdiv 256 = sgn ?s * (10 * \<bar>?s\<bar> div 256)"
    by (simp add: signed_divide_int_def sgn_mult abs_mult mult.commute)
  have g: "\<exists>h'. getTemperature i2c True t0 h = (((?s * 10) sdiv 256, (?s * 10) sdiv 256), h')"
    using assms by (simp add: sensor_def getTemperature_def not_less [symmetric] split_beta Let_def)
  have "- 1280 \<le> sgn ?s * (10 * \<bar>?s\<bar> div 256) \<and> sgn ?s * (10 * \<bar>?s\<bar> div 256) \<le> 1279 \<and>
      (sgn ?s * (10 * \<bar>?s\<bar> div 256) = - 1 \<longleftrightarrow> - 51 \<le> ?s \<and> ?s \<le> - 26)"
    using r by (cases "?s = 0"; cases "0 < ?s") (auto simp: sgn_if)
  with g e show ?thesis by metis
qed

theorem temperature_value_witness:
  "fst (fst (getTemperature \<lparr>i2c_open = \<lambda>h. (3, h), i2c_rdwr = \<lambda>fd h. ((0, 0xff, 0xe0), h), i2c_close = \<lambda>fd h. h\<rparr> True 0 (0 :: nat))) = - 1"
proof -
  let ?i = "\<lparr>i2c_open = \<lambda>h. (3, h), i2c_rdwr = \<lambda>fd h. ((0, 0xff, 0xe0), h), i2c_close = \<lambda>fd h. h\<rparr> :: nat i2c_bus"
  have "sensor ?i 0xffe0" "sint (0xffe0 :: u16) = - 32"
    by (simp_all add: sensor_def hi8_def lo8_def)
  with temperature_value [of ?i "0xffe0" 0 0] show ?thesis by auto
qed

section \<open>The clock\<close>

text \<open>
  A clock that takes the times that are \<open>valid\<close>, and whose time stands still between the calls: no second passes
  between setting and reading it.
\<close>

definition clock :: "'h rtc_dev \<Rightarrow> (rtc_time \<Rightarrow> bool) \<Rightarrow> ('h \<Rightarrow> rtc_time) \<Rightarrow> bool" where
  "clock rtc valid now \<longleftrightarrow>
     (\<forall>h. 0 \<le> fst (rtc_open rtc h) \<and> now (snd (rtc_open rtc h)) = now h) \<and>
     (\<forall>fd h. fst (rtc_rd rtc fd h) = (0, now h) \<and> now (snd (rtc_rd rtc fd h)) = now h) \<and>
     (\<forall>fd t h. valid t \<longrightarrow> fst (rtc_set rtc fd t h) = 0 \<and> now (snd (rtc_set rtc fd t h)) = t) \<and>
     (\<forall>fd t h. \<not> valid t \<longrightarrow> fst (rtc_set rtc fd t h) < 0 \<and> now (snd (rtc_set rtc fd t h)) = now h) \<and>
     (\<forall>fd h. now (rtc_close rtc fd h) = now h)"

text \<open>The fields that \<open>rtc_set_time\<close> hands to the clock.\<close>

definition clock_fields :: "u32 date6 \<Rightarrow> rtc_time" where
  "clock_fields d = \<lparr>tm_sec = d_second d, tm_min = d_minute d, tm_hour = d_hour d, tm_mday = d_day d,
     tm_mon = d_month d - 1, tm_year = d_year d - 1900\<rparr>"

lemma clock_read:
  assumes "clock rtc valid now"
  shows "\<exists>h'. rtc_get_time rtc p h = map_option (\<lambda>p. ((0, p), h')) (rtc_store p (now h))"
proof -
  have "0 \<le> fst (rtc_open rtc h)" "fst (rtc_rd rtc fd (snd (rtc_open rtc h))) = (0, now h)" for fd
    using assms by (simp_all add: clock_def)
  then show ?thesis
    by (auto simp: rtc_get_time_def split_beta Let_def map_option_case split: option.split intro!: exI)
qed

lemma clock_write:
  assumes "clock rtc valid now"
  shows "\<exists>h'. rtc_set_time rtc d h = (if valid (clock_fields d) then 0 else - 1, h') \<and>
    now h' = (if valid (clock_fields d) then clock_fields d else now h)"
  using assms by (simp add: clock_def rtc_set_time_def clock_fields_def split_beta Let_def)

text \<open>
  A time that the clock takes is read back field by field when all six pointers of the caller are
  there, and one that it does not take is reported as an error and changes nothing. With a pointer for the day and none
  for the month the read follows a null pointer.
\<close>

theorem clock_roundtrip:
  assumes c: "clock rtc valid now"
  shows "\<exists>h1 h2. rtc_set_time rtc d h = (if valid (clock_fields d) then 0 else - 1, h1) \<and>
    (if valid (clock_fields d) then
       rtc_get_time rtc \<lparr>d_year = Some y, d_month = Some m, d_day = Some dd, d_hour = Some hh, d_minute = Some mi, d_second = Some s\<rparr> h1 =
         Some ((0, \<lparr>d_year = Some (d_year d), d_month = Some (d_month d), d_day = Some (d_day d), d_hour = Some (d_hour d),
           d_minute = Some (d_minute d), d_second = Some (d_second d)\<rparr>), h2)
     else now h1 = now h) \<and>
    rtc_get_time rtc \<lparr>d_year = Some y, d_month = None, d_day = Some dd, d_hour = hh', d_minute = mi', d_second = s'\<rparr> h1 = None"
proof -
  obtain g where g: "rtc_set_time rtc d h = (if valid (clock_fields d) then 0 else - 1, g)"
      "now g = (if valid (clock_fields d) then clock_fields d else now h)"
    using clock_write [OF c] by blast
  let ?p = "\<lparr>d_year = Some y, d_month = Some m, d_day = Some dd, d_hour = Some hh, d_minute = Some mi, d_second = Some s\<rparr>"
  let ?q = "\<lparr>d_year = Some y, d_month = None, d_day = Some dd, d_hour = hh', d_minute = mi', d_second = s'\<rparr>"
  obtain a b where "rtc_get_time rtc ?p g = map_option (\<lambda>p. ((0, p), a)) (rtc_store ?p (now g))"
      "rtc_get_time rtc ?q g = map_option (\<lambda>p. ((0, p), b)) (rtc_store ?q (now g))"
    using clock_read [OF c] by metis
  then show ?thesis using g by (auto simp: rtc_store_def clock_fields_def)
qed

theorem clock_roundtrip_witness:
  "\<exists>h1 h2. rtc_set_time \<lparr>rtc_open = \<lambda>h. (3, h), rtc_rd = \<lambda>fd h. ((0, h), h),
      rtc_set = \<lambda>fd t h. if tm_sec t < 60 then (0, t) else (- 22, h), rtc_close = \<lambda>fd h. h\<rparr>
      \<lparr>d_year = 2013, d_month = 9, d_day = 4, d_hour = 17, d_minute = 21, d_second = 10\<rparr>
      \<lparr>tm_sec = 0, tm_min = 0, tm_hour = 0, tm_mday = 0, tm_mon = 0, tm_year = 0\<rparr> = (0, h1) \<and>
    rtc_get_time \<lparr>rtc_open = \<lambda>h. (3, h), rtc_rd = \<lambda>fd h. ((0, h), h),
      rtc_set = \<lambda>fd t h. if tm_sec t < 60 then (0, t) else (- 22, h), rtc_close = \<lambda>fd h. h\<rparr>
      \<lparr>d_year = Some 0, d_month = Some 0, d_day = Some 0, d_hour = Some 0, d_minute = Some 0, d_second = Some 0\<rparr> h1 =
      Some ((0, \<lparr>d_year = Some 2013, d_month = Some 9, d_day = Some 4, d_hour = Some 17, d_minute = Some 21, d_second = Some 10\<rparr>), h2)"
proof -
  let ?r = "\<lparr>rtc_open = \<lambda>h. (3, h), rtc_rd = \<lambda>fd h. ((0, h), h),
    rtc_set = \<lambda>fd t h. if tm_sec t < 60 then (0, t) else (- 22, h), rtc_close = \<lambda>fd h. h\<rparr>"
  have "clock ?r (\<lambda>t. tm_sec t < 60) id" by (simp add: clock_def)
  from clock_roundtrip [OF this, of "\<lparr>d_year = 2013, d_month = 9, d_day = 4, d_hour = 17, d_minute = 21, d_second = 10\<rparr>"]
  show ?thesis by (simp add: clock_fields_def del: One_nat_def) blast
qed

end
