(* ===== verification/Spec2Isabelle.thy ===== *)
theory Spec2Isabelle
  imports Watchdog_Proofs Spidrv Spidev_Devices Fpga_Update Espi_Stack Fsl_Espi_Life Pxm_Proofs
    Mdio_Probe Mdio_Race Log2file Board_Proofs
begin

text \<open>
  Verification of the board drivers of the H2000 platform: the code the platform adds to its Linux kernel, and the libraries and
  programs that use it. File names are relative to \<open>src/\<close>; kernel files are under \<open>linux-2.6-cloud-2000/\<close>. The target is
  a 32-bit big-endian PowerPC.

  \<^bold>\<open>The parts and how they interact.\<close>
  The \<^emph>\<open>watchdog\<close> supervises tasks that register with it and feeds an external chip, which resets the card when it is
  not fed. The \<^emph>\<open>SPI\<close> part reaches an FPGA, a clock chip and a flash through one controller, from the kernel (character
  device, message queue, interrupt driver) and from a user-space driver that polls. The \<^emph>\<open>FPGA libraries\<close> reach, through
  a device file, the registers of the FPGA and through them tributary cards, fans, power supplies, LEDs and EEPROMs. The
  \<^emph>\<open>management bus\<close> reaches the PHYs and, through a pseudo-PHY, the Ethernet switches. The \<^emph>\<open>logger\<close> keeps old
  log files.

  \<^bold>\<open>Conventions.\<close>
  C integers are words of their width or, where the code keeps them small and signed, \<open>int\<close>. Handlers are functions on a record
  of the driver's state. Hardware, the kernel around a driver and device files are records of functions over an arbitrary
  state \<open>'h\<close>, and what a theorem needs of them is a predicate on the record (\<open>espi_contract\<close>,
  \<open>mdio_contract\<close>, \<open>pseudo_phy\<close>, \<open>fpga_file\<close>, \<open>fpga_session\<close>, \<open>sensor\<close>,
  \<open>clock\<close>), for each of which there is a concrete device in the witnesses. Undefined behaviour (an access outside
  a buffer, a null pointer, use after free) is \<open>None\<close> or \<open>Fault\<close>, a call that sleeps for ever is \<open>Blocked\<close>, and a
  wait without a bound is a partial function whose \<open>None\<close> is not returning. Bounded waits carry the bound of the code: 1000 for the
  registers of a clause, 65535 for a switch, 100000 for the reset of the bus, \<open>0xfffff\<close> and 100 for a power
  supply; the recursion is on what is left of it, so it ends and nothing is cut off. Interrupts of a transfer are counted by
  a number of rounds that is shown to be enough.

  \<^bold>\<open>Theories.\<close>
  \<^item> \<open>H2000_Prelude\<close>: words, error numbers, ioctl numbers (\<open>include/asm-generic/ioctl.h\<close>), polling, buffers;
    the locale \<open>invariant_system\<close> for state machines and the locale \<open>refines_ops\<close> for operations that
    implement a specification.
  \<^item> \<open>Wdt_Hardware\<close>, \<open>Wdt_Tasks\<close>, \<open>Watchdog\<close>, \<open>Watchdog_Proofs\<close>: \<open>drivers/wdt/src\<close>. The list of tasks
    refines a table keyed by process number (C12); the loaded driver is a step relation with an invariant (C1); when
    the timer routine restarts the system (C2, C3, C4), what the check of the times finds (C17), and how it fails before
    the tick counter wraps (C38).
  \<^item> \<open>Espi\<close>, \<open>Spidrv\<close>: the polled driver \<open>drivers/spidrv/spi.c\<close> and its access library \<open>spidrv.c\<close>: a
    transfer exchanges words with the slave (C18), the bit clock (C29), frames and the errors that are lost.
  \<^item> \<open>Spi_Bus\<close>, \<open>W25p16\<close>: one message as the kernel's drivers use it, and the flash driver
    \<open>drivers/spi/w25p16.c\<close> (C23). \<open>Fpga_Update\<close>: the program
    \<open>drivers/fpga_update/fpga_update.c\<close> that writes this flash, run on the character device and the flash driver
    together (C22).
  \<^item> \<open>Uaccess\<close>, \<open>Spidev\<close>, \<open>Spidev_Ioctl\<close>, \<open>Spidev_Proofs\<close>, \<open>Spidev_Msg_Proofs\<close>, \<open>Spidev_Devices\<close>: copies
    to and from user space, and the character device \<open>drivers/spi/spidev.c\<close>: register accesses (C20), exclusion while the
    flash is selected (C21), messages (C28), and open, release, probe and remove as a state machine free of use
    after free (C8).
  \<^item> \<open>Fsl_Espi\<close>, \<open>Fsl_Espi_Proofs\<close>, \<open>Espi_Stack\<close>: the interrupt driver \<open>drivers/spi/fsl_espi.c\<close> and the queue
    \<open>spi_bitbang.c\<close>: it does what the polled driver does (C7, C19), the queue implements a
    word-by-word specification (C6), a user's message reaches the slave and its answers come back (C5), except where
    lengths are no multiples of four (C37), and without interrupts nothing returns (C32).
  \<^item> \<open>Fsl_Espi_Probe\<close>, \<open>Fsl_Espi_Life\<close>: its probe and remove: safe over any sequence (C9), apart from a probe that
    reports success after failing (C36).
  \<^item> \<open>Pxm_Fpga\<close>, \<open>Pxm_Remote\<close>, \<open>Pxm_Proofs\<close>: \<open>drivers/remotefpga/newApi\<close>. The table of clauses stays well
    typed and keeps reads inside their buffers (C27), a circle read implements its specification (C13), commands name the
    buffers read later (C25).
  \<^item> \<open>Mdio\<close>, \<open>Mdio_Proofs\<close>, \<open>Mdio_Probe\<close>, \<open>Mdio_Race\<close>: \<open>drivers/net/fsl_pq_mdio.c\<close>, with
    \<open>mdiobus_read\<close> and \<open>mdiobus_write\<close> of \<open>drivers/net/phy/mdio_bus.c\<close>. Any sequence of accesses implements its
    specification (C14) unless the controller stays busy (C31); the lock serialises interleaved requests (C10), which
    direct accesses break (C33); the search for an address (C30); probe and remove (C11, C39).
  \<^item> \<open>Bcm53101\<close>, \<open>Bcm53101_Proofs\<close>: the switches, \<open>drivers/drv_bcm53101/newdrv/drv_bcm53101.c\<close> and the set-up in
    \<open>fsl_pq_mdio.c\<close>: the registers after the set-up (C15), reads that do not wait (C34), the device
    file (C26, C35).
  \<^item> \<open>Log2file\<close>: \<open>drivers/log2file\<close>: the files are a queue of five (C16), until a rename fails.
  \<^item> \<open>Board_Api\<close>, \<open>Board_Proofs\<close>: \<open>drivers/externdrv\<close>: EEPROM contents (C24), LEDs, fans, voltages, temperature and
    clock.
  \<^item> this theory: what the FPGA libraries get from the character device (C40).

  \<^bold>\<open>Not modelled.\<close>
  Delays, console output and statistics. Concurrency is modelled where it decides a result: the management bus, and the events of the
  watchdog and of the character devices, which are handled one at a time under their locks; the semaphores of the user-space
  access library and the mutex of the flash only make calls follow each other. The proc files of the watchdog, which the build
  does not register. The registration of character devices in module initialisations, whose results the code ignores. The generic
  parts of the kernel, among them the registration of masters, buses and PHYs, which are results given to the probes.
  Programs that only move data between files, the console and interfaces modelled here (updates of the clock chip, tests,
  demonstrations, tools to look at memory and pins); copies of older drivers; third-party packages and binary images.
\<close>

section \<open>The FPGA libraries on the SPI character device\<close>

text \<open>
  C40. The user-space libraries bracket each access to the FPGA with two ioctls that are meant to claim and release the
  chip. The character device of this kernel knows neither: both are refused, whatever the state of the driver, and
  nothing changes. The libraries ignore the result, so their accesses are not protected from other users of the bus.
\<close>

theorem fpga_claims_refused:
  assumes "bound s"
  shows "spidev_ioctl env um SPI_IOC_OPER_FPGA 0 s h = Done (- ENOTTY, s, um, h) \<and>
    spidev_ioctl env um SPI_IOC_OPER_FPGA_DONE 0 s h = Done (- ENOTTY, s, um, h)"
  using assms
  by (simp add: spidev_ioctl_def ioctl_message_def SPI_IOC_OPER_FPGA_def SPI_IOC_OPER_FPGA_DONE_def spi_ioc_defs access_ok_def)

theorem fpga_claims_refused_witness:
  "spidev_ioctl demo_env (full_mem (\<lambda>a. 0)) SPI_IOC_OPER_FPGA 0 spidev_demo 0 = Done (- ENOTTY, spidev_demo, full_mem (\<lambda>a. 0), 0)"
  using fpga_claims_refused [of spidev_demo demo_env "full_mem (\<lambda>a. 0)" 0] by (simp add: spidev_demo_def)

end
